theory Spec2Isabelle
  imports Complex_Main
begin

section \<open>Python values\<close>

text \<open>
  The program (\<^verbatim>\<open>run.py\<close>) is a sequence of HTTP requests whose JSON answers are
  picked apart with \<^verbatim>\<open>.get\<close>, subscripts, \<^verbatim>\<open>int(...)\<close> and true division. The
  values it handles are therefore exactly the values \<^verbatim>\<open>json.loads\<close> produces, plus the
  integers and floats it computes from them. Every exception the interpreter can raise
  on such a value is a constructor of \<open>py_error\<close>, and a computation that may raise
  returns \<open>py_error + 'a\<close>.
\<close>

datatype py_error = AttributeError | TypeError | ValueError | KeyError | IndexError
  | OverflowError | ZeroDivisionError | JSONDecodeError | RequestException

text \<open>
  A Python float is an IEEE binary64 number. A finite one is represented by its exact
  rational value; the sign of zero is not represented (the program never prints or
  divides by a zero).
\<close>

datatype pyfloat = Fin rat | PInf | NInf | NaN

text \<open>
  A JSON object is the association list of its members; \<open>map_of\<close> looks a key up, and
  the order of the list is the insertion order of the Python dict.
\<close>

datatype json = JNull | JBool bool | JInt int | JFloat pyfloat | JStr string
  | JArr "json list" | JObj "(string \<times> json) list"

definition bind_err :: "'e + 'a \<Rightarrow> ('a \<Rightarrow> 'e + 'b) \<Rightarrow> 'e + 'b" where
  "bind_err m f = (case m of Inl e \<Rightarrow> Inl e | Inr x \<Rightarrow> f x)"

subsection \<open>Floating point: correctly rounded binary64\<close>

text \<open>
  \<^verbatim>\<open>a / b\<close> on two Python ints is the binary64 number nearest to the exact quotient
  (ties to even), \<^verbatim>\<open>OverflowError\<close> when that is out of range and
  \<^verbatim>\<open>ZeroDivisionError\<close> when \<^verbatim>\<open>b\<close> is zero. A double is a pair \<open>(m, p)\<close> of a
  mantissa below \<open>2^53\<close> and an exponent \<open>p \<ge> -1074\<close>, of value \<open>m * 2^p\<close>.
\<close>

function bit_length :: "int \<Rightarrow> int" where
  "bit_length n = (if n \<le> 0 then 0 else 1 + bit_length (n div 2))"
  by pat_completeness auto
termination
  by (relation "measure nat") auto

declare bit_length.simps [simp del]

definition pow2 :: "int \<Rightarrow> rat" where
  "pow2 k = (if 0 \<le> k then 2 ^ nat k else 1 / 2 ^ nat (- k))"

text \<open>\<open>scale2 a d k\<close> is the fraction \<open>a / (d * 2^k)\<close> as a pair of integers.\<close>

definition scale2 :: "int \<Rightarrow> int \<Rightarrow> int \<Rightarrow> int \<times> int" where
  "scale2 a d k = (if 0 \<le> k then (a, d * 2 ^ nat k) else (a * 2 ^ nat (- k), d))"

text \<open>The exponent \<open>e\<close> with \<open>2^e \<le> a / d < 2^(e+1)\<close>, for positive \<open>a\<close> and \<open>d\<close>.\<close>

definition floor_log2 :: "int \<Rightarrow> int \<Rightarrow> int" where
  "floor_log2 a d = (let k = bit_length a - bit_length d
                    in case scale2 a d k of (x, y) \<Rightarrow> if y \<le> x then k else k - 1)"

text \<open>The integer nearest to \<open>x / y\<close>, ties to the even one (\<open>0 < y\<close>).\<close>

definition div_half_even :: "int \<Rightarrow> int \<Rightarrow> int" where
  "div_half_even x y = (let q = x div y; r = x mod y
                        in if 2 * r < y then q
                           else if y < 2 * r then q + 1
                           else if even q then q else q + 1)"

definition round_ratio :: "int \<Rightarrow> int \<Rightarrow> int \<times> int" where
  "round_ratio a d = (let p = max (floor_log2 a d - 52) (- 1074)
                     in case scale2 a d p of (x, y) \<Rightarrow> (div_half_even x y, p))"

definition double_overflow :: "int \<times> int \<Rightarrow> bool" where
  "double_overflow mp = (case mp of (m, p) \<Rightarrow> 971 < p \<or> (p = 971 \<and> 2 ^ 53 \<le> m))"

definition double_val :: "int \<times> int \<Rightarrow> rat" where
  "double_val mp = (case mp of (m, p) \<Rightarrow> of_int m * pow2 p)"

definition py_truediv :: "int \<Rightarrow> int \<Rightarrow> py_error + pyfloat" where
  "py_truediv a b =
     (if b = 0 then Inl ZeroDivisionError
      else let mp = round_ratio \<bar>a\<bar> \<bar>b\<bar>
           in if double_overflow mp then Inl OverflowError
              else Inr (Fin (of_int (sgn a * sgn b) * double_val mp)))"

text \<open>\<^verbatim>\<open>float(n)\<close> of an int, as the interpreter converts an int operand of a float.\<close>

definition float_of_int :: "int \<Rightarrow> py_error + pyfloat" where
  "float_of_int n = py_truediv n 1"

text \<open>The binary64 number nearest to a rational; out of range it is an infinity.\<close>

definition round_double :: "rat \<Rightarrow> pyfloat" where
  "round_double q =
     (case quotient_of \<bar>q\<bar> of (n, d) \<Rightarrow>
        let mp = round_ratio n d
        in if double_overflow mp then (if 0 < q then PInf else NInf)
           else Fin (sgn q * double_val mp))"

fun float_mul :: "pyfloat \<Rightarrow> pyfloat \<Rightarrow> pyfloat" where
  "float_mul (Fin x) (Fin y) = round_double (x * y)"
| "float_mul NaN _ = NaN"
| "float_mul _ NaN = NaN"
| "float_mul (Fin x) PInf = (if x = 0 then NaN else if 0 < x then PInf else NInf)"
| "float_mul (Fin x) NInf = (if x = 0 then NaN else if 0 < x then NInf else PInf)"
| "float_mul PInf (Fin y) = (if y = 0 then NaN else if 0 < y then PInf else NInf)"
| "float_mul NInf (Fin y) = (if y = 0 then NaN else if 0 < y then NInf else PInf)"
| "float_mul PInf PInf = PInf"
| "float_mul PInf NInf = NInf"
| "float_mul NInf PInf = NInf"
| "float_mul NInf NInf = PInf"

text \<open>\<^verbatim>\<open>x > 0\<close> for a float \<^verbatim>\<open>x\<close>.\<close>

fun float_pos :: "pyfloat \<Rightarrow> bool" where
  "float_pos (Fin q) = (0 < q)"
| "float_pos PInf = True"
| "float_pos NInf = False"
| "float_pos NaN = False"

definition round_half_even :: "rat \<Rightarrow> int" where
  "round_half_even x = (case quotient_of x of (n, d) \<Rightarrow> div_half_even n d)"

text \<open>\<^verbatim>\<open>round(x)\<close> of a float: the nearest int, ties to even.\<close>

fun py_round :: "pyfloat \<Rightarrow> py_error + int" where
  "py_round (Fin q) = Inr (round_half_even q)"
| "py_round NaN = Inl ValueError"
| "py_round _ = Inl OverflowError"

subsection \<open>Operations on JSON values\<close>

text \<open>Truth value testing (\<^verbatim>\<open>if x:\<close>, \<^verbatim>\<open>not x\<close>).\<close>

fun truthy :: "json \<Rightarrow> bool" where
  "truthy JNull = False"
| "truthy (JBool b) = b"
| "truthy (JInt n) = (n \<noteq> 0)"
| "truthy (JFloat f) = (f \<noteq> Fin 0)"
| "truthy (JStr s) = (s \<noteq> [])"
| "truthy (JArr xs) = (xs \<noteq> [])"
| "truthy (JObj kvs) = (kvs \<noteq> [])"

text \<open>\<^verbatim>\<open>x.get(k, d)\<close>: only a dict has the method.\<close>

fun dict_get :: "json \<Rightarrow> string \<Rightarrow> json \<Rightarrow> py_error + json" where
  "dict_get (JObj kvs) k d = Inr (case map_of kvs k of None \<Rightarrow> d | Some v \<Rightarrow> v)"
| "dict_get _ k d = Inl AttributeError"

text \<open>
  \<^verbatim>\<open>x[k]\<close> with a string \<^verbatim>\<open>k\<close>: \<^verbatim>\<open>KeyError\<close> on a dict without the key,
  \<^verbatim>\<open>TypeError\<close> on everything that is not a dict (a str or list wants an integer
  index, the other values are not subscriptable).
\<close>

fun subscript :: "json \<Rightarrow> string \<Rightarrow> py_error + json" where
  "subscript (JObj kvs) k = (case map_of kvs k of None \<Rightarrow> Inl KeyError | Some v \<Rightarrow> Inr v)"
| "subscript _ k = Inl TypeError"

text \<open>
  \<^verbatim>\<open>for tx in x\<close>: the elements of a list, the one-character strings of a str, the
  keys of a dict; \<^verbatim>\<open>TypeError\<close> on a value that is not iterable.
\<close>

fun py_iter :: "json \<Rightarrow> py_error + json list" where
  "py_iter (JArr xs) = Inr xs"
| "py_iter (JStr s) = Inr (map (\<lambda>c. JStr [c]) s)"
| "py_iter (JObj kvs) = Inr (map (\<lambda>kv. JStr (fst kv)) kvs)"
| "py_iter _ = Inl TypeError"

text \<open>
  \<^verbatim>\<open>x == y\<close>. Booleans, ints and floats compare by numeric value (\<^verbatim>\<open>True == 1\<close>,
  \<^verbatim>\<open>1 == 1.0\<close>, a NaN equals nothing); a str equals only the same str.
\<close>

fun num_of :: "json \<Rightarrow> pyfloat option" where
  "num_of (JBool b) = Some (Fin (if b then 1 else 0))"
| "num_of (JInt n) = Some (Fin (of_int n))"
| "num_of (JFloat f) = Some f"
| "num_of _ = None"

fun py_eq :: "json \<Rightarrow> json \<Rightarrow> bool" where
  "py_eq (JStr a) (JStr b) = (a = b)"
| "py_eq JNull JNull = True"
| "py_eq (JArr xs) (JArr ys) = list_all2 py_eq xs ys"
| "py_eq (JObj a) (JObj b) =
     (set (map fst a) = set (map fst b) \<and>
      list_all (\<lambda>(k, v). case map_of b k of None \<Rightarrow> False | Some w \<Rightarrow> py_eq v w) a)"
| "py_eq x y = (case (num_of x, num_of y) of
                  (Some f, Some g) \<Rightarrow> f = g \<and> f \<noteq> NaN
                | _ \<Rightarrow> False)"

text \<open>\<^verbatim>\<open>k in x\<close> for a string \<^verbatim>\<open>k\<close>: key of a dict, element of a list, substring of a str.\<close>

fun is_infix :: "string \<Rightarrow> string \<Rightarrow> bool" where
  "is_infix k [] = (k = [])"
| "is_infix k (c # cs) = (take (length k) (c # cs) = k \<or> is_infix k cs)"

fun py_contains :: "string \<Rightarrow> json \<Rightarrow> py_error + bool" where
  "py_contains k (JObj kvs) = Inr (map_of kvs k \<noteq> None)"
| "py_contains k (JArr xs) = Inr (list_ex (\<lambda>x. py_eq x (JStr k)) xs)"
| "py_contains k (JStr s) = Inr (is_infix k s)"
| "py_contains k _ = Inl TypeError"

subsection \<open>Parsing and printing integers\<close>

text \<open>
  \<^verbatim>\<open>int(s)\<close> and \<^verbatim>\<open>int(s, 16)\<close> on a str: surrounding ASCII whitespace is skipped,
  one sign is allowed, with base 16 a prefix \<^verbatim>\<open>0x\<close> (and one underscore after it),
  then digits with single underscores between them. Anything else is a
  \<^verbatim>\<open>ValueError\<close>. Strings are ASCII here.
\<close>

definition is_space :: "char \<Rightarrow> bool" where
  "is_space c = (c \<in> set [CHR 0x09, CHR 0x0A, CHR 0x0B, CHR 0x0C, CHR 0x0D, CHR '' ''])"

definition digit_val :: "char \<Rightarrow> int option" where
  "digit_val c = (let n = of_char c :: int
                  in if 48 \<le> n \<and> n \<le> 57 then Some (n - 48)
                     else if 97 \<le> n \<and> n \<le> 122 then Some (n - 87)
                     else if 65 \<le> n \<and> n \<le> 90 then Some (n - 55)
                     else None)"

fun digits_acc :: "int \<Rightarrow> int \<Rightarrow> bool \<Rightarrow> string \<Rightarrow> int option" where
  "digits_acc b acc prev [] = (if prev then Some acc else None)"
| "digits_acc b acc prev (c # cs) =
     (if c = CHR ''_'' then (if prev then digits_acc b acc False cs else None)
      else case digit_val c of
             None \<Rightarrow> None
           | Some d \<Rightarrow> if d < b then digits_acc b (acc * b + d) True cs else None)"

definition strip_sign :: "string \<Rightarrow> bool \<times> string" where
  "strip_sign s = (case s of
       [] \<Rightarrow> (False, [])
     | c # cs \<Rightarrow> if c = CHR ''+'' then (False, cs)
               else if c = CHR ''-'' then (True, cs) else (False, s))"

definition strip_prefix16 :: "string \<Rightarrow> string" where
  "strip_prefix16 s = (case s of
       c # x # rest \<Rightarrow>
         if c = CHR ''0'' \<and> (x = CHR ''x'' \<or> x = CHR ''X'')
         then (case rest of u # r \<Rightarrow> if u = CHR ''_'' then r else rest | [] \<Rightarrow> rest)
         else s
     | _ \<Rightarrow> s)"

definition int_of_str :: "int \<Rightarrow> string \<Rightarrow> py_error + int" where
  "int_of_str base s =
     (case strip_sign (dropWhile is_space s) of (neg, s2) \<Rightarrow>
        let s3 = (if base = 16 then strip_prefix16 s2 else s2);
            s4 = rev (dropWhile is_space (rev s3))
        in case digits_acc base 0 False s4 of
             None \<Rightarrow> Inl ValueError
           | Some n \<Rightarrow> Inr (if neg then - n else n))"

text \<open>\<^verbatim>\<open>int(x)\<close> with one argument.\<close>

fun py_int :: "json \<Rightarrow> py_error + int" where
  "py_int (JInt n) = Inr n"
| "py_int (JBool b) = Inr (if b then 1 else 0)"
| "py_int (JFloat (Fin q)) = Inr (if 0 \<le> q then \<lfloor>q\<rfloor> else \<lceil>q\<rceil>)"
| "py_int (JFloat NaN) = Inl ValueError"
| "py_int (JFloat _) = Inl OverflowError"
| "py_int (JStr s) = int_of_str 10 s"
| "py_int _ = Inl TypeError"

text \<open>\<^verbatim>\<open>int(x, 16)\<close>: with an explicit base only a str is accepted.\<close>

fun py_int16 :: "json \<Rightarrow> py_error + int" where
  "py_int16 (JStr s) = int_of_str 16 s"
| "py_int16 _ = Inl TypeError"

text \<open>\<^verbatim>\<open>str(n)\<close> and \<^verbatim>\<open>hex(n)\<close> of an int.\<close>

definition digit_char :: "int \<Rightarrow> char" where
  "digit_char d = (if d < 10 then char_of (48 + d) else char_of (87 + d))"

function show_nat :: "int \<Rightarrow> int \<Rightarrow> string" where
  "show_nat b n = (if b < 2 \<or> n < b then [digit_char n]
                   else show_nat b (n div b) @ [digit_char (n mod b)])"
  by pat_completeness auto
termination
  by (relation "measure (\<lambda>(b, n). nat n)") (auto simp: int_div_less_self)

declare show_nat.simps [simp del]

definition py_str_int :: "int \<Rightarrow> string" where
  "py_str_int n = (if n < 0 then CHR ''-'' # show_nat 10 (- n) else show_nat 10 n)"

definition py_hex :: "int \<Rightarrow> string" where
  "py_hex n = (if n < 0 then ''-0x'' @ show_nat 16 (- n) else ''0x'' @ show_nat 16 n)"

text \<open>\<^verbatim>\<open>s.lower()\<close> on an ASCII string.\<close>

definition lower_char :: "char \<Rightarrow> char" where
  "lower_char c = (let n = of_char c :: int in if 65 \<le> n \<and> n \<le> 90 then char_of (n + 32) else c)"

definition py_lower :: "string \<Rightarrow> string" where
  "py_lower s = map lower_char s"

subsection \<open>Dates\<close>

text \<open>
  \<^verbatim>\<open>datetime.utcfromtimestamp(t)\<close>: the civil date (proleptic Gregorian calendar) of
  the day \<open>t div 86400\<close> after 1970-01-01. The years are walked one at a time from 1970,
  then the months of the year found. Outside the years 1 to 9999 the call raises
  (the model makes every such failure a \<^verbatim>\<open>ValueError\<close>).
\<close>

definition is_leap :: "int \<Rightarrow> bool" where
  "is_leap y = (y mod 4 = 0 \<and> (y mod 100 \<noteq> 0 \<or> y mod 400 = 0))"

definition days_in_year :: "int \<Rightarrow> int" where
  "days_in_year y = (if is_leap y then 366 else 365)"

definition days_in_month :: "int \<Rightarrow> int \<Rightarrow> int" where
  "days_in_month y m = (if m = 2 then (if is_leap y then 29 else 28)
                        else if m = 4 \<or> m = 6 \<or> m = 9 \<or> m = 11 then 30 else 31)"

function year_fwd :: "int \<Rightarrow> int \<Rightarrow> int \<times> int" where
  "year_fwd y n = (if n < days_in_year y then (y, n)
                   else year_fwd (y + 1) (n - days_in_year y))"
  by pat_completeness auto
termination
  by (relation "measure (\<lambda>(y, n). nat n)") (auto simp: days_in_year_def split: if_splits)

function year_bwd :: "int \<Rightarrow> int \<Rightarrow> int \<times> int" where
  "year_bwd y n = (if 0 \<le> n then (y, n)
                   else year_bwd (y - 1) (n + days_in_year (y - 1)))"
  by pat_completeness auto
termination
  by (relation "measure (\<lambda>(y, n). nat (- n))") (auto simp: days_in_year_def split: if_splits)

function month_fwd :: "int \<Rightarrow> int \<Rightarrow> int \<Rightarrow> int \<times> int" where
  "month_fwd y m n = (if 12 \<le> m \<or> n < days_in_month y m then (m, n + 1)
                      else month_fwd y (m + 1) (n - days_in_month y m))"
  by pat_completeness auto
termination
  by (relation "measure (\<lambda>(y, m, n). nat (12 - m))") auto

declare year_fwd.simps [simp del] year_bwd.simps [simp del] month_fwd.simps [simp del]

definition civil_of_days :: "int \<Rightarrow> int \<times> int \<times> int" where
  "civil_of_days n =
     (case (if 0 \<le> n then year_fwd 1970 n else year_bwd 1970 n) of (y, doy) \<Rightarrow>
        case month_fwd y 1 doy of (m, d) \<Rightarrow> (y, m, d))"

definition utcfromtimestamp :: "int \<Rightarrow> py_error + int \<times> int \<times> int" where
  "utcfromtimestamp t =
     (case civil_of_days (t div 86400) of (y, m, d) \<Rightarrow>
        if 1 \<le> y \<and> y \<le> 9999 then Inr (y, m, d) else Inl ValueError)"

text \<open>
  \<^verbatim>\<open>strftime('%Y-%m-%d')\<close>: month and day are padded to two digits; the year is padded
  to four digits from 1000 on (below that the C library prints it unpadded).
\<close>

definition pad2 :: "int \<Rightarrow> string" where
  "pad2 n = (if n < 10 then CHR ''0'' # py_str_int n else py_str_int n)"

definition strftime_ymd :: "int \<times> int \<times> int \<Rightarrow> string" where
  "strftime_ymd ymd = (case ymd of (y, m, d) \<Rightarrow> py_str_int y @ ''-'' @ pad2 m @ ''-'' @ pad2 d)"

text \<open>
  \<^verbatim>\<open>datetime.strptime(date, "%Y-%m-%d")\<close>: four digits, a month written \<^verbatim>\<open>1\<close> to
  \<^verbatim>\<open>12\<close> or \<^verbatim>\<open>01\<close> to \<^verbatim>\<open>09\<close>, a day written \<^verbatim>\<open>1\<close> to \<^verbatim>\<open>31\<close>, \<^verbatim>\<open>01\<close> to
  \<^verbatim>\<open>09\<close> or with a leading blank, separated by dashes; a string of another shape or
  a date that does not exist is a \<^verbatim>\<open>ValueError\<close>.
\<close>

definition is_digit :: "char \<Rightarrow> bool" where
  "is_digit c = (48 \<le> (of_char c :: int) \<and> (of_char c :: int) \<le> 57)"

definition dig :: "char \<Rightarrow> int" where
  "dig c = of_char c - 48"

fun split_dash :: "string \<Rightarrow> string list" where
  "split_dash [] = [[]]"
| "split_dash (c # cs) = (if c = CHR ''-'' then [] # split_dash cs
                          else (case split_dash cs of p # ps \<Rightarrow> (c # p) # ps | [] \<Rightarrow> [[c]]))"

definition parse_year :: "string \<Rightarrow> int option" where
  "parse_year s = (case s of
       [a, b, c, d] \<Rightarrow> if is_digit a \<and> is_digit b \<and> is_digit c \<and> is_digit d
                       then Some (1000 * dig a + 100 * dig b + 10 * dig c + dig d) else None
     | _ \<Rightarrow> None)"

definition parse_month :: "string \<Rightarrow> int option" where
  "parse_month s = (case s of
       [a] \<Rightarrow> if is_digit a \<and> a \<noteq> CHR ''0'' then Some (dig a) else None
     | [a, b] \<Rightarrow> if a = CHR ''1'' \<and> b \<in> set ''012'' then Some (10 + dig b)
                 else if a = CHR ''0'' \<and> is_digit b \<and> b \<noteq> CHR ''0'' then Some (dig b)
                 else None
     | _ \<Rightarrow> None)"

definition parse_day :: "string \<Rightarrow> int option" where
  "parse_day s = (case s of
       [a] \<Rightarrow> if is_digit a \<and> a \<noteq> CHR ''0'' then Some (dig a) else None
     | [a, b] \<Rightarrow> if a = CHR ''3'' \<and> b \<in> set ''01'' then Some (30 + dig b)
                 else if a \<in> set ''12'' \<and> is_digit b then Some (10 * dig a + dig b)
                 else if a \<in> set ''0 '' \<and> is_digit b \<and> b \<noteq> CHR ''0'' then Some (dig b)
                 else None
     | _ \<Rightarrow> None)"

definition strptime_ymd :: "string \<Rightarrow> py_error + int \<times> int \<times> int" where
  "strptime_ymd s = (case split_dash s of
       [ys, ms, ds] \<Rightarrow>
         (case (parse_year ys, parse_month ms, parse_day ds) of
            (Some y, Some m, Some d) \<Rightarrow>
              if 1 \<le> y \<and> d \<le> days_in_month y m then Inr (y, m, d) else Inl ValueError
          | _ \<Rightarrow> Inl ValueError)
     | _ \<Rightarrow> Inl ValueError)"

section \<open>Configuration and the outside world\<close>

text \<open>
  The settings \<^verbatim>\<open>run.py\<close> reads at start-up: the three API keys from the environment
  (\<^verbatim>\<open>os.getenv\<close> gives \<^verbatim>\<open>None\<close> for a missing one) and the lists of
  \<^verbatim>\<open>config.yaml\<close>. \<open>BLOCK_NUMBERS\<close> holds the strings \<^verbatim>\<open>str(num)\<close> the script
  makes of the configured numbers. \<^verbatim>\<open>RATE_LIMIT_DELAY\<close> only sets how long
  \<^verbatim>\<open>sleep\<close> waits after each request and has no part in any value computed.
\<close>

record config =
  ETHERSCAN_API_KEY :: "string option"
  INFURA_API_KEY :: "string option"
  CRYPTOCOMPARE_API_KEY :: "string option"
  WALLET_ADDRESSES :: "string list"
  BLOCK_NUMBERS :: "string list"
  EXCLUDE_TOKEN_CONTRACTS :: "string list"

definition ETHERSCAN_API_ENDPOINT :: string where
  "ETHERSCAN_API_ENDPOINT = ''https://api.etherscan.io/api''"

definition INFURA_API_ENDPOINT :: string where
  "INFURA_API_ENDPOINT = ''https://mainnet.infura.io/v3/''"

definition CRYPTOCOMPARE_API_ENDPOINT :: string where
  "CRYPTOCOMPARE_API_ENDPOINT = ''https://min-api.cryptocompare.com/data/v2/histoday''"

text \<open>
  A request is \<^verbatim>\<open>requests.get(url, params=..., headers=...)\<close> or
  \<^verbatim>\<open>requests.post(url, headers=..., json=...)\<close>. The query string that
  \<^verbatim>\<open>get_token_price_on_date_cryptocompare\<close> formats into its URL is kept as the
  parameter list it spells out.
\<close>

datatype request =
    Get string "(string \<times> json) list" "(string \<times> string) list"
  | Post string "(string \<times> string) list" json

text \<open>A response: its status code and its body as \<^verbatim>\<open>response.json()\<close> decodes it
  (\<open>None\<close> when the body is not JSON and decoding raises).\<close>

record response =
  status_code :: int
  body :: "json option"

definition response_json :: "response \<Rightarrow> py_error + json" where
  "response_json r = (case body r of None \<Rightarrow> Inl JSONDecodeError | Some j \<Rightarrow> Inr j)"

text \<open>
  The three services answer requests: \<open>http\<close> gives the response to a request, or the
  exception \<^verbatim>\<open>requests\<close> raises when there is none. \<open>mktime\<close> is the platform's
  local-time clock, as \<^verbatim>\<open>dt.timestamp()\<close> reads it for a naive \<^verbatim>\<open>datetime\<close>: the
  timestamp of local midnight of a civil date, or the exception raised for a date the
  platform cannot convert (the first day of year 1, for one: the conversion looks a
  day back, into a year 0 that \<^verbatim>\<open>datetime\<close> does not have).
\<close>

record env =
  http :: "request \<Rightarrow> py_error + response"
  mktime :: "int \<Rightarrow> int \<Rightarrow> int \<Rightarrow> py_error + int"

definition opt_json :: "string option \<Rightarrow> json" where
  "opt_json k = (case k of None \<Rightarrow> JNull | Some s \<Rightarrow> JStr s)"

definition opt_str :: "string option \<Rightarrow> string" where
  "opt_str k = (case k of None \<Rightarrow> ''None'' | Some s \<Rightarrow> s)"

text \<open>What the script prints, and the rows it writes to \<^verbatim>\<open>balances.csv\<close>.\<close>

datatype message =
    ProcessingAddress string
  | FetchingEthBalance string
  | ErrorFetchingEthBalance string string
  | SkippingSpamTokens json
  | ReconstructingBalance json string
  | ErrorFetchingPrice json string
  | CompletedProcessing

record row =
  Address :: string
  Block_Number :: string
  Balance :: json
  Token_Ticker :: json
  Token_Contract :: json
  USD_Value :: json

datatype event = Print message | WriteRow row

section \<open>The functions of run.py\<close>

subsection \<open>block_to_date\<close>

definition block_request :: "config \<Rightarrow> string \<Rightarrow> request" where
  "block_request cfg block_number =
     Get ETHERSCAN_API_ENDPOINT
       [(''module'', JStr ''block''),
        (''action'', JStr ''getblockreward''),
        (''blockno'', JStr block_number),
        (''apikey'', opt_json (ETHERSCAN_API_KEY cfg))] []"

definition block_to_date :: "config \<Rightarrow> env \<Rightarrow> string \<Rightarrow> py_error + string" where
  "block_to_date cfg e block_number =
     bind_err (http e (block_request cfg block_number)) (\<lambda>response.
     bind_err (response_json response) (\<lambda>j.
     bind_err (dict_get j ''result'' (JObj [])) (\<lambda>result.
     bind_err (dict_get result ''timeStamp'' (JInt 0)) (\<lambda>timestamp.
     bind_err (py_int timestamp) (\<lambda>t.
     bind_err (utcfromtimestamp t) (\<lambda>ymd.
     Inr (strftime_ymd ymd)))))))"

subsection \<open>get_eth_balance\<close>

definition eth_balance_request :: "config \<Rightarrow> string \<Rightarrow> int \<Rightarrow> request" where
  "eth_balance_request cfg address n =
     Post (INFURA_API_ENDPOINT @ opt_str (INFURA_API_KEY cfg))
       [(''Content-Type'', ''application/json'')]
       (JObj [(''jsonrpc'', JStr ''2.0''),
              (''id'', JInt 1),
              (''method'', JStr ''eth_getBalance''),
              (''params'', JArr [JStr address, JStr (py_hex n)])])"

definition get_eth_balance ::
  "config \<Rightarrow> env \<Rightarrow> string \<Rightarrow> string \<Rightarrow> (py_error + json) \<times> message list" where
  "get_eth_balance cfg e address block_number =
     (case bind_err (int_of_str 10 block_number) (\<lambda>n.
           bind_err (http e (eth_balance_request cfg address n)) (\<lambda>response.
           bind_err (response_json response) (\<lambda>j.
           dict_get j ''result'' JNull))) of
        Inl err \<Rightarrow> (Inl err, [])
      | Inr result \<Rightarrow>
          if truthy result
          then (bind_err (py_int16 result) (\<lambda>wei.
                bind_err (py_truediv wei (10 ^ 18)) (\<lambda>f. Inr (JFloat f))), [])
          else (Inr (JInt 0), [ErrorFetchingEthBalance block_number address]))"

text \<open>
  \<^verbatim>\<open>x * y\<close>: ints (and booleans) multiply exactly, a float operand makes the product
  a float, an int times a str or list repeats the sequence, anything else is a
  \<^verbatim>\<open>TypeError\<close>.
\<close>

fun as_int :: "json \<Rightarrow> int option" where
  "as_int (JBool b) = Some (if b then 1 else 0)"
| "as_int (JInt n) = Some n"
| "as_int _ = None"

definition seq_repeat :: "int \<Rightarrow> 'a list \<Rightarrow> 'a list" where
  "seq_repeat n xs = concat (replicate (nat n) xs)"

definition int_times :: "int \<Rightarrow> json \<Rightarrow> py_error + json" where
  "int_times a y = (case y of
       JFloat g \<Rightarrow> bind_err (float_of_int a) (\<lambda>f. Inr (JFloat (float_mul f g)))
     | JStr s \<Rightarrow> Inr (JStr (seq_repeat a s))
     | JArr l \<Rightarrow> Inr (JArr (seq_repeat a l))
     | _ \<Rightarrow> Inl TypeError)"

definition py_mul :: "json \<Rightarrow> json \<Rightarrow> py_error + json" where
  "py_mul x y = (case (as_int x, as_int y) of
       (Some a, Some b) \<Rightarrow> Inr (JInt (a * b))
     | (Some a, None) \<Rightarrow> int_times a y
     | (None, Some b) \<Rightarrow> int_times b x
     | (None, None) \<Rightarrow> (case (x, y) of
          (JFloat f, JFloat g) \<Rightarrow> Inr (JFloat (float_mul f g))
        | _ \<Rightarrow> Inl TypeError))"

text \<open>A \<^verbatim>\<open>for\<close> loop whose body may raise: the first exception ends it.\<close>

fun for_each :: "('s \<Rightarrow> 'a \<Rightarrow> py_error + 's) \<Rightarrow> 's \<Rightarrow> 'a list \<Rightarrow> py_error + 's" where
  "for_each f s [] = Inr s"
| "for_each f s (x # xs) = (case f s x of Inl err \<Rightarrow> Inl err | Inr s' \<Rightarrow> for_each f s' xs)"

subsection \<open>get_erc20_tokens\<close>

text \<open>
  \<^verbatim>\<open>tokens[k] = v\<close> on a dict kept in insertion order: an equal key keeps its place
  and takes the new value. A list or dict cannot be a key.
\<close>

fun hashable :: "json \<Rightarrow> bool" where
  "hashable (JArr xs) = False"
| "hashable (JObj kvs) = False"
| "hashable _ = True"

fun dict_set :: "(json \<times> json) list \<Rightarrow> json \<Rightarrow> json \<Rightarrow> (json \<times> json) list" where
  "dict_set [] k v = [(k, v)]"
| "dict_set (kv # kvs) k v = (if py_eq (fst kv) k then (fst kv, v) # kvs
                              else kv # dict_set kvs k v)"

definition add_token :: "(json \<times> json) list \<Rightarrow> json \<Rightarrow> py_error + (json \<times> json) list" where
  "add_token tokens tx =
     bind_err (subscript tx ''tokenSymbol'') (\<lambda>sym.
     bind_err (subscript tx ''contractAddress'') (\<lambda>contract.
     if hashable contract then Inr (dict_set tokens contract sym) else Inl TypeError))"

definition tokentx_all_request :: "config \<Rightarrow> string \<Rightarrow> request" where
  "tokentx_all_request cfg address =
     Get ETHERSCAN_API_ENDPOINT
       [(''module'', JStr ''account''),
        (''action'', JStr ''tokentx''),
        (''address'', JStr address),
        (''startblock'', JInt 0),
        (''endblock'', JInt 99999999),
        (''sort'', JStr ''asc''),
        (''apikey'', opt_json (ETHERSCAN_API_KEY cfg))] []"

definition get_erc20_tokens ::
  "config \<Rightarrow> env \<Rightarrow> string \<Rightarrow> py_error + (json \<times> json) list" where
  "get_erc20_tokens cfg e address =
     bind_err (http e (tokentx_all_request cfg address)) (\<lambda>response.
     if status_code response = 200
     then bind_err (response_json response) (\<lambda>j.
          bind_err (dict_get j ''result'' (JArr [])) (\<lambda>transactions.
          bind_err (py_iter transactions) (\<lambda>txs.
          for_each add_token [] txs)))
     else Inr [])"

subsection \<open>reconstruct_erc20_balance\<close>

definition tokenbalance_request :: "config \<Rightarrow> string \<Rightarrow> json \<Rightarrow> request" where
  "tokenbalance_request cfg address contract =
     Get ETHERSCAN_API_ENDPOINT
       [(''module'', JStr ''account''),
        (''action'', JStr ''tokenbalance''),
        (''contractaddress'', contract),
        (''address'', JStr address),
        (''tag'', JStr ''latest''),
        (''apikey'', opt_json (ETHERSCAN_API_KEY cfg))] []"

definition history_request :: "config \<Rightarrow> string \<Rightarrow> string \<Rightarrow> string \<Rightarrow> request" where
  "history_request cfg action address block_number =
     Get ETHERSCAN_API_ENDPOINT
       [(''module'', JStr ''account''),
        (''action'', JStr action),
        (''address'', JStr address),
        (''startblock'', JInt 0),
        (''endblock'', JStr block_number),
        (''sort'', JStr ''desc''),
        (''apikey'', opt_json (ETHERSCAN_API_KEY cfg))] []"

text \<open>The \<^verbatim>\<open>if tx['to'] == address.lower(): ... elif tx['from'] == address.lower(): ...\<close>
  shared by the two loops.\<close>

definition undo_transfer :: "string \<Rightarrow> int \<Rightarrow> json \<Rightarrow> py_error + int" where
  "undo_transfer address current_balance tx =
     bind_err (subscript tx ''to'') (\<lambda>to.
     if py_eq to (JStr (py_lower address))
     then bind_err (subscript tx ''value'') (\<lambda>v.
          bind_err (py_int v) (\<lambda>n. Inr (current_balance - n)))
     else bind_err (subscript tx ''from'') (\<lambda>from.
          if py_eq from (JStr (py_lower address))
          then bind_err (subscript tx ''value'') (\<lambda>v.
               bind_err (py_int v) (\<lambda>n. Inr (current_balance + n)))
          else Inr current_balance))"

definition token_step :: "string \<Rightarrow> json \<Rightarrow> int \<Rightarrow> json \<Rightarrow> py_error + int" where
  "token_step address symbol current_balance tx =
     bind_err (subscript tx ''tokenSymbol'') (\<lambda>s.
     if py_eq s symbol then undo_transfer address current_balance tx
     else Inr current_balance)"

definition internal_step :: "string \<Rightarrow> json \<Rightarrow> int \<Rightarrow> json \<Rightarrow> py_error + int" where
  "internal_step address contract current_balance tx =
     bind_err (py_contains ''contractAddress'' tx) (\<lambda>has.
     bind_err (if has then bind_err (subscript tx ''contractAddress'') (\<lambda>c. Inr (py_eq c contract))
               else Inr False) (\<lambda>matches.
     if matches
     then bind_err (subscript tx ''type'') (\<lambda>ty.
          if py_eq ty (JStr ''call'') then undo_transfer address current_balance tx
          else Inr current_balance)
     else Inr current_balance))"

definition fetch_result :: "env \<Rightarrow> request \<Rightarrow> json \<Rightarrow> py_error + json" where
  "fetch_result e req dflt =
     bind_err (http e req) (\<lambda>response.
     bind_err (response_json response) (\<lambda>j.
     dict_get j ''result'' dflt))"

definition reconstruct_erc20_balance ::
  "config \<Rightarrow> env \<Rightarrow> string \<Rightarrow> json \<Rightarrow> json \<Rightarrow> string \<Rightarrow> py_error + pyfloat" where
  "reconstruct_erc20_balance cfg e address contract symbol block_number =
     bind_err (fetch_result e (tokenbalance_request cfg address contract) (JStr ''0'')) (\<lambda>r.
     bind_err (py_int r) (\<lambda>current_balance.
     bind_err (fetch_result e (history_request cfg ''tokentx'' address block_number) (JArr []))
       (\<lambda>token_transfers.
     bind_err (fetch_result e (history_request cfg ''txlistinternal'' address block_number) (JArr []))
       (\<lambda>internal_transfers.
     bind_err (py_iter token_transfers) (\<lambda>tts.
     bind_err (for_each (token_step address symbol) current_balance tts) (\<lambda>balance1.
     bind_err (py_iter internal_transfers) (\<lambda>its.
     bind_err (for_each (internal_step address contract) balance1 its) (\<lambda>balance2.
     py_truediv balance2 (10 ^ 18)))))))))"

subsection \<open>get_token_price_on_date_cryptocompare\<close>

text \<open>\<^verbatim>\<open>data[0]\<close>.\<close>

fun first_item :: "json \<Rightarrow> py_error + json" where
  "first_item (JArr (x # xs)) = Inr x"
| "first_item (JArr []) = Inl IndexError"
| "first_item (JStr (c # cs)) = Inr (JStr [c])"
| "first_item (JStr []) = Inl IndexError"
| "first_item (JObj kvs) = Inl KeyError"
| "first_item _ = Inl TypeError"

definition price_request :: "config \<Rightarrow> json \<Rightarrow> int \<Rightarrow> request" where
  "price_request cfg token_symbol timestamp =
     Get CRYPTOCOMPARE_API_ENDPOINT
       [(''fsym'', token_symbol),
        (''tsym'', JStr ''USD''),
        (''limit'', JInt 1),
        (''toTs'', JInt timestamp)]
       [(''Authorization'', ''Apikey '' @ opt_str (CRYPTOCOMPARE_API_KEY cfg))]"

definition get_token_price_on_date_cryptocompare ::
  "config \<Rightarrow> env \<Rightarrow> json \<Rightarrow> string \<Rightarrow> (py_error + json) \<times> message list" where
  "get_token_price_on_date_cryptocompare cfg e token_symbol date =
     (case bind_err (strptime_ymd date) (\<lambda>ymd. case ymd of (y, m, d) \<Rightarrow>
           bind_err (mktime e y m d) (\<lambda>timestamp.
           bind_err (http e (price_request cfg token_symbol timestamp)) (\<lambda>response.
           if status_code response = 200
           then bind_err (response_json response) (\<lambda>j.
                bind_err (dict_get j ''Data'' (JObj [])) (\<lambda>d1.
                bind_err (dict_get d1 ''Data'' (JArr [])) (\<lambda>data.
                if truthy data
                then bind_err (first_item data) (\<lambda>item.
                     bind_err (dict_get item ''close'' JNull) (\<lambda>close. Inr (Some close)))
                else Inr None)))
           else Inr None))) of
        Inl err \<Rightarrow> (Inl err, [])
      | Inr (Some close) \<Rightarrow> (Inr close, [])
      | Inr None \<Rightarrow> (Inr JNull, [ErrorFetchingPrice token_symbol date]))"

subsection \<open>main\<close>

text \<open>
  A part of \<^verbatim>\<open>main\<close> yields what it printed and wrote, in order, and the exception
  that ended it, if any. Rows written before an exception stay in the file.
\<close>

fun run_all :: "('a \<Rightarrow> event list \<times> py_error option) \<Rightarrow> 'a list \<Rightarrow> event list \<times> py_error option" where
  "run_all f [] = ([], None)"
| "run_all f (x # xs) = (case f x of
       (evs, Some err) \<Rightarrow> (evs, Some err)
     | (evs, None) \<Rightarrow> (case run_all f xs of (evs', r) \<Rightarrow> (evs @ evs', r)))"

text \<open>\<^verbatim>\<open>if not usd_price: usd_price = 0\<close>\<close>

definition price_or_zero :: "json \<Rightarrow> json" where
  "price_or_zero usd_price = (if \<not> truthy usd_price then JInt 0 else usd_price)"

text \<open>The body of \<^verbatim>\<open>for contract, symbol in erc20_tokens.items()\<close>.\<close>

definition token_rows ::
  "config \<Rightarrow> env \<Rightarrow> string \<Rightarrow> string \<Rightarrow> string \<Rightarrow> json \<times> json \<Rightarrow> event list \<times> py_error option" where
  "token_rows cfg e address block_number date item = (case item of (contract, symbol) \<Rightarrow>
     if contract \<in> set (map JStr (EXCLUDE_TOKEN_CONTRACTS cfg))
     then ([Print (SkippingSpamTokens symbol)], None)
     else case reconstruct_erc20_balance cfg e address contract symbol block_number of
        Inl err \<Rightarrow> ([Print (ReconstructingBalance symbol block_number)], Some err)
      | Inr reconstructed_balance \<Rightarrow>
         (case get_token_price_on_date_cryptocompare cfg e symbol date of (res, msgs) \<Rightarrow>
            let printed = Print (ReconstructingBalance symbol block_number) # map Print msgs
            in case bind_err res (\<lambda>usd_price.
                      py_mul (JFloat reconstructed_balance) (price_or_zero usd_price)) of
                 Inl err \<Rightarrow> (printed, Some err)
               | Inr usd_value \<Rightarrow>
                   if float_pos reconstructed_balance
                   then (printed @ [WriteRow \<lparr>Address = address, Block_Number = block_number,
                                             Balance = JFloat reconstructed_balance,
                                             Token_Ticker = symbol, Token_Contract = contract,
                                             USD_Value = usd_value\<rparr>], None)
                   else (printed, None)))"

text \<open>
  The body of \<^verbatim>\<open>for block_number in BLOCK_NUMBERS\<close>. Its first half resolves the
  date and writes the ETH row; it hands the date to the second half, the loop over
  the tokens that \<^verbatim>\<open>get_erc20_tokens(address)\<close> finds.
\<close>

definition eth_row ::
  "config \<Rightarrow> env \<Rightarrow> string \<Rightarrow> string \<Rightarrow> event list \<times> (py_error + string)" where
  "eth_row cfg e address block_number =
     (case block_to_date cfg e block_number of
        Inl err \<Rightarrow> ([], Inl err)
      | Inr date \<Rightarrow>
         (case get_eth_balance cfg e address block_number of (res1, msgs1) \<Rightarrow>
            let printed1 = Print (FetchingEthBalance block_number) # map Print msgs1
            in case res1 of
                 Inl err \<Rightarrow> (printed1, Inl err)
               | Inr eth_balance \<Rightarrow>
                  (case get_token_price_on_date_cryptocompare cfg e (JStr ''ETH'') date of
                     (res2, msgs2) \<Rightarrow>
                       let printed2 = printed1 @ map Print msgs2
                       in case bind_err res2 (\<lambda>eth_usd_price.
                                 py_mul eth_balance (price_or_zero eth_usd_price)) of
                            Inl err \<Rightarrow> (printed2, Inl err)
                          | Inr eth_usd_value \<Rightarrow>
                             (printed2 @
                                [WriteRow \<lparr>Address = address, Block_Number = block_number,
                                           Balance = eth_balance,
                                           Token_Ticker = JStr ''ETH'',
                                           Token_Contract = JStr ''ETH'',
                                           USD_Value = eth_usd_value\<rparr>], Inr date))))"

definition block_rows ::
  "config \<Rightarrow> env \<Rightarrow> string \<Rightarrow> string \<Rightarrow> event list \<times> py_error option" where
  "block_rows cfg e address block_number =
     (case eth_row cfg e address block_number of
        (written, Inl err) \<Rightarrow> (written, Some err)
      | (written, Inr date) \<Rightarrow>
         (case get_erc20_tokens cfg e address of
            Inl err \<Rightarrow> (written, Some err)
          | Inr erc20_tokens \<Rightarrow>
             (case run_all (token_rows cfg e address block_number date) erc20_tokens of
                (evs, r) \<Rightarrow> (written @ evs, r))))"

text \<open>The body of \<^verbatim>\<open>for address in WALLET_ADDRESSES\<close>.\<close>

definition address_rows :: "config \<Rightarrow> env \<Rightarrow> string \<Rightarrow> event list \<times> py_error option" where
  "address_rows cfg e address =
     (case run_all (block_rows cfg e address) (BLOCK_NUMBERS cfg) of
        (evs, r) \<Rightarrow> (Print (ProcessingAddress address) # evs, r))"

definition main :: "config \<Rightarrow> env \<Rightarrow> event list \<times> py_error option" where
  "main cfg e =
     (case run_all (address_rows cfg e) (WALLET_ADDRESSES cfg) of
        (evs, Some err) \<Rightarrow> (evs, Some err)
      | (evs, None) \<Rightarrow> (evs @ [Print CompletedProcessing], None))"

text \<open>The rows of \<^verbatim>\<open>balances.csv\<close> after the header, in the order written.\<close>

fun rows_of :: "event list \<Rightarrow> row list" where
  "rows_of [] = []"
| "rows_of (Print m # evs) = rows_of evs"
| "rows_of (WriteRow r # evs) = r # rows_of evs"

section \<open>The reconstruction in the words of the specification\<close>

text \<open>
  The fields of a record, read without raising, and the tests the specification
  names: a record is incoming when its receiver is the (lower-cased) queried address,
  outgoing when its sender is; a token transfer matches on its symbol, an internal
  transfer on its contract and the type \<^verbatim>\<open>call\<close>.
\<close>

definition field :: "json \<Rightarrow> string \<Rightarrow> json" where
  "field tx k = (case subscript tx k of Inr v \<Rightarrow> v | Inl err \<Rightarrow> JNull)"

definition amount :: "json \<Rightarrow> int" where
  "amount tx = (case py_int (field tx ''value'') of Inr n \<Rightarrow> n | Inl err \<Rightarrow> 0)"

definition is_receiver :: "string \<Rightarrow> json \<Rightarrow> bool" where
  "is_receiver address tx = (field tx ''to'' = JStr (py_lower address))"

definition is_sender :: "string \<Rightarrow> json \<Rightarrow> bool" where
  "is_sender address tx = (field tx ''from'' = JStr (py_lower address))"

definition token_matches :: "json \<Rightarrow> json \<Rightarrow> bool" where
  "token_matches symbol tx = py_eq (field tx ''tokenSymbol'') symbol"

definition internal_matches :: "json \<Rightarrow> json \<Rightarrow> bool" where
  "internal_matches contract tx =
     (py_contains ''contractAddress'' tx = Inr True
      \<and> py_eq (field tx ''contractAddress'') contract
      \<and> field tx ''type'' = JStr ''call'')"

text \<open>
  A transfer record as the explorer lists it: an object with the members
  \<^verbatim>\<open>from\<close>, \<^verbatim>\<open>to\<close> and \<^verbatim>\<open>value\<close>, the value one that \<^verbatim>\<open>int\<close> accepts. A
  token-transfer record also has \<^verbatim>\<open>tokenSymbol\<close>, an internal-transfer record
  \<^verbatim>\<open>type\<close> (its \<^verbatim>\<open>contractAddress\<close> is optional).
\<close>

definition transfer_record :: "json \<Rightarrow> bool" where
  "transfer_record tx = (case tx of
       JObj kvs \<Rightarrow> map_of kvs ''to'' \<noteq> None \<and> map_of kvs ''from'' \<noteq> None
                   \<and> (case map_of kvs ''value'' of
                         None \<Rightarrow> False
                       | Some v \<Rightarrow> (case py_int v of Inr n \<Rightarrow> True | Inl err \<Rightarrow> False))
     | _ \<Rightarrow> False)"

definition token_record :: "json \<Rightarrow> bool" where
  "token_record tx = (transfer_record tx \<and> subscript tx ''tokenSymbol'' \<noteq> Inl KeyError)"

definition internal_record :: "json \<Rightarrow> bool" where
  "internal_record tx = (transfer_record tx \<and> subscript tx ''type'' \<noteq> Inl KeyError)"

text \<open>
  The matching records, and the two sums: \<open>claimed_balance\<close> adds every matching
  record whose sender is the address, \<open>undone_balance\<close> only those whose receiver
  is not the address as well.
\<close>

definition matching :: "json \<Rightarrow> json \<Rightarrow> json list \<Rightarrow> json list \<Rightarrow> json list" where
  "matching symbol contract token_transfers internal_transfers =
     filter (token_matches symbol) token_transfers
     @ filter (internal_matches contract) internal_transfers"

definition claimed_balance :: "int \<Rightarrow> string \<Rightarrow> json list \<Rightarrow> int" where
  "claimed_balance current_balance address records =
     current_balance
     - sum_list (map amount (filter (is_receiver address) records))
     + sum_list (map amount (filter (is_sender address) records))"

definition undone_balance :: "int \<Rightarrow> string \<Rightarrow> json list \<Rightarrow> int" where
  "undone_balance current_balance address records =
     current_balance
     - sum_list (map amount (filter (is_receiver address) records))
     + sum_list (map amount (filter (\<lambda>tx. is_sender address tx \<and> \<not> is_receiver address tx) records))"

text \<open>
  Token discovery in the words of the specification: the transfer records are folded
  into a mapping from contract to symbol, a later record of a contract replacing the
  symbol of an earlier one. A record as the explorer lists it has a
  \<^verbatim>\<open>contractAddress\<close> that is a string, and a \<^verbatim>\<open>tokenSymbol\<close>.
\<close>

fun is_str :: "json \<Rightarrow> bool" where
  "is_str (JStr s) = True"
| "is_str _ = False"

definition discovery_record :: "json \<Rightarrow> bool" where
  "discovery_record tx =
     (is_str (field tx ''contractAddress'')
      \<and> (case subscript tx ''tokenSymbol'' of Inr v \<Rightarrow> True | Inl err \<Rightarrow> False))"

definition discovered :: "json list \<Rightarrow> json \<Rightarrow> json option" where
  "discovered txs =
     foldl (\<lambda>tokens tx. tokens(field tx ''contractAddress'' \<mapsto> field tx ''tokenSymbol''))
       Map.empty txs"

section \<open>Example settings and responses\<close>

definition example_config :: config where
  "example_config = \<lparr>ETHERSCAN_API_KEY = Some ''k1'', INFURA_API_KEY = Some ''k2'',
     CRYPTOCOMPARE_API_KEY = Some ''k3'', WALLET_ADDRESSES = [''0xAb''],
     BLOCK_NUMBERS = [''100''], EXCLUDE_TOKEN_CONTRACTS = []\<rparr>"

text \<open>A JSON-RPC error answer: it has an \<^verbatim>\<open>error\<close> member and no \<^verbatim>\<open>result\<close>.\<close>

definition rpc_error_members :: "(string \<times> json) list" where
  "rpc_error_members =
     [(''jsonrpc'', JStr ''2.0''), (''id'', JInt 1),
      (''error'', JObj [(''code'', JInt (- 32602)), (''message'', JStr ''invalid params'')])]"

definition rpc_error_response :: response where
  "rpc_error_response = \<lparr>status_code = 200, body = Some (JObj rpc_error_members)\<rparr>"

definition rpc_error_env :: env where
  "rpc_error_env = \<lparr>http = (\<lambda>req. Inr rpc_error_response), mktime = (\<lambda>y m d. Inr 0)\<rparr>"

text \<open>A world in which every request is answered by an empty JSON object.\<close>

definition empty_env :: env where
  "empty_env = \<lparr>http = (\<lambda>req. Inr \<lparr>status_code = 200, body = Some (JObj [])\<rparr>),
                 mktime = (\<lambda>y m d. Inr 0)\<rparr>"

definition eth_excluded_config :: config where
  "eth_excluded_config = \<lparr>ETHERSCAN_API_KEY = Some ''k1'', INFURA_API_KEY = Some ''k2'',
     CRYPTOCOMPARE_API_KEY = Some ''k3'', WALLET_ADDRESSES = [''0xAb''],
     BLOCK_NUMBERS = [''100''], EXCLUDE_TOKEN_CONTRACTS = [''ETH'']\<rparr>"

text \<open>
  A small ledger. The wallet \<^verbatim>\<open>0xAb\<close> holds 2 ETH at block 100 and now holds 5 units
  of the token \<^verbatim>\<open>TKN\<close> (contract \<^verbatim>\<open>0xc0\<close>), received in block 200: the
  explorer lists that transfer in the range up to block 99999999 and nothing in the
  range up to block 100. The price service knows ETH (2000 USD) and answers 404 for
  every other symbol.
\<close>

definition late_transfer :: json where
  "late_transfer = JObj [(''blockNumber'', JStr ''200''), (''from'', JStr ''0xff''),
     (''to'', JStr ''0xab''), (''value'', JStr ''5000000000000000000''),
     (''contractAddress'', JStr ''0xc0''), (''tokenSymbol'', JStr ''TKN'')]"

definition ok :: "json \<Rightarrow> py_error + response" where
  "ok result = Inr \<lparr>status_code = 200,
     body = Some (JObj [(''status'', JStr ''1''), (''message'', JStr ''OK''), (''result'', result)])\<rparr>"

definition ledger_http :: "request \<Rightarrow> py_error + response" where
  "ledger_http req = (case req of
       Post url hdrs data \<Rightarrow>
         Inr \<lparr>status_code = 200,
              body = Some (JObj [(''jsonrpc'', JStr ''2.0''), (''id'', JInt 1),
                                 (''result'', JStr ''0x1bc16d674ec80000'')])\<rparr>
     | Get url params hdrs \<Rightarrow>
         if url = CRYPTOCOMPARE_API_ENDPOINT
         then (if map_of params ''fsym'' = Some (JStr ''ETH'')
               then Inr \<lparr>status_code = 200,
                         body = Some (JObj [(''Data'', JObj [(''Data'',
                                   JArr [JObj [(''close'', JInt 2000)]])])])\<rparr>
               else Inr \<lparr>status_code = 404, body = None\<rparr>)
         else if map_of params ''action'' = Some (JStr ''getblockreward'')
         then ok (JObj [(''blockNumber'', JStr ''100''), (''timeStamp'', JStr ''1438270239'')])
         else if map_of params ''action'' = Some (JStr ''tokenbalance'')
         then ok (JStr ''5000000000000000000'')
         else if map_of params ''action'' = Some (JStr ''tokentx'')
                 \<and> map_of params ''endblock'' = Some (JInt 99999999)
         then ok (JArr [late_transfer])
         else ok (JArr []))"

definition ledger_env :: env where
  "ledger_env = \<lparr>http = ledger_http, mktime = (\<lambda>y m d. Inr 1438214400)\<rparr>"

definition ledger_config :: config where
  "ledger_config = \<lparr>ETHERSCAN_API_KEY = Some ''k1'', INFURA_API_KEY = Some ''k2'',
     CRYPTOCOMPARE_API_KEY = Some ''k3'', WALLET_ADDRESSES = [''0xAb''],
     BLOCK_NUMBERS = [''100''], EXCLUDE_TOKEN_CONTRACTS = [''0xC0'']\<rparr>"

text \<open>A world that answers every request with the one transfer of the ledger.\<close>

definition flat_env :: env where
  "flat_env = \<lparr>http = (\<lambda>req. ok (JArr [late_transfer])), mktime = (\<lambda>y m d. Inr 0)\<rparr>"

text \<open>
  A world whose explorer answers the three requests of
  \<^verbatim>\<open>reconstruct_erc20_balance\<close> with a given balance and given lists, and a transfer
  record of the token \<^verbatim>\<open>TKN\<close>.
\<close>

definition transfers_env :: "json \<Rightarrow> json \<Rightarrow> json \<Rightarrow> env" where
  "transfers_env balance token_transfers internal_transfers =
     \<lparr>http = (\<lambda>req. case req of
          Get url params hdrs \<Rightarrow>
            if map_of params ''action'' = Some (JStr ''tokenbalance'') then ok balance
            else if map_of params ''action'' = Some (JStr ''tokentx'') then ok token_transfers
            else ok internal_transfers
        | Post url hdrs data \<Rightarrow> Inl RequestException),
      mktime = (\<lambda>y m d. Inr 0)\<rparr>"

definition transfer :: "string \<Rightarrow> string \<Rightarrow> string \<Rightarrow> json" where
  "transfer sender receiver val =
     JObj [(''from'', JStr sender), (''to'', JStr receiver), (''value'', JStr val),
           (''contractAddress'', JStr ''0xc0''), (''tokenSymbol'', JStr ''TKN'')]"

text \<open>A node that answers every balance query with the hexadecimal string \<open>h\<close>.\<close>

definition wei_env :: "string \<Rightarrow> env" where
  "wei_env h = \<lparr>http = (\<lambda>req. Inr \<lparr>status_code = 200,
        body = Some (JObj [(''jsonrpc'', JStr ''2.0''), (''id'', JInt 1), (''result'', JStr h)])\<rparr>),
     mktime = (\<lambda>y m d. Inr 0)\<rparr>"

text \<open>
  The explorer's error answer (rate limit, bad key): status 200, and the \<^verbatim>\<open>result\<close>
  member is a message. And a service that is down: status 503 and no JSON body.
\<close>

definition notok_response :: response where
  "notok_response = \<lparr>status_code = 200,
     body = Some (JObj [(''status'', JStr ''0''), (''message'', JStr ''NOTOK''),
                        (''result'', JStr ''Max rate limit reached'')])\<rparr>"

definition notok_env :: env where
  "notok_env = \<lparr>http = (\<lambda>req. Inr notok_response), mktime = (\<lambda>y m d. Inr 0)\<rparr>"

definition down_env :: env where
  "down_env = \<lparr>http = (\<lambda>req. Inr \<lparr>status_code = 503, body = None\<rparr>),
                mktime = (\<lambda>y m d. Inr 0)\<rparr>"

text \<open>The ledger's settings with the contract of \<^verbatim>\<open>TKN\<close> excluded, as the explorer writes it.\<close>

definition excluding_config :: config where
  "excluding_config = \<lparr>ETHERSCAN_API_KEY = Some ''k1'', INFURA_API_KEY = Some ''k2'',
     CRYPTOCOMPARE_API_KEY = Some ''k3'', WALLET_ADDRESSES = [''0xAb''],
     BLOCK_NUMBERS = [''100''], EXCLUDE_TOKEN_CONTRACTS = [''0xc0'']\<rparr>"

text \<open>
  The ledger with a price service that cannot be reached for any symbol but ETH:
  \<^verbatim>\<open>requests.get\<close> raises.
\<close>

definition price_down_env :: env where
  "price_down_env = \<lparr>http = (\<lambda>req. case req of
        Get url params hdrs \<Rightarrow>
          if url = CRYPTOCOMPARE_API_ENDPOINT \<and> map_of params ''fsym'' \<noteq> Some (JStr ''ETH'')
          then Inl RequestException else ledger_http req
      | Post url hdrs data \<Rightarrow> ledger_http req),
     mktime = (\<lambda>y m d. Inr 1438214400)\<rparr>"

text \<open>
  The ledger with a longer history: three transfers, all after block 100, the first
  and the third of one contract whose symbol changed in between.
\<close>

definition first_transfer :: json where
  "first_transfer = JObj [(''blockNumber'', JStr ''150''), (''from'', JStr ''0xff''),
     (''to'', JStr ''0xab''), (''value'', JStr ''2000000000000000000''),
     (''contractAddress'', JStr ''0xd0''), (''tokenSymbol'', JStr ''OLD'')]"

definition renamed_transfer :: json where
  "renamed_transfer = JObj [(''blockNumber'', JStr ''300''), (''from'', JStr ''0xff''),
     (''to'', JStr ''0xab''), (''value'', JStr ''3000000000000000000''),
     (''contractAddress'', JStr ''0xd0''), (''tokenSymbol'', JStr ''NEW'')]"

definition history_env :: env where
  "history_env = \<lparr>http = (\<lambda>req. case req of
        Get url params hdrs \<Rightarrow>
          if map_of params ''action'' = Some (JStr ''tokentx'')
             \<and> map_of params ''endblock'' = Some (JInt 99999999)
          then ok (JArr [first_transfer, late_transfer, renamed_transfer])
          else ledger_http req
      | Post url hdrs data \<Rightarrow> ledger_http req),
     mktime = (\<lambda>y m d. Inr 1438214400)\<rparr>"

text \<open>
  A world whose clock rejects the first day of year 1: \<^verbatim>\<open>dt.timestamp()\<close> raises
  \<^verbatim>\<open>ValueError\<close> for it (year 0 is out of range).
\<close>

definition year_one_env :: env where
  "year_one_env = \<lparr>http = (\<lambda>req. Inr \<lparr>status_code = 200, body = Some (JObj [])\<rparr>),
     mktime = (\<lambda>y m d. if y = 1 \<and> m = 1 \<and> d = 1 then Inl ValueError else Inr 0)\<rparr>"

text \<open>
  A world in which every request is answered, with whatever status, by a JSON object
  that has neither a \<^verbatim>\<open>result\<close> nor a \<^verbatim>\<open>Data\<close> member.
\<close>

definition answers_without_fields :: "env \<Rightarrow> bool" where
  "answers_without_fields e =
     (\<forall>req. \<exists>response kvs. http e req = Inr response \<and> body response = Some (JObj kvs)
        \<and> map_of kvs ''result'' = None \<and> map_of kvs ''Data'' = None)"

(*PROPERTIES*)
section \<open>Properties\<close>

subsection \<open>Printing and parsing integers\<close>

lemma digit_val_digit_char: "0 \<le> d \<Longrightarrow> d < 16 \<Longrightarrow> digit_val (digit_char d) = Some d"
  by (auto simp: digit_val_def digit_char_def Let_def)

lemma digit_char_neq: "0 \<le> d \<Longrightarrow> d < 16 \<Longrightarrow> digit_val c = None \<Longrightarrow> digit_char d \<noteq> c"
  using digit_val_digit_char by fastforce

lemma digit_val_specials [simp]:
  "digit_val CHR ''_'' = None" "digit_val CHR ''+'' = None" "digit_val CHR ''-'' = None"
  by (simp_all add: digit_val_def)

lemma digit_val_space: "is_space c \<Longrightarrow> digit_val c = None"
  by (auto simp: is_space_def digit_val_def)

lemma digits_acc_snoc:
  "digits_acc b acc prev xs = Some v \<Longrightarrow> digit_val c = Some d \<Longrightarrow> d < b \<Longrightarrow> c \<noteq> CHR ''_''
   \<Longrightarrow> digits_acc b acc prev (xs @ [c]) = Some (v * b + d)"
proof (induction xs arbitrary: acc prev)
  case Nil
  then show ?case by (simp split: if_splits)
next
  case (Cons x xs)
  show ?case
  proof (cases "x = CHR ''_''")
    case True
    with Cons.prems(1) have "prev" "digits_acc b acc False xs = Some v"
      by (simp_all split: if_splits)
    with True Cons.IH[OF _ Cons.prems(2-4)] show ?thesis by simp
  next
    case False
    with Cons.prems(1) obtain e where e: "digit_val x = Some e" "e < b"
      "digits_acc b (acc * b + e) True xs = Some v"
      by (auto split: option.splits if_splits)
    with False Cons.IH[OF e(3) Cons.prems(2-4)] show ?thesis by simp
  qed
qed

lemma show_nat_shape:
  "2 \<le> b \<Longrightarrow> b \<le> 16 \<Longrightarrow> 0 \<le> n \<Longrightarrow>
   show_nat b n \<noteq> [] \<and> (\<forall>c \<in> set (show_nat b n). \<exists>d. 0 \<le> d \<and> d < 16 \<and> c = digit_char d)"
proof (induction b n rule: show_nat.induct)
  case (1 b n)
  show ?case
  proof (cases "n < b")
    case True
    with 1(2,3,4) show ?thesis
      by (auto simp: show_nat.simps[of b n] intro!: exI[of _ n])
  next
    case False
    have d: "0 \<le> n mod b" "n mod b < 16" using 1(2,3)
      by (simp, smt (verit) pos_mod_bound)
    have "0 \<le> n div b" using 1(2,4) by (simp add: pos_imp_zdiv_nonneg_iff)
    with False 1 have "show_nat b (n div b) \<noteq> [] \<and>
        (\<forall>c \<in> set (show_nat b (n div b)). \<exists>d. 0 \<le> d \<and> d < 16 \<and> c = digit_char d)"
      by simp
    moreover have "\<exists>d. 0 \<le> d \<and> d < 16 \<and> digit_char (n mod b) = digit_char d"
      using d by blast
    ultimately show ?thesis using False 1(2)
      by (auto simp: show_nat.simps[of b n])
  qed
qed

lemma digits_acc_show_nat:
  "2 \<le> b \<Longrightarrow> b \<le> 16 \<Longrightarrow> 0 \<le> n \<Longrightarrow> digits_acc b 0 False (show_nat b n) = Some n"
proof (induction b n rule: show_nat.induct)
  case (1 b n)
  show ?case
  proof (cases "n < b")
    case True
    with 1 show ?thesis
      by (simp add: show_nat.simps[of b n] digit_val_digit_char digit_char_neq)
  next
    case False
    have "0 \<le> n div b" using 1(2,4) by (simp add: pos_imp_zdiv_nonneg_iff)
    with False 1 have ih: "digits_acc b 0 False (show_nat b (n div b)) = Some (n div b)"
      by simp
    have d: "0 \<le> n mod b" "n mod b < 16" using 1(2,3)
      by (simp, smt (verit) pos_mod_bound)
    have "digits_acc b 0 False (show_nat b (n div b) @ [digit_char (n mod b)]) = Some (n div b * b + n mod b)"
      using 1(2) by (intro digits_acc_snoc[OF ih digit_val_digit_char[OF d]] digit_char_neq[OF d]) simp_all
    with False 1(2) show ?thesis
      by (simp add: show_nat.simps[of b n])
  qed
qed

lemma dropWhile_id: "xs \<noteq> [] \<Longrightarrow> \<not> P (hd xs) \<Longrightarrow> dropWhile P xs = xs"
  by (cases xs) auto

lemma show_nat_no_space: "0 \<le> n \<Longrightarrow> c \<in> set (show_nat 10 n) \<Longrightarrow> \<not> is_space c"
proof
  assume n: "0 \<le> n" and c: "c \<in> set (show_nat 10 n)" and sp: "is_space c"
  from c n obtain d where d: "0 \<le> d" "d < 16" "c = digit_char d"
    using show_nat_shape[of 10 n] by auto
  from sp have "digit_val c = None" by (rule digit_val_space)
  with d digit_val_digit_char[OF d(1,2)] show False by simp
qed

lemma show_nat_hd:
  "0 \<le> n \<Longrightarrow> hd (show_nat 10 n) \<in> set (show_nat 10 n)"
  "0 \<le> n \<Longrightarrow> last (show_nat 10 n) \<in> set (show_nat 10 n)"
  using show_nat_shape[of 10 n] by simp_all

lemma strip_show_nat:
  assumes "0 \<le> n"
  shows "dropWhile is_space (show_nat 10 n) = show_nat 10 n"
    and "rev (dropWhile is_space (rev (show_nat 10 n))) = show_nat 10 n"
proof -
  have ne: "show_nat 10 n \<noteq> []" using show_nat_shape[of 10 n] assms by simp
  show "dropWhile is_space (show_nat 10 n) = show_nat 10 n"
    using ne show_nat_hd(1)[OF assms] show_nat_no_space[OF assms] by (intro dropWhile_id) auto
  have "dropWhile is_space (rev (show_nat 10 n)) = rev (show_nat 10 n)"
    using ne show_nat_hd(2)[OF assms] show_nat_no_space[OF assms]
    by (intro dropWhile_id) (auto simp: hd_rev)
  then show "rev (dropWhile is_space (rev (show_nat 10 n))) = show_nat 10 n"
    by simp
qed

lemma strip_sign_show_nat: "0 \<le> n \<Longrightarrow> strip_sign (show_nat 10 n) = (False, show_nat 10 n)"
proof -
  assume n: "0 \<le> n"
  then obtain c cs where cs: "show_nat 10 n = c # cs"
    using show_nat_shape[of 10 n] by (cases "show_nat 10 n") auto
  then have "c \<in> set (show_nat 10 n)" by simp
  then obtain d where d: "0 \<le> d" "d < 16" "c = digit_char d"
    using show_nat_shape[of 10 n] n by auto
  have "digit_char d \<noteq> CHR ''+''" "digit_char d \<noteq> CHR ''-''"
    by (rule digit_char_neq[OF d(1,2)], simp)+
  with d have "c \<noteq> CHR ''+''" "c \<noteq> CHR ''-''"
    by simp_all
  with cs show ?thesis by (simp add: strip_sign_def)
qed

lemma int_of_str_py_str_int: "int_of_str 10 (py_str_int n) = Inr n"
proof (cases "n < 0")
  case False
  then show ?thesis
    by (simp add: int_of_str_def py_str_int_def strip_show_nat strip_sign_show_nat
        digits_acc_show_nat)
next
  case True
  have "\<not> is_space CHR ''-''" by (simp add: is_space_def)
  with True show ?thesis
    by (simp add: int_of_str_def py_str_int_def strip_show_nat strip_sign_def
        digits_acc_show_nat)
qed

subsection \<open>get_eth_balance\<close>

text \<open>
  Claim C6. For every address and every block number, when the JSON-RPC response to
  the native-balance query has no \<^verbatim>\<open>result\<close> member (or a null one),
  \<open>get_eth_balance\<close> returns the integer 0 to its caller, as a normal return, and
  prints the diagnostic message.
\<close>

theorem get_eth_balance_no_result:
  assumes "http e (eth_balance_request cfg address n) = Inr response"
    and "body response = Some (JObj kvs)"
    and "map_of kvs ''result'' = None \<or> map_of kvs ''result'' = Some JNull"
  shows "get_eth_balance cfg e address (py_str_int n) =
           (Inr (JInt 0), [ErrorFetchingEthBalance (py_str_int n) address])"
  using assms
  by (auto simp: get_eth_balance_def int_of_str_py_str_int bind_err_def response_json_def)

theorem get_eth_balance_no_result_witness:
  "http rpc_error_env (eth_balance_request example_config ''0xAb'' 100) = Inr rpc_error_response
   \<and> body rpc_error_response = Some (JObj rpc_error_members)
   \<and> map_of rpc_error_members ''result'' = None
   \<and> get_eth_balance example_config rpc_error_env ''0xAb'' ''100'' =
       (Inr (JInt 0), [ErrorFetchingEthBalance ''100'' ''0xAb''])"
proof -
  have s: "py_str_int 100 = ''100''"
    by code_simp
  have h: "http rpc_error_env (eth_balance_request example_config ''0xAb'' 100) = Inr rpc_error_response"
    by (simp add: rpc_error_env_def)
  have b: "body rpc_error_response = Some (JObj rpc_error_members)"
    by (simp add: rpc_error_response_def)
  have m: "map_of rpc_error_members ''result'' = None"
    by (simp add: rpc_error_members_def)
  from get_eth_balance_no_result[OF h b disjI1[OF m]] h b m show ?thesis
    by (simp add: s)
qed

subsection \<open>The rows main writes\<close>

lemma rows_of_append: "rows_of (xs @ ys) = rows_of xs @ rows_of ys"
  by (induction xs rule: rows_of.induct) simp_all

lemma rows_of_prints: "rows_of (map Print ms) = []"
  by (induction ms) simp_all

lemma round_ratio_zero: "round_ratio 0 1 = (0, - 54)"
  by code_simp

lemma float_times_zero: "py_mul (JFloat (Fin x)) (JInt 0) = Inr (JFloat (Fin 0))"
  by (simp add: py_mul_def int_times_def float_of_int_def py_truediv_def round_ratio_zero
      double_overflow_def double_val_def bind_err_def round_double_def)

lemma token_rows_excluded:
  "(token_rows cfg e a b d (contract, s) = ([Print (SkippingSpamTokens s)], None))
   = (\<exists>x \<in> set (EXCLUDE_TOKEN_CONTRACTS cfg). contract = JStr x)"
  by (auto simp: token_rows_def Let_def split: sum.splits prod.splits)

lemma token_rows_returned:
  assumes "contract \<notin> JStr ` set (EXCLUDE_TOKEN_CONTRACTS cfg)"
    and "reconstruct_erc20_balance cfg e a contract s b = Inr f"
    and "get_token_price_on_date_cryptocompare cfg e s d = (Inr p, msgs)"
    and "py_mul (JFloat f) (price_or_zero p) = Inr usd"
  shows "token_rows cfg e a b d (contract, s) =
           (Print (ReconstructingBalance s b) # map Print msgs @
            (if float_pos f
             then [WriteRow \<lparr>Address = a, Block_Number = b, Balance = JFloat f,
                             Token_Ticker = s, Token_Contract = contract, USD_Value = usd\<rparr>]
             else []), None)"
  using assms by (simp add: token_rows_def bind_err_def)

lemma token_rows_sound:
  assumes "r \<in> set (rows_of (fst (token_rows cfg e a b d (contract, s))))"
  shows "Token_Contract r = contract \<and> Token_Ticker r = s \<and> Address r = a \<and> Block_Number r = b
         \<and> contract \<notin> JStr ` set (EXCLUDE_TOKEN_CONTRACTS cfg)
         \<and> (\<exists>f. reconstruct_erc20_balance cfg e a contract s b = Inr f \<and> float_pos f
                  \<and> Balance r = JFloat f)"
  using assms
  by (auto simp: token_rows_def Let_def rows_of_append rows_of_prints
      split: sum.splits prod.splits if_splits)

lemma run_all_rows:
  "r \<in> set (rows_of (fst (run_all f xs))) \<Longrightarrow> \<exists>x \<in> set xs. r \<in> set (rows_of (fst (f x)))"
proof (induction xs)
  case Nil
  then show ?case by simp
next
  case (Cons x xs)
  then show ?case
    by (auto simp: rows_of_append split: prod.splits option.splits)
qed

lemma run_all_complete:
  "snd (run_all f xs) = None \<Longrightarrow> x \<in> set xs \<Longrightarrow>
   snd (f x) = None \<and> set (rows_of (fst (f x))) \<subseteq> set (rows_of (fst (run_all f xs)))"
proof (induction xs)
  case Nil
  then show ?case by simp
next
  case (Cons y ys)
  then show ?case
    by (auto simp: rows_of_append split: prod.splits option.splits)
qed


lemma bind_err_Inr: "bind_err m g = Inr y \<Longrightarrow> \<exists>x. m = Inr x \<and> g x = Inr y"
  by (cases m) (simp_all add: bind_err_def)

lemma py_truediv_finite: "py_truediv a b = Inr f \<Longrightarrow> \<exists>x. f = Fin x"
  by (auto simp: py_truediv_def Let_def split: if_splits)

lemma reconstruct_finite:
  assumes "reconstruct_erc20_balance cfg e a contract s b = Inr f"
  shows "\<exists>x. f = Fin x"
proof -
  from assms obtain n where "py_truediv n (10 ^ 18) = Inr f"
    unfolding reconstruct_erc20_balance_def
    by (blast dest!: bind_err_Inr)
  then show ?thesis by (rule py_truediv_finite)
qed

lemma eth_row_rows:
  assumes "r \<in> set (rows_of (fst (eth_row cfg e a b)))"
  shows "Token_Contract r = JStr ''ETH'' \<and> Token_Ticker r = JStr ''ETH''
         \<and> Address r = a \<and> Block_Number r = b"
  using assms
  by (auto simp: eth_row_def Let_def rows_of_append rows_of_prints
      split: sum.splits prod.splits)

lemma block_rows_rows:
  assumes "r \<in> set (rows_of (fst (block_rows cfg e a b)))"
  shows "r \<in> set (rows_of (fst (eth_row cfg e a b))) \<or>
         (\<exists>tokens d. get_erc20_tokens cfg e a = Inr tokens \<and>
            (\<exists>item \<in> set tokens. r \<in> set (rows_of (fst (token_rows cfg e a b d item)))))"
proof (cases "eth_row cfg e a b")
  case (Pair written res)
  show ?thesis
  proof (cases res)
    case (Inl err)
    with Pair assms show ?thesis by (simp add: block_rows_def)
  next
    case (Inr d)
    show ?thesis
    proof (cases "get_erc20_tokens cfg e a")
      case (Inl err)
      with Pair Inr assms show ?thesis by (simp add: block_rows_def)
    next
      case tk: (Inr tokens)
      obtain evs res' where ra: "run_all (token_rows cfg e a b d) tokens = (evs, res')"
        by (cases "run_all (token_rows cfg e a b d) tokens")
      with Pair Inr tk assms have "r \<in> set (rows_of written) \<or> r \<in> set (rows_of evs)"
        by (simp add: block_rows_def rows_of_append)
      then show ?thesis
      proof
        assume "r \<in> set (rows_of written)"
        with Pair show ?thesis by simp
      next
        assume "r \<in> set (rows_of evs)"
        with ra have "r \<in> set (rows_of (fst (run_all (token_rows cfg e a b d) tokens)))"
          by simp
        from run_all_rows[OF this] tk show ?thesis by blast
      qed
    qed
  qed
qed

lemma main_rows:
  assumes "r \<in> set (rows_of (fst (main cfg e)))"
  shows "\<exists>a \<in> set (WALLET_ADDRESSES cfg). \<exists>b \<in> set (BLOCK_NUMBERS cfg).
           r \<in> set (rows_of (fst (block_rows cfg e a b)))"
proof -
  from assms have "r \<in> set (rows_of (fst (run_all (address_rows cfg e) (WALLET_ADDRESSES cfg))))"
    by (auto simp: main_def rows_of_append split: prod.splits option.splits)
  then obtain a where a: "a \<in> set (WALLET_ADDRESSES cfg)"
    "r \<in> set (rows_of (fst (address_rows cfg e a)))"
    by (blast dest: run_all_rows)
  from a(2) have "r \<in> set (rows_of (fst (run_all (block_rows cfg e a) (BLOCK_NUMBERS cfg))))"
    by (auto simp: address_rows_def split: prod.splits)
  then obtain b where "b \<in> set (BLOCK_NUMBERS cfg)"
    "r \<in> set (rows_of (fst (block_rows cfg e a b)))"
    by (blast dest: run_all_rows)
  with a(1) show ?thesis by blast
qed

lemma ledger_run:
  "main ledger_config ledger_env =
     ([Print (ProcessingAddress ''0xAb''), Print (FetchingEthBalance ''100''),
       WriteRow \<lparr>Address = ''0xAb'', Block_Number = ''100'', Balance = JFloat (Fin 2),
                  Token_Ticker = JStr ''ETH'', Token_Contract = JStr ''ETH'',
                  USD_Value = JFloat (Fin 4000)\<rparr>,
       Print (ReconstructingBalance (JStr ''TKN'') ''100''),
       Print (ErrorFetchingPrice (JStr ''TKN'') ''2015-07-30''),
       WriteRow \<lparr>Address = ''0xAb'', Block_Number = ''100'', Balance = JFloat (Fin 5),
                  Token_Ticker = JStr ''TKN'', Token_Contract = JStr ''0xc0'',
                  USD_Value = JFloat (Fin 0)\<rparr>,
       Print CompletedProcessing], None)"
  by code_simp

text \<open>
  Claim C8. The exclusion list holds token contract addresses, so it does not hold the
  text \<^verbatim>\<open>ETH\<close> that the ETH row carries in its Token Contract column. Then no row
  \<open>main\<close> writes, for any address and block, names a contract of the exclusion list,
  whatever the explorer reports as discovered, also in a run that an exception ends.
\<close>

theorem no_excluded_contract_written:
  assumes "r \<in> set (rows_of (fst (main cfg e)))"
    and "''ETH'' \<notin> set (EXCLUDE_TOKEN_CONTRACTS cfg)"
  shows "Token_Contract r \<notin> JStr ` set (EXCLUDE_TOKEN_CONTRACTS cfg)"
proof -
  from main_rows[OF assms(1)] obtain a b where ab: "a \<in> set (WALLET_ADDRESSES cfg)"
    "b \<in> set (BLOCK_NUMBERS cfg)" "r \<in> set (rows_of (fst (block_rows cfg e a b)))"
    by blast
  from block_rows_rows[OF ab(3)] show ?thesis
  proof
    assume "r \<in> set (rows_of (fst (eth_row cfg e a b)))"
    from eth_row_rows[OF this] have "Token_Contract r = JStr ''ETH''" by simp
    with assms(2) show ?thesis by auto
  next
    assume "\<exists>tokens d. get_erc20_tokens cfg e a = Inr tokens \<and>
            (\<exists>item \<in> set tokens. r \<in> set (rows_of (fst (token_rows cfg e a b d item))))"
    then obtain d c s where "r \<in> set (rows_of (fst (token_rows cfg e a b d (c, s))))"
      by force
    from token_rows_sound[OF this] show ?thesis by simp
  qed
qed

theorem no_excluded_contract_written_witness:
  "get_erc20_tokens excluding_config ledger_env ''0xAb'' = Inr [(JStr ''0xc0'', JStr ''TKN'')]
   \<and> EXCLUDE_TOKEN_CONTRACTS excluding_config = [''0xc0'']
   \<and> rows_of (fst (main excluding_config ledger_env)) =
       [\<lparr>Address = ''0xAb'', Block_Number = ''100'', Balance = JFloat (Fin 2),
          Token_Ticker = JStr ''ETH'', Token_Contract = JStr ''ETH'',
          USD_Value = JFloat (Fin 4000)\<rparr>]
   \<and> JStr ''ETH'' \<notin> JStr ` set (EXCLUDE_TOKEN_CONTRACTS excluding_config)"
proof -
  let ?r = "\<lparr>Address = ''0xAb'', Block_Number = ''100'', Balance = JFloat (Fin 2),
          Token_Ticker = JStr ''ETH'', Token_Contract = JStr ''ETH'',
          USD_Value = JFloat (Fin 4000)\<rparr>"
  have t: "get_erc20_tokens excluding_config ledger_env ''0xAb'' = Inr [(JStr ''0xc0'', JStr ''TKN'')]"
    by code_simp
  have x: "EXCLUDE_TOKEN_CONTRACTS excluding_config = [''0xc0'']"
    by (simp add: excluding_config_def)
  have m: "rows_of (fst (main excluding_config ledger_env)) = [?r]"
    by code_simp
  then have "?r \<in> set (rows_of (fst (main excluding_config ledger_env)))"
    by simp
  from no_excluded_contract_written[OF this] x
  have "JStr ''ETH'' \<notin> JStr ` set (EXCLUDE_TOKEN_CONTRACTS excluding_config)"
    by simp
  with t x m show ?thesis by simp
qed

text \<open>
  The ETH row is written by the first half of the loop body, before the exclusion
  list is read: a list that held the text \<^verbatim>\<open>ETH\<close> would not keep it out.
\<close>

lemma eth_row_ignores_exclusion:
  "rows_of (fst (main eth_excluded_config empty_env)) =
     [\<lparr>Address = ''0xAb'', Block_Number = ''100'', Balance = JInt 0,
       Token_Ticker = JStr ''ETH'', Token_Contract = JStr ''ETH'', USD_Value = JInt 0\<rparr>]
   \<and> JStr ''ETH'' \<in> JStr ` set (EXCLUDE_TOKEN_CONTRACTS eth_excluded_config)"
  by code_simp

text \<open>
  Claim C2, as amended. For a discovered token that is not excluded, once its balance
  is reconstructed and the price lookup has returned, the loop body writes exactly
  one row for it if the reconstructed balance \<open>x\<close> is strictly positive, \<open>0 < x\<close>,
  and no row otherwise. When the lookup returned no price (\<^verbatim>\<open>None\<close> after a status
  other than 200 or an answer without data, or any other false value) the row is
  written all the same and its USD Value is 0. With a price the row carries the
  product, provided Python can form it.
\<close>

theorem token_row_iff_positive:
  assumes "contract \<notin> JStr ` set (EXCLUDE_TOKEN_CONTRACTS cfg)"
    and "reconstruct_erc20_balance cfg e a contract s b = Inr f"
    and "get_token_price_on_date_cryptocompare cfg e s d = (Inr p, msgs)"
    and "truthy p \<longrightarrow> py_mul (JFloat f) p = Inr usd"
  shows "\<exists>x. f = Fin x \<and>
           token_rows cfg e a b d (contract, s) =
           (Print (ReconstructingBalance s b) # map Print msgs @
            (if 0 < x
             then [WriteRow \<lparr>Address = a, Block_Number = b, Balance = JFloat (Fin x),
                             Token_Ticker = s, Token_Contract = contract,
                             USD_Value = (if truthy p then usd else JFloat (Fin 0))\<rparr>]
             else []), None)"
proof -
  from reconstruct_finite[OF assms(2)] obtain x where x: "f = Fin x" ..
  have "py_mul (JFloat f) (price_or_zero p) = Inr (if truthy p then usd else JFloat (Fin 0))"
    using assms(4) by (simp add: price_or_zero_def x float_times_zero)
  from token_rows_returned[OF assms(1-3) this] x show ?thesis
    by simp
qed

theorem token_row_iff_positive_witness:
  "JStr ''0xc0'' \<notin> JStr ` set (EXCLUDE_TOKEN_CONTRACTS ledger_config)
   \<and> reconstruct_erc20_balance ledger_config ledger_env ''0xAb'' (JStr ''0xc0'') (JStr ''TKN'') ''100''
       = Inr (Fin 5)
   \<and> get_token_price_on_date_cryptocompare ledger_config ledger_env (JStr ''TKN'') ''2015-07-30''
       = (Inr JNull, [ErrorFetchingPrice (JStr ''TKN'') ''2015-07-30''])
   \<and> token_rows ledger_config ledger_env ''0xAb'' ''100'' ''2015-07-30'' (JStr ''0xc0'', JStr ''TKN'') =
       ([Print (ReconstructingBalance (JStr ''TKN'') ''100''),
         Print (ErrorFetchingPrice (JStr ''TKN'') ''2015-07-30''),
         WriteRow \<lparr>Address = ''0xAb'', Block_Number = ''100'', Balance = JFloat (Fin 5),
                    Token_Ticker = JStr ''TKN'', Token_Contract = JStr ''0xc0'',
                    USD_Value = JFloat (Fin 0)\<rparr>], None)
   \<and> reconstruct_erc20_balance ledger_config
         (transfers_env (JStr ''0'') (JArr [transfer ''0xff'' ''0xab'' ''500000000000000000'']) (JArr []))
         ''0xAb'' (JStr ''0xc0'') (JStr ''TKN'') ''100'' = Inr (Fin (- (1 / 2)))
   \<and> token_rows ledger_config
         (transfers_env (JStr ''0'') (JArr [transfer ''0xff'' ''0xab'' ''500000000000000000'']) (JArr []))
         ''0xAb'' ''100'' ''2015-07-30'' (JStr ''0xc0'', JStr ''TKN'') =
       ([Print (ReconstructingBalance (JStr ''TKN'') ''100''),
         Print (ErrorFetchingPrice (JStr ''TKN'') ''2015-07-30'')], None)
   \<and> reconstruct_erc20_balance ledger_config (transfers_env (JStr ''0'') (JArr []) (JArr []))
         ''0xAb'' (JStr ''0xc0'') (JStr ''TKN'') ''100'' = Inr (Fin 0)
   \<and> token_rows ledger_config (transfers_env (JStr ''0'') (JArr []) (JArr []))
         ''0xAb'' ''100'' ''2015-07-30'' (JStr ''0xc0'', JStr ''TKN'') =
       ([Print (ReconstructingBalance (JStr ''TKN'') ''100''),
         Print (ErrorFetchingPrice (JStr ''TKN'') ''2015-07-30'')], None)"
proof -
  let ?debit = "transfers_env (JStr ''0'') (JArr [transfer ''0xff'' ''0xab'' ''500000000000000000'']) (JArr [])"
  let ?none = "transfers_env (JStr ''0'') (JArr []) (JArr [])"
  have h1: "JStr ''0xc0'' \<notin> JStr ` set (EXCLUDE_TOKEN_CONTRACTS ledger_config)"
    by (simp add: ledger_config_def)
  have h2: "reconstruct_erc20_balance ledger_config ledger_env ''0xAb'' (JStr ''0xc0'') (JStr ''TKN'') ''100''
       = Inr (Fin 5)"
    by code_simp
  have h3: "get_token_price_on_date_cryptocompare ledger_config ledger_env (JStr ''TKN'') ''2015-07-30''
       = (Inr JNull, [ErrorFetchingPrice (JStr ''TKN'') ''2015-07-30''])"
    by code_simp
  have h4: "truthy JNull \<longrightarrow> py_mul (JFloat f) JNull = Inr JNull" for f
    by simp
  have d2: "reconstruct_erc20_balance ledger_config ?debit ''0xAb'' (JStr ''0xc0'') (JStr ''TKN'') ''100''
       = Inr (Fin (- (1 / 2)))"
    by code_simp
  have d3: "get_token_price_on_date_cryptocompare ledger_config ?debit (JStr ''TKN'') ''2015-07-30''
       = (Inr JNull, [ErrorFetchingPrice (JStr ''TKN'') ''2015-07-30''])"
    by code_simp
  have n2: "reconstruct_erc20_balance ledger_config ?none ''0xAb'' (JStr ''0xc0'') (JStr ''TKN'') ''100''
       = Inr (Fin 0)"
    by code_simp
  have n3: "get_token_price_on_date_cryptocompare ledger_config ?none (JStr ''TKN'') ''2015-07-30''
       = (Inr JNull, [ErrorFetchingPrice (JStr ''TKN'') ''2015-07-30''])"
    by code_simp
  from token_row_iff_positive[OF h1 h2 h3 h4] token_row_iff_positive[OF h1 d2 d3 h4]
    token_row_iff_positive[OF h1 n2 n3 h4] h1 h2 h3 d2 n2
  show ?thesis
    by simp
qed

text \<open>
  Claim C2 as stated fails when the price lookup is unavailable in the plainest way:
  the price service cannot be reached and \<^verbatim>\<open>requests.get\<close> raises. Nothing catches
  the exception, so the token's positive balance gets no row and the run ends there,
  the ETH row already written.
\<close>

theorem price_failure_drops_row:
  "JStr ''0xc0'' \<notin> JStr ` set (EXCLUDE_TOKEN_CONTRACTS ledger_config)
   \<and> reconstruct_erc20_balance ledger_config price_down_env ''0xAb'' (JStr ''0xc0'') (JStr ''TKN'') ''100''
       = Inr (Fin 5)
   \<and> get_token_price_on_date_cryptocompare ledger_config price_down_env (JStr ''TKN'') ''2015-07-30''
       = (Inl RequestException, [])
   \<and> token_rows ledger_config price_down_env ''0xAb'' ''100'' ''2015-07-30'' (JStr ''0xc0'', JStr ''TKN'')
       = ([Print (ReconstructingBalance (JStr ''TKN'') ''100'')], Some RequestException)
   \<and> rows_of (fst (main ledger_config price_down_env)) =
       [\<lparr>Address = ''0xAb'', Block_Number = ''100'', Balance = JFloat (Fin 2),
          Token_Ticker = JStr ''ETH'', Token_Contract = JStr ''ETH'',
          USD_Value = JFloat (Fin 4000)\<rparr>]
   \<and> snd (main ledger_config price_down_env) = Some RequestException"
  by code_simp


text \<open>
  Claim C9. The loop body skips a discovered token exactly when its contract is,
  character for character, one of the configured strings. A contract that differs
  from every configured one, if only in letter case, is processed, and the ledger
  shows its row written.
\<close>

theorem exclusion_is_exact:
  "(token_rows cfg e a b d (contract, s) = ([Print (SkippingSpamTokens s)], None))
   = (\<exists>x \<in> set (EXCLUDE_TOKEN_CONTRACTS cfg). contract = JStr x)"
  by (auto simp: token_rows_def Let_def split: sum.splits prod.splits)

theorem exclusion_is_exact_witness:
  "py_lower ''0xc0'' = py_lower ''0xC0''
   \<and> EXCLUDE_TOKEN_CONTRACTS ledger_config = [''0xC0'']
   \<and> token_rows ledger_config ledger_env ''0xAb'' ''100'' ''2015-07-30'' (JStr ''0xc0'', JStr ''TKN'')
       \<noteq> ([Print (SkippingSpamTokens (JStr ''TKN''))], None)
   \<and> \<lparr>Address = ''0xAb'', Block_Number = ''100'', Balance = JFloat (Fin 5),
       Token_Ticker = JStr ''TKN'', Token_Contract = JStr ''0xc0'', USD_Value = JFloat (Fin 0)\<rparr>
       \<in> set (rows_of (fst (main ledger_config ledger_env)))"
proof -
  have l: "py_lower ''0xc0'' = py_lower ''0xC0''"
    by code_simp
  have x: "EXCLUDE_TOKEN_CONTRACTS ledger_config = [''0xC0'']"
    by (simp add: ledger_config_def)
  have "\<not> (\<exists>x \<in> set (EXCLUDE_TOKEN_CONTRACTS ledger_config). JStr ''0xc0'' = JStr x)"
    by (simp add: x)
  with exclusion_is_exact[of ledger_config ledger_env "''0xAb''" "''100''" "''2015-07-30''"
      "JStr ''0xc0''" "JStr ''TKN''"]
  have "token_rows ledger_config ledger_env ''0xAb'' ''100'' ''2015-07-30'' (JStr ''0xc0'', JStr ''TKN'')
       \<noteq> ([Print (SkippingSpamTokens (JStr ''TKN''))], None)"
    by simp
  with l x show ?thesis
    by (simp add: ledger_run)
qed

subsection \<open>reconstruct_erc20_balance\<close>

lemma py_eq_JStr [simp]: "py_eq x (JStr s) = (x = JStr s)"
  by (cases x) auto

lemma undo_transfer_record:
  assumes "transfer_record tx"
  shows "undo_transfer address bal tx =
           Inr (if is_receiver address tx then bal - amount tx
                else if is_sender address tx then bal + amount tx else bal)"
proof -
  from assms obtain kvs t f v n where tx: "tx = JObj kvs" "map_of kvs ''to'' = Some t"
    "map_of kvs ''from'' = Some f" "map_of kvs ''value'' = Some v" "py_int v = Inr n"
    by (auto simp: transfer_record_def split: json.splits option.splits sum.splits)
  then show ?thesis
    by (simp add: undo_transfer_def bind_err_def is_receiver_def is_sender_def field_def amount_def)
qed

lemma token_step_record:
  assumes "token_record tx"
  shows "token_step address symbol bal tx =
           Inr (if token_matches symbol tx
                then (if is_receiver address tx then bal - amount tx
                      else if is_sender address tx then bal + amount tx else bal)
                else bal)"
proof -
  from assms have tr: "transfer_record tx" by (simp add: token_record_def)
  then obtain kvs where tx: "tx = JObj kvs"
    by (auto simp: transfer_record_def split: json.splits)
  with assms obtain s where "map_of kvs ''tokenSymbol'' = Some s"
    by (auto simp: token_record_def split: option.splits)
  with tx undo_transfer_record[OF tr] show ?thesis
    by (simp add: token_step_def bind_err_def token_matches_def field_def)
qed

lemma internal_step_record:
  assumes "internal_record tx"
  shows "internal_step address contract bal tx =
           Inr (if internal_matches contract tx
                then (if is_receiver address tx then bal - amount tx
                      else if is_sender address tx then bal + amount tx else bal)
                else bal)"
proof -
  from assms have tr: "transfer_record tx" by (simp add: internal_record_def)
  then obtain kvs where tx: "tx = JObj kvs"
    by (auto simp: transfer_record_def split: json.splits)
  with assms obtain ty where ty: "map_of kvs ''type'' = Some ty"
    by (auto simp: internal_record_def split: option.splits)
  show ?thesis
  proof (cases "map_of kvs ''contractAddress''")
    case None
    with tx show ?thesis
      by (simp add: internal_step_def bind_err_def internal_matches_def)
  next
    case (Some c)
    with tx ty undo_transfer_record[OF tr] show ?thesis
      by (simp add: internal_step_def bind_err_def internal_matches_def field_def)
  qed
qed


lemma undone_balance_Nil [simp]: "undone_balance bal address [] = bal"
  by (simp add: undone_balance_def)

lemma undone_balance_append:
  "undone_balance (undone_balance bal address xs) address ys = undone_balance bal address (xs @ ys)"
  by (simp add: undone_balance_def)

lemma for_each_token_step:
  "\<forall>tx \<in> set txs. token_record tx \<Longrightarrow>
   for_each (token_step address symbol) bal txs =
     Inr (undone_balance bal address (filter (token_matches symbol) txs))"
proof (induction txs arbitrary: bal)
  case Nil
  show ?case by simp
next
  case (Cons tx txs)
  then have "token_record tx" and rest: "\<forall>tx \<in> set txs. token_record tx"
    by simp_all
  from token_step_record[OF this(1)] Cons.IH[OF rest] show ?case
    by (simp add: undone_balance_def)
qed

lemma for_each_internal_step:
  "\<forall>tx \<in> set txs. internal_record tx \<Longrightarrow>
   for_each (internal_step address contract) bal txs =
     Inr (undone_balance bal address (filter (internal_matches contract) txs))"
proof (induction txs arbitrary: bal)
  case Nil
  show ?case by simp
next
  case (Cons tx txs)
  then have "internal_record tx" and rest: "\<forall>tx \<in> set txs. internal_record tx"
    by simp_all
  from internal_step_record[OF this(1)] Cons.IH[OF rest] show ?case
    by (simp add: undone_balance_def)
qed

text \<open>
  Claim C1, as amended. When the three requests are answered with a current balance
  and two lists of transfer records, \<open>reconstruct_erc20_balance\<close> returns the
  current balance, minus the values of the matching records whose receiver is the
  lower-cased queried address, plus the values of the matching records whose sender
  is that address and whose receiver is not, divided by \<open>10^18\<close> as Python divides
  two ints. A token transfer matches when its \<^verbatim>\<open>tokenSymbol\<close> equals the queried
  symbol, an internal transfer when it has a \<^verbatim>\<open>contractAddress\<close> equal to the queried
  contract and its type is \<^verbatim>\<open>call\<close>. With a balance of 100, one record of value 30
  received and one of value 10 sent, the integer divided is 80.
\<close>

theorem reconstruct_formula:
  assumes "fetch_result e (tokenbalance_request cfg address contract) (JStr ''0'') = Inr r"
    and "py_int r = Inr current_balance"
    and "fetch_result e (history_request cfg ''tokentx'' address block_number) (JArr [])
           = Inr (JArr token_transfers)"
    and "fetch_result e (history_request cfg ''txlistinternal'' address block_number) (JArr [])
           = Inr (JArr internal_transfers)"
    and "\<forall>tx \<in> set token_transfers. token_record tx"
    and "\<forall>tx \<in> set internal_transfers. internal_record tx"
  shows "reconstruct_erc20_balance cfg e address contract symbol block_number =
           py_truediv (undone_balance current_balance address
                         (matching symbol contract token_transfers internal_transfers))
                      (10 ^ 18)"
  using assms(1-4)
  by (simp add: reconstruct_erc20_balance_def bind_err_def matching_def
      for_each_token_step[OF assms(5)] for_each_internal_step[OF assms(6)]
      undone_balance_append)

theorem reconstruct_formula_witness:
  "token_record (transfer ''0xff'' ''0xab'' ''30'')
   \<and> token_record (transfer ''0xab'' ''0xff'' ''10'')
   \<and> undone_balance 100 ''0xab''
        (matching (JStr ''TKN'') (JStr ''0xc0'')
           [transfer ''0xff'' ''0xab'' ''30'', transfer ''0xab'' ''0xff'' ''10''] []) = 80
   \<and> reconstruct_erc20_balance example_config
        (transfers_env (JStr ''100'')
           (JArr [transfer ''0xff'' ''0xab'' ''30'', transfer ''0xab'' ''0xff'' ''10'']) (JArr []))
        ''0xab'' (JStr ''0xc0'') (JStr ''TKN'') ''100''
      = py_truediv 80 (10 ^ 18)"
proof -
  let ?tts = "[transfer ''0xff'' ''0xab'' ''30'', transfer ''0xab'' ''0xff'' ''10'']"
  let ?e = "transfers_env (JStr ''100'') (JArr ?tts) (JArr [])"
  have h1: "fetch_result ?e (tokenbalance_request example_config ''0xab'' (JStr ''0xc0'')) (JStr ''0'')
              = Inr (JStr ''100'')"
    by code_simp
  have h2: "py_int (JStr ''100'') = Inr 100"
    by code_simp
  have h3: "fetch_result ?e (history_request example_config ''tokentx'' ''0xab'' ''100'') (JArr [])
              = Inr (JArr ?tts)"
    by code_simp
  have h4: "fetch_result ?e (history_request example_config ''txlistinternal'' ''0xab'' ''100'') (JArr [])
              = Inr (JArr [])"
    by code_simp
  have h5: "\<forall>tx \<in> set ?tts. token_record tx"
    by code_simp
  have h6: "\<forall>tx \<in> set ([] :: json list). internal_record tx"
    by simp
  have v: "undone_balance 100 ''0xab'' (matching (JStr ''TKN'') (JStr ''0xc0'') ?tts []) = 80"
    by code_simp
  have r: "token_record (transfer ''0xff'' ''0xab'' ''30'')" "token_record (transfer ''0xab'' ''0xff'' ''10'')"
    using h5 by simp_all
  from reconstruct_formula[OF h1 h2 h3 h4 h5 h6, of "JStr ''TKN''"] r v show ?thesis
    by simp
qed

text \<open>
  Claim C1 as stated fails on a record that the address sent to itself: the claim
  subtracts and adds its value, the \<^verbatim>\<open>if\<close>/\<^verbatim>\<open>elif\<close> of the code only subtracts it.
\<close>

theorem self_transfer_subtracted_only:
  "reconstruct_erc20_balance example_config
     (transfers_env (JStr ''100'') (JArr [transfer ''0xab'' ''0xab'' ''30'']) (JArr []))
     ''0xab'' (JStr ''0xc0'') (JStr ''TKN'') ''100''
   = py_truediv 70 (10 ^ 18)
   \<and> claimed_balance 100 ''0xab''
        (matching (JStr ''TKN'') (JStr ''0xc0'') [transfer ''0xab'' ''0xab'' ''30''] []) = 100
   \<and> py_truediv 70 (10 ^ 18) \<noteq> py_truediv 100 (10 ^ 18)"
  by code_simp

lemma undo_transfer_lower:
  assumes "py_lower a = py_lower a'"
  shows "undo_transfer a = undo_transfer a'"
  by (intro ext) (simp add: undo_transfer_def assms cong: if_cong)

text \<open>
  Claim C3, as amended. The classification does not depend on the letter case of the
  queried address: two addresses with the same lower-case form, given the same
  answers, get the same reconstructed balance. (The \<^verbatim>\<open>from\<close> and \<^verbatim>\<open>to\<close> fields of
  a record are compared as they are with the lower-cased queried address.)
\<close>

theorem queried_address_case_insensitive:
  assumes "py_lower a = py_lower a'"
    and "fetch_result e (tokenbalance_request cfg a contract) (JStr ''0'')
         = fetch_result e' (tokenbalance_request cfg a' contract) (JStr ''0'')"
    and "fetch_result e (history_request cfg ''tokentx'' a block_number) (JArr [])
         = fetch_result e' (history_request cfg ''tokentx'' a' block_number) (JArr [])"
    and "fetch_result e (history_request cfg ''txlistinternal'' a block_number) (JArr [])
         = fetch_result e' (history_request cfg ''txlistinternal'' a' block_number) (JArr [])"
  shows "reconstruct_erc20_balance cfg e a contract symbol block_number
         = reconstruct_erc20_balance cfg e' a' contract symbol block_number"
proof -
  have "token_step a = token_step a'" "internal_step a = internal_step a'"
    by (intro ext, simp add: token_step_def internal_step_def undo_transfer_lower[OF assms(1)]
        cong: if_cong)+
  with assms(2-4) show ?thesis
    by (simp add: reconstruct_erc20_balance_def)
qed

theorem queried_address_case_insensitive_witness:
  "py_lower ''0xAB'' = py_lower ''0xab''
   \<and> reconstruct_erc20_balance example_config
        (transfers_env (JStr ''100'') (JArr [transfer ''0xff'' ''0xab'' ''30'']) (JArr []))
        ''0xAB'' (JStr ''0xc0'') (JStr ''TKN'') ''100''
     = reconstruct_erc20_balance example_config
        (transfers_env (JStr ''100'') (JArr [transfer ''0xff'' ''0xab'' ''30'']) (JArr []))
        ''0xab'' (JStr ''0xc0'') (JStr ''TKN'') ''100''
   \<and> reconstruct_erc20_balance example_config
        (transfers_env (JStr ''100'') (JArr [transfer ''0xff'' ''0xab'' ''30'']) (JArr []))
        ''0xab'' (JStr ''0xc0'') (JStr ''TKN'') ''100''
     = py_truediv 70 (10 ^ 18)"
proof -
  let ?e = "transfers_env (JStr ''100'') (JArr [transfer ''0xff'' ''0xab'' ''30'']) (JArr [])"
  have h1: "py_lower ''0xAB'' = py_lower ''0xab''"
    by code_simp
  have h2: "fetch_result ?e (tokenbalance_request example_config ''0xAB'' (JStr ''0xc0'')) (JStr ''0'')
         = fetch_result ?e (tokenbalance_request example_config ''0xab'' (JStr ''0xc0'')) (JStr ''0'')"
    by code_simp
  have h3: "fetch_result ?e (history_request example_config ''tokentx'' ''0xAB'' ''100'') (JArr [])
         = fetch_result ?e (history_request example_config ''tokentx'' ''0xab'' ''100'') (JArr [])"
    by code_simp
  have h4: "fetch_result ?e (history_request example_config ''txlistinternal'' ''0xAB'' ''100'') (JArr [])
         = fetch_result ?e (history_request example_config ''txlistinternal'' ''0xab'' ''100'') (JArr [])"
    by code_simp
  have v: "reconstruct_erc20_balance example_config ?e ''0xab'' (JStr ''0xc0'') (JStr ''TKN'') ''100''
     = py_truediv 70 (10 ^ 18)"
    by code_simp
  from queried_address_case_insensitive[OF h1 h2 h3 h4, of "JStr ''TKN''"] h1 v show ?thesis
    by simp
qed

text \<open>
  Claim C3 as stated fails: writing the receiver of a record in upper case changes
  the result, since only the queried address is lower-cased.
\<close>

theorem record_case_changes_result:
  "py_lower ''0xAB'' = py_lower ''0xab''
   \<and> reconstruct_erc20_balance example_config
        (transfers_env (JStr ''100'') (JArr [transfer ''0xff'' ''0xab'' ''30'']) (JArr []))
        ''0xab'' (JStr ''0xc0'') (JStr ''TKN'') ''100''
     = py_truediv 70 (10 ^ 18)
   \<and> reconstruct_erc20_balance example_config
        (transfers_env (JStr ''100'') (JArr [transfer ''0xff'' ''0xAB'' ''30'']) (JArr []))
        ''0xab'' (JStr ''0xc0'') (JStr ''TKN'') ''100''
     = py_truediv 100 (10 ^ 18)
   \<and> py_truediv 70 (10 ^ 18) \<noteq> py_truediv 100 (10 ^ 18)"
  by code_simp


subsection \<open>Token discovery\<close>

lemma add_token_record:
  assumes "discovery_record tx"
  shows "add_token tokens tx
           = Inr (dict_set tokens (field tx ''contractAddress'') (field tx ''tokenSymbol''))"
    and "\<exists>c. field tx ''contractAddress'' = JStr c"
proof -
  from assms have s: "is_str (field tx ''contractAddress'')"
    and ex: "\<exists>v. subscript tx ''tokenSymbol'' = Inr v"
    by (auto simp: discovery_record_def split: sum.splits)
  from ex obtain v where v: "subscript tx ''tokenSymbol'' = Inr v" ..
  from s obtain c where c: "field tx ''contractAddress'' = JStr c"
    by (cases "field tx ''contractAddress''") simp_all
  then have sc: "subscript tx ''contractAddress'' = Inr (JStr c)"
    by (cases "subscript tx ''contractAddress''") (simp_all add: field_def)
  from c show "\<exists>c. field tx ''contractAddress'' = JStr c" ..
  show "add_token tokens tx
           = Inr (dict_set tokens (field tx ''contractAddress'') (field tx ''tokenSymbol''))"
    by (simp add: add_token_def field_def v sc bind_err_def)
qed

lemma dict_set_map_of: "map_of (dict_set kvs (JStr c) v) = (map_of kvs)(JStr c \<mapsto> v)"
  by (induction kvs) (auto simp: fun_eq_iff)

lemma dict_set_keys: "fst ` set (dict_set kvs (JStr c) v) = insert (JStr c) (fst ` set kvs)"
  by (induction kvs) auto

lemma dict_set_distinct:
  "distinct (map fst kvs) \<Longrightarrow> distinct (map fst (dict_set kvs (JStr c) v))"
proof (induction kvs)
  case Nil
  show ?case by simp
next
  case (Cons kv kvs)
  then have d: "distinct (map fst (dict_set kvs (JStr c) v))" and n: "fst kv \<notin> fst ` set kvs"
    by simp_all
  show ?case
  proof (cases "fst kv = JStr c")
    case True
    with Cons.prems show ?thesis by simp
  next
    case False
    with n have "fst kv \<notin> fst ` set (dict_set kvs (JStr c) v)"
      by (simp add: dict_set_keys)
    with False d show ?thesis by simp
  qed
qed

lemma for_each_add_token:
  assumes "\<forall>tx \<in> set txs. discovery_record tx"
  shows "\<exists>tokens. for_each add_token acc txs = Inr tokens
           \<and> map_of tokens
               = foldl (\<lambda>tokens tx. tokens(field tx ''contractAddress'' \<mapsto> field tx ''tokenSymbol''))
                   (map_of acc) txs
           \<and> fst ` set tokens = fst ` set acc \<union> (\<lambda>tx. field tx ''contractAddress'') ` set txs
           \<and> (distinct (map fst acc) \<longrightarrow> distinct (map fst tokens))"
  using assms
proof (induction txs arbitrary: acc)
  case Nil
  show ?case by simp
next
  case (Cons tx txs)
  then have r: "discovery_record tx" and rs: "\<forall>tx \<in> set txs. discovery_record tx"
    by simp_all
  from add_token_record[OF r] obtain c where
    a: "add_token acc tx = Inr (dict_set acc (JStr c) (field tx ''tokenSymbol''))"
    and c: "field tx ''contractAddress'' = JStr c"
    by metis
  from Cons.IH[OF rs, of "dict_set acc (JStr c) (field tx ''tokenSymbol'')"]
  show ?case
    by (auto simp: a c dict_set_map_of dict_set_keys dict_set_distinct)
qed

text \<open>
  Claim C10. \<open>get_erc20_tokens\<close> has no block argument: it sends one request, whose
  block range is 0 to 99999999, and folds every record of the answer into the
  mapping, whatever block the record is in. So the mapping has exactly the contracts
  of the records, each once, with the symbol of its last record; and the loop body
  for a block, any block, walks that same mapping. A token whose transfers all come
  after the block is found, and its balance is reconstructed and reported there.
\<close>

theorem discovery_ignores_block:
  assumes "http e (Get ETHERSCAN_API_ENDPOINT
        [(''module'', JStr ''account''), (''action'', JStr ''tokentx''),
         (''address'', JStr address), (''startblock'', JInt 0), (''endblock'', JInt 99999999),
         (''sort'', JStr ''asc''), (''apikey'', opt_json (ETHERSCAN_API_KEY cfg))] [])
       = Inr response"
    and "status_code response = 200"
    and "body response = Some (JObj kvs)"
    and "map_of kvs ''result'' = Some (JArr txs)"
    and "\<forall>tx \<in> set txs. discovery_record tx"
  shows "\<exists>tokens. get_erc20_tokens cfg e address = Inr tokens
           \<and> map_of tokens = discovered txs
           \<and> distinct (map fst tokens)
           \<and> fst ` set tokens = (\<lambda>tx. field tx ''contractAddress'') ` set txs
           \<and> (\<forall>block_number written date.
                 eth_row cfg e address block_number = (written, Inr date) \<longrightarrow>
                 block_rows cfg e address block_number =
                   (case run_all (token_rows cfg e address block_number date) tokens of
                      (evs, r) \<Rightarrow> (written @ evs, r)))"
proof -
  from for_each_add_token[OF assms(5), of "[]"] obtain tokens where
    t: "for_each add_token [] txs = Inr tokens"
    and m: "map_of tokens = discovered txs"
    and k: "fst ` set tokens = (\<lambda>tx. field tx ''contractAddress'') ` set txs"
    and d: "distinct (map fst tokens)"
    unfolding discovered_def by auto
  have g: "get_erc20_tokens cfg e address = Inr tokens"
    using assms(1-4) t
    by (simp add: get_erc20_tokens_def tokentx_all_request_def bind_err_def response_json_def)
  have "block_rows cfg e address block_number =
          (case run_all (token_rows cfg e address block_number date) tokens of
             (evs, r) \<Rightarrow> (written @ evs, r))"
    if "eth_row cfg e address block_number = (written, Inr date)" for block_number written date
    using that g by (simp add: block_rows_def)
  with g m k d show ?thesis by blast
qed


text \<open>
  In the longer history every transfer is after block 100. Both contracts are found,
  the one whose symbol changed under its last symbol, and both are reported at block
  100.
\<close>

theorem discovery_ignores_block_witness:
  "subscript first_transfer ''blockNumber'' = Inr (JStr ''150'')
   \<and> subscript late_transfer ''blockNumber'' = Inr (JStr ''200'')
   \<and> subscript renamed_transfer ''blockNumber'' = Inr (JStr ''300'')
   \<and> discovery_record first_transfer \<and> discovery_record late_transfer
   \<and> discovery_record renamed_transfer
   \<and> get_erc20_tokens ledger_config history_env ''0xAb''
       = Inr [(JStr ''0xd0'', JStr ''NEW''), (JStr ''0xc0'', JStr ''TKN'')]
   \<and> discovered [first_transfer, late_transfer, renamed_transfer] (JStr ''0xd0'') = Some (JStr ''NEW'')
   \<and> discovered [first_transfer, late_transfer, renamed_transfer] (JStr ''0xc0'') = Some (JStr ''TKN'')
   \<and> rows_of (fst (block_rows ledger_config history_env ''0xAb'' ''100'')) =
       [\<lparr>Address = ''0xAb'', Block_Number = ''100'', Balance = JFloat (Fin 2),
          Token_Ticker = JStr ''ETH'', Token_Contract = JStr ''ETH'',
          USD_Value = JFloat (Fin 4000)\<rparr>,
        \<lparr>Address = ''0xAb'', Block_Number = ''100'', Balance = JFloat (Fin 5),
          Token_Ticker = JStr ''NEW'', Token_Contract = JStr ''0xd0'',
          USD_Value = JFloat (Fin 0)\<rparr>,
        \<lparr>Address = ''0xAb'', Block_Number = ''100'', Balance = JFloat (Fin 5),
          Token_Ticker = JStr ''TKN'', Token_Contract = JStr ''0xc0'',
          USD_Value = JFloat (Fin 0)\<rparr>]"
proof -
  let ?txs = "[first_transfer, late_transfer, renamed_transfer]"
  let ?kvs = "[(''status'', JStr ''1''), (''message'', JStr ''OK''), (''result'', JArr ?txs)]"
  let ?response = "\<lparr>status_code = 200, body = Some (JObj ?kvs)\<rparr>"
  let ?found = "[(JStr ''0xd0'', JStr ''NEW''), (JStr ''0xc0'', JStr ''TKN'')]"
  let ?written = "[Print (FetchingEthBalance ''100''),
       WriteRow \<lparr>Address = ''0xAb'', Block_Number = ''100'', Balance = JFloat (Fin 2),
                  Token_Ticker = JStr ''ETH'', Token_Contract = JStr ''ETH'',
                  USD_Value = JFloat (Fin 4000)\<rparr>]"
  have b: "subscript first_transfer ''blockNumber'' = Inr (JStr ''150'')"
    "subscript late_transfer ''blockNumber'' = Inr (JStr ''200'')"
    "subscript renamed_transfer ''blockNumber'' = Inr (JStr ''300'')"
    by code_simp+
  have rec: "discovery_record first_transfer" "discovery_record late_transfer"
    "discovery_record renamed_transfer"
    by code_simp+
  have h1: "http history_env (Get ETHERSCAN_API_ENDPOINT
        [(''module'', JStr ''account''), (''action'', JStr ''tokentx''),
         (''address'', JStr ''0xAb''), (''startblock'', JInt 0), (''endblock'', JInt 99999999),
         (''sort'', JStr ''asc''), (''apikey'', opt_json (ETHERSCAN_API_KEY ledger_config))] [])
       = Inr ?response"
    by (simp add: history_env_def ok_def)
  have h2: "status_code ?response = 200" by simp
  have h3: "body ?response = Some (JObj ?kvs)" by simp
  have h4: "map_of ?kvs ''result'' = Some (JArr ?txs)" by simp
  have h5: "\<forall>tx \<in> set ?txs. discovery_record tx" using rec by simp
  have t: "get_erc20_tokens ledger_config history_env ''0xAb'' = Inr ?found"
    by code_simp
  have w: "eth_row ledger_config history_env ''0xAb'' ''100'' = (?written, Inr ''2015-07-30'')"
    by code_simp
  have r: "run_all (token_rows ledger_config history_env ''0xAb'' ''100'' ''2015-07-30'') ?found =
           ([Print (ReconstructingBalance (JStr ''NEW'') ''100''),
             Print (ErrorFetchingPrice (JStr ''NEW'') ''2015-07-30''),
             WriteRow \<lparr>Address = ''0xAb'', Block_Number = ''100'', Balance = JFloat (Fin 5),
                        Token_Ticker = JStr ''NEW'', Token_Contract = JStr ''0xd0'',
                        USD_Value = JFloat (Fin 0)\<rparr>,
             Print (ReconstructingBalance (JStr ''TKN'') ''100''),
             Print (ErrorFetchingPrice (JStr ''TKN'') ''2015-07-30''),
             WriteRow \<lparr>Address = ''0xAb'', Block_Number = ''100'', Balance = JFloat (Fin 5),
                        Token_Ticker = JStr ''TKN'', Token_Contract = JStr ''0xc0'',
                        USD_Value = JFloat (Fin 0)\<rparr>], None)"
    by code_simp
  from discovery_ignores_block[OF h1 h2 h3 h4 h5] obtain tokens where
    g: "get_erc20_tokens ledger_config history_env ''0xAb'' = Inr tokens"
    and m: "map_of tokens = discovered ?txs"
    and br: "\<forall>block_number written date.
                 eth_row ledger_config history_env ''0xAb'' block_number = (written, Inr date) \<longrightarrow>
                 block_rows ledger_config history_env ''0xAb'' block_number =
                   (case run_all (token_rows ledger_config history_env ''0xAb'' block_number date) tokens of
                      (evs, r) \<Rightarrow> (written @ evs, r))"
    by blast
  from g t have tk: "tokens = ?found" by simp
  from m tk have d: "discovered ?txs (JStr ''0xd0'') = Some (JStr ''NEW'')"
    "discovered ?txs (JStr ''0xc0'') = Some (JStr ''TKN'')"
    by (simp_all add: fun_eq_iff[symmetric] flip: m)
  from br w have "block_rows ledger_config history_env ''0xAb'' ''100'' =
                   (case run_all (token_rows ledger_config history_env ''0xAb'' ''100'' ''2015-07-30'') tokens of
                      (evs, r) \<Rightarrow> (?written @ evs, r))"
    by blast
  then have "rows_of (fst (block_rows ledger_config history_env ''0xAb'' ''100'')) =
       [\<lparr>Address = ''0xAb'', Block_Number = ''100'', Balance = JFloat (Fin 2),
          Token_Ticker = JStr ''ETH'', Token_Contract = JStr ''ETH'',
          USD_Value = JFloat (Fin 4000)\<rparr>,
        \<lparr>Address = ''0xAb'', Block_Number = ''100'', Balance = JFloat (Fin 5),
          Token_Ticker = JStr ''NEW'', Token_Contract = JStr ''0xd0'',
          USD_Value = JFloat (Fin 0)\<rparr>,
        \<lparr>Address = ''0xAb'', Block_Number = ''100'', Balance = JFloat (Fin 5),
          Token_Ticker = JStr ''TKN'', Token_Contract = JStr ''0xc0'',
          USD_Value = JFloat (Fin 0)\<rparr>]"
    by (simp only: tk r prod.case fst_conv) simp
  with b rec t d show ?thesis by simp
qed



subsection \<open>Rounding to binary64\<close>

lemma bit_length_bounds:
  "0 < n \<Longrightarrow> 2 ^ nat (bit_length n - 1) \<le> n \<and> n < 2 ^ nat (bit_length n) \<and> 1 \<le> bit_length n"
proof (induction n rule: bit_length.induct)
  case (1 n)
  show ?case
  proof (cases "n = 1")
    case True
    then show ?thesis by (simp add: bit_length.simps[of 1] bit_length.simps[of 0])
  next
    case False
    with 1(2) have h: "0 < n div 2" by simp
    from 1(1) 1(2) h have ih: "2 ^ nat (bit_length (n div 2) - 1) \<le> n div 2"
      "n div 2 < 2 ^ nat (bit_length (n div 2))" "1 \<le> bit_length (n div 2)"
      by simp_all
    have bl: "bit_length n = 1 + bit_length (n div 2)"
      using 1(2) by (simp add: bit_length.simps[of n])
    have e1: "nat (bit_length n - 1) = Suc (nat (bit_length (n div 2) - 1))"
      using bl ih(3) by simp
    have e2: "nat (bit_length n) = Suc (nat (bit_length (n div 2)))"
      using bl ih(3) by simp
    from ih(1) have "2 * 2 ^ nat (bit_length (n div 2) - 1) \<le> n" by linarith
    then have a: "2 ^ nat (bit_length n - 1) \<le> n" by (simp add: e1)
    from ih(2) have "n < 2 * 2 ^ nat (bit_length (n div 2))" by linarith
    then have b: "n < 2 ^ nat (bit_length n)" by (simp add: e2)
    from bl ih(3) have "1 \<le> bit_length n" by simp
    with a b show ?thesis by blast
  qed
qed

lemma pow2_powi: "pow2 k = 2 powi k"
  by (simp add: pow2_def power_int_def field_simps)

lemma pow2_pos [simp]: "0 < pow2 k"
  by (simp add: pow2_powi)

lemma pow2_nz: "pow2 k \<noteq> 0"
  by (simp add: pow2_powi)

lemma pow2_add: "pow2 (i + j) = pow2 i * pow2 j"
  by (simp add: pow2_powi power_int_add)

lemma scale2_ratio:
  "0 < d \<Longrightarrow> scale2 a d k = (x, y) \<Longrightarrow> 0 < y \<and> of_int x / of_int y = (of_int a / of_int d :: rat) / pow2 k"
  by (auto simp: scale2_def pow2_def split: if_splits)


lemma pow2_diff: "pow2 (i - j) = pow2 i / pow2 j"
  by (simp add: pow2_powi power_int_diff)

lemma pow2_nat: "0 \<le> j \<Longrightarrow> (of_int (2 ^ nat j) :: rat) = pow2 j"
  by (simp add: pow2_def)

lemma pow2_less_iff: "pow2 i < pow2 j \<longleftrightarrow> i < j"
proof
  assume "pow2 i < pow2 j"
  show "i < j"
  proof (rule ccontr)
    assume "\<not> i < j"
    then have "pow2 j \<le> pow2 i"
      by (simp add: pow2_powi power_int_increasing)
    with \<open>pow2 i < pow2 j\<close> show False by simp
  qed
next
  assume "i < j"
  then show "pow2 i < pow2 j"
    by (simp add: pow2_powi power_int_strict_increasing)
qed

lemma pow2_le_iff: "pow2 i \<le> pow2 j \<longleftrightarrow> i \<le> j"
  using pow2_less_iff[of j i] by (auto simp: not_less[symmetric])

lemma bit_length_rat:
  assumes "0 < n"
  shows "pow2 (bit_length n - 1) \<le> of_int n" "(of_int n :: rat) < pow2 (bit_length n)"
proof -
  from bit_length_bounds[OF assms] have b: "2 ^ nat (bit_length n - 1) \<le> n"
    "n < 2 ^ nat (bit_length n)" "1 \<le> bit_length n"
    by simp_all
  have "(of_int (2 ^ nat (bit_length n - 1)) :: rat) \<le> of_int n"
    using b(1) by (rule iffD2[OF of_int_le_iff])
  then have "(2::rat) ^ nat (bit_length n - 1) \<le> of_int n"
    by simp
  with b(3) show "pow2 (bit_length n - 1) \<le> of_int n"
    by (simp add: pow2_def)
  have "(of_int n :: rat) < of_int (2 ^ nat (bit_length n))"
    using b(2) by (rule iffD2[OF of_int_less_iff])
  then have "(of_int n :: rat) < 2 ^ nat (bit_length n)"
    by simp
  with b(3) show "(of_int n :: rat) < pow2 (bit_length n)"
    by (simp add: pow2_def)
qed

lemma floor_log2_bounds:
  assumes a: "0 < a" and d: "0 < d"
  shows "pow2 (floor_log2 a d) \<le> of_int a / of_int d"
    and "(of_int a / of_int d :: rat) < pow2 (floor_log2 a d + 1)"
proof -
  define A D :: rat where "A = of_int a" and "D = of_int d"
  define k where "k = bit_length a - bit_length d"
  have A: "0 < A" and D: "0 < D" using a d by (simp_all add: A_def D_def)
  note ba = bit_length_rat[OF a, folded A_def] and bd = bit_length_rat[OF d, folded D_def]
  have up: "A / D < pow2 (k + 1)"
  proof -
    have "A / D < pow2 (bit_length a) / D"
      using ba(2) D by (simp add: divide_strict_right_mono)
    also have "\<dots> \<le> pow2 (bit_length a) / pow2 (bit_length d - 1)"
      using bd(1) D by (intro divide_left_mono) (simp_all add: less_imp_le)
    also have "\<dots> = pow2 (k + 1)"
      by (simp add: pow2_diff[symmetric] k_def algebra_simps)
    finally show ?thesis .
  qed
  have lo: "pow2 (k - 1) < A / D"
  proof -
    have "pow2 (k - 1) = pow2 (bit_length a - 1) / pow2 (bit_length d)"
      by (simp add: pow2_diff[symmetric] k_def algebra_simps)
    also have "\<dots> < pow2 (bit_length a - 1) / D"
      using bd(2) D by (intro divide_strict_left_mono) simp_all
    also have "\<dots> \<le> A / D"
      using ba(1) D by (simp add: divide_right_mono)
    finally show ?thesis .
  qed
  obtain x y where xy: "scale2 a d k = (x, y)" by (cases "scale2 a d k")
  from scale2_ratio[OF d xy] have y: "0 < y"
    and r: "of_int x / of_int y = A / D / pow2 k"
    by (simp_all add: A_def D_def)
  have fl: "floor_log2 a d = (if y \<le> x then k else k - 1)"
    using xy by (simp add: floor_log2_def k_def)
  have iff: "y \<le> x \<longleftrightarrow> pow2 k \<le> A / D"
  proof -
    have "y \<le> x \<longleftrightarrow> (1::rat) \<le> of_int x / of_int y"
      using y by (simp add: pos_le_divide_eq)
    also have "\<dots> \<longleftrightarrow> pow2 k \<le> A / D"
      unfolding r using pos_le_divide_eq[where c = "pow2 k" and a = 1 and b = "A / D"] by simp
    finally show ?thesis .
  qed
  show "pow2 (floor_log2 a d) \<le> of_int a / of_int d"
    using lo iff by (auto simp: fl A_def D_def)
  show "(of_int a / of_int d :: rat) < pow2 (floor_log2 a d + 1)"
    using up iff by (auto simp: fl A_def D_def)
qed

lemma div_half_even_error:
  assumes "0 < y"
  shows "\<bar>of_int (div_half_even x y) - (of_int x / of_int y :: rat)\<bar> \<le> 1 / 2"
proof -
  define q r where "q = x div y" and "r = x mod y"
  have x: "x = q * y + r" by (simp add: q_def r_def)
  have r: "0 \<le> r" "r < y" using assms by (simp_all add: r_def)
  have Y: "(0::rat) < of_int y" using assms by simp
  have frac: "(of_int x / of_int y :: rat) = of_int q + of_int r / of_int y"
    using Y by (simp add: x field_simps)
  have r0: "(0::rat) \<le> of_int r / of_int y" using r(1) Y by simp
  have half: "2 * r \<le> y \<longleftrightarrow> (of_int r / of_int y :: rat) \<le> 1 / 2"
  proof -
    have "(of_int r / of_int y :: rat) \<le> 1 / 2 \<longleftrightarrow> (of_int (2 * r) :: rat) \<le> of_int y"
      using Y by (simp add: field_simps)
    also have "\<dots> \<longleftrightarrow> 2 * r \<le> y" by (simp only: of_int_le_iff)
    finally show ?thesis by simp
  qed
  have half': "y \<le> 2 * r \<longleftrightarrow> 1 / 2 \<le> (of_int r / of_int y :: rat)"
  proof -
    have "1 / 2 \<le> (of_int r / of_int y :: rat) \<longleftrightarrow> (of_int y :: rat) \<le> of_int (2 * r)"
      using Y by (simp add: field_simps)
    also have "\<dots> \<longleftrightarrow> y \<le> 2 * r" by (simp only: of_int_le_iff)
    finally show ?thesis by simp
  qed
  have r1: "(of_int r / of_int y :: rat) < 1" using r(2) Y by simp
  consider "2 * r < y" | "y < 2 * r" | "2 * r = y" by linarith
  then show ?thesis
  proof cases
    case 1
    then have "div_half_even x y = q" by (simp add: div_half_even_def q_def r_def Let_def)
    moreover from 1 half have "(of_int r / of_int y :: rat) \<le> 1 / 2" by simp
    ultimately show ?thesis using r0 by (simp add: frac)
  next
    case 2
    then have "div_half_even x y = q + 1" by (simp add: div_half_even_def q_def r_def Let_def)
    moreover from 2 half' have "1 / 2 \<le> (of_int r / of_int y :: rat)" by simp
    ultimately show ?thesis using r1 by (simp add: frac abs_if)
  next
    case 3
    then have m: "div_half_even x y = q \<or> div_half_even x y = q + 1"
      by (simp add: div_half_even_def q_def r_def Let_def)
    from 3 half half' have "(of_int r / of_int y :: rat) = 1 / 2" by simp
    with frac have e: "(of_int x / of_int y :: rat) = of_int q + 1 / 2" by simp
    from m show ?thesis
    proof
      assume "div_half_even x y = q"
      then show ?thesis unfolding e by simp
    next
      assume "div_half_even x y = q + 1"
      then show ?thesis unfolding e by simp
    qed
  qed
qed

lemma round_ratio_error:
  assumes a: "0 < a" and d: "0 < d" and rr: "round_ratio a d = (m, p)"
  shows "p = max (floor_log2 a d - 52) (- 1074)"
    and "\<bar>of_int m * pow2 p - (of_int a / of_int d :: rat)\<bar> \<le> pow2 p / 2"
proof -
  show p: "p = max (floor_log2 a d - 52) (- 1074)"
    using rr by (auto simp: round_ratio_def Let_def split: prod.splits)
  obtain x y where xy: "scale2 a d p = (x, y)" by (cases "scale2 a d p")
  with rr p have m: "m = div_half_even x y"
    by (auto simp: round_ratio_def Let_def split: prod.splits)
  from scale2_ratio[OF d xy] have y: "0 < y"
    and r: "of_int x / of_int y = (of_int a / of_int d :: rat) / pow2 p"
    by simp_all
  from div_half_even_error[OF y, of x]
  have "\<bar>of_int m - (of_int a / of_int d :: rat) / pow2 p\<bar> \<le> 1 / 2"
    by (simp add: m r)
  then have le: "\<bar>of_int m - (of_int a / of_int d :: rat) / pow2 p\<bar> * pow2 p \<le> 1 / 2 * pow2 p"
    by (intro mult_right_mono) (simp_all add: less_imp_le)
  have eq: "\<bar>of_int m - (of_int a / of_int d :: rat) / pow2 p\<bar> * pow2 p
      = \<bar>of_int m * pow2 p - (of_int a / of_int d :: rat)\<bar>"
  proof -
    have "\<bar>of_int m - (of_int a / of_int d :: rat) / pow2 p\<bar> * pow2 p
        = \<bar>(of_int m - (of_int a / of_int d :: rat) / pow2 p) * pow2 p\<bar>"
      by (simp add: abs_mult less_imp_le)
    also have "(of_int m - (of_int a / of_int d :: rat) / pow2 p) * pow2 p
        = of_int m * pow2 p - of_int a / of_int d"
    proof -
      show ?thesis by (simp add: left_diff_distrib pow2_nz)
    qed
    finally show ?thesis .
  qed
  have "\<bar>of_int m * pow2 p - (of_int a / of_int d :: rat)\<bar>
      = \<bar>of_int m - (of_int a / of_int d :: rat) / pow2 p\<bar> * pow2 p"
    by (rule eq[symmetric])
  also note le
  also have "1 / 2 * pow2 p = pow2 p / 2" by simp
  finally show "\<bar>of_int m * pow2 p - (of_int a / of_int d :: rat)\<bar> \<le> pow2 p / 2" .
qed


lemma abs_scale:
  fixes c :: rat
  assumes "0 < c"
  shows "\<bar>u - v / c\<bar> * c = \<bar>u * c - v\<bar>"
proof -
  have "\<bar>u - v / c\<bar> * c = \<bar>u - v / c\<bar> * \<bar>c\<bar>"
    using assms by simp
  also have "\<dots> = \<bar>(u - v / c) * c\<bar>"
    by (simp only: abs_mult)
  also have "(u - v / c) * c = u * c - v"
    using assms by (simp add: left_diff_distrib)
  finally show ?thesis .
qed

lemma py_truediv_error:
  assumes a: "0 < a" and b: "0 < b" and e: "- 1022 \<le> floor_log2 a b"
    and r: "py_truediv a b = Inr (Fin x)"
  shows "\<bar>x - of_int a / of_int b\<bar> \<le> (of_int a / of_int b) / 2 ^ 53"
proof -
  obtain m p where mp: "round_ratio a b = (m, p)" by (cases "round_ratio a b")
  from r a b mp have x: "x = of_int m * pow2 p"
    by (simp add: py_truediv_def Let_def double_val_def split: if_splits)
  from round_ratio_error[OF a b mp] e have p: "p = floor_log2 a b - 52"
    and err: "\<bar>of_int m * pow2 p - (of_int a / of_int b :: rat)\<bar> \<le> pow2 p / 2"
    by simp_all
  have p52: "pow2 52 = 2 ^ 52" by (simp add: pow2_def)
  have "pow2 p = pow2 (floor_log2 a b) / 2 ^ 52"
    unfolding p pow2_diff p52 by (rule refl)
  also have "\<dots> \<le> (of_int a / of_int b) / 2 ^ 52"
    using floor_log2_bounds(1)[OF a b] by (simp add: divide_right_mono)
  finally have "pow2 p / 2 \<le> (of_int a / of_int b) / 2 ^ 52 / 2"
    by (simp add: divide_right_mono)
  also have "\<dots> = (of_int a / of_int b) / 2 ^ 53" by simp
  finally show ?thesis using err by (simp add: x)
qed

lemma py_truediv_returns:
  assumes a: "0 < a" and b: "0 < b" and lt: "(of_int a / of_int b :: rat) < 2 ^ 1023"
  shows "\<exists>x. py_truediv a b = Inr (Fin x)"
proof -
  obtain m p where mp: "round_ratio a b = (m, p)" by (cases "round_ratio a b")
  have "pow2 (floor_log2 a b) \<le> of_int a / of_int b"
    by (rule floor_log2_bounds(1)[OF a b])
  also note lt
  also have "(2::rat) ^ 1023 = pow2 1023" by (simp add: pow2_def)
  finally have "floor_log2 a b < 1023" by (simp only: pow2_less_iff)
  with round_ratio_error(1)[OF a b mp] have "p < 971" by simp
  with a b mp show ?thesis
    by (simp add: py_truediv_def Let_def double_overflow_def)
qed

lemma floor_log2_wei:
  assumes "0 < raw"
  shows "- 1022 \<le> floor_log2 raw (10 ^ 18)"
proof -
  have "pow2 (- 60) \<le> 1 / 10 ^ 18" by (simp add: pow2_def)
  also have "\<dots> \<le> of_int raw / (10 ^ 18 :: rat)"
    using assms by (simp add: divide_right_mono)
  also have "\<dots> < pow2 (floor_log2 raw (10 ^ 18) + 1)"
    using floor_log2_bounds(2)[OF assms, of "10 ^ 18"] by simp
  finally have "- 60 < floor_log2 raw (10 ^ 18) + 1" by (simp only: pow2_less_iff)
  then show ?thesis by simp
qed

lemma round_half_even_near:
  assumes "\<bar>q - of_int n\<bar> < 1 / 2"
  shows "round_half_even q = n"
proof -
  obtain nn dd where qd: "quotient_of q = (nn, dd)" by (cases "quotient_of q")
  then have dd: "0 < dd" and q: "q = of_int nn / of_int dd"
    by (simp_all add: quotient_of_denom_pos quotient_of_div)
  from div_half_even_error[OF dd, of nn]
  have "\<bar>of_int (div_half_even nn dd) - q\<bar> \<le> 1 / 2" by (simp add: q)
  with assms have "\<bar>(of_int (div_half_even nn dd) :: rat) - of_int n\<bar> < 1"
    by linarith
  then have "\<bar>(of_int (div_half_even nn dd - n) :: rat)\<bar> < of_int 1"
    by simp
  then have "\<bar>div_half_even nn dd - n\<bar> < 1"
    by (simp only: of_int_abs[symmetric] of_int_less_iff)
  then show ?thesis by (simp add: round_half_even_def qd)
qed

lemma truediv_zero_wei: "py_truediv 0 1000000000000000000 = Inr (Fin 0)"
  by code_simp

lemma float_of_wei_unit: "float_of_int 1000000000000000000 = Inr (Fin 1000000000000000000)"
  by code_simp

lemma round_double_zero: "round_double 0 = Fin 0"
  by code_simp

lemma round_double_error:
  assumes pos: "0 < v" and lo: "pow2 (- 1022) \<le> v" and hi: "v < 2 ^ 1023"
  shows "\<exists>y. round_double v = Fin y \<and> \<bar>y - v\<bar> \<le> v / 2 ^ 53"
proof -
  obtain n d where qd: "quotient_of v = (n, d)" by (cases "quotient_of v")
  then have d: "0 < d" and v: "v = of_int n / of_int d"
    by (simp_all add: quotient_of_denom_pos quotient_of_div)
  from pos v d have n: "0 < n"
    by (simp add: zero_less_divide_iff)
  from hi v have "(of_int n / of_int d :: rat) < 2 ^ 1023" by simp
  from py_truediv_returns[OF n d this] obtain x where x: "py_truediv n d = Inr (Fin x)" ..
  have "pow2 (- 1022) \<le> of_int n / of_int d" using lo v by simp
  also have "\<dots> < pow2 (floor_log2 n d + 1)"
    by (rule floor_log2_bounds(2)[OF n d])
  finally have "- 1022 < floor_log2 n d + 1" by (simp only: pow2_less_iff)
  then have e: "- 1022 \<le> floor_log2 n d" by simp
  from py_truediv_error[OF n d e x] v have err: "\<bar>x - v\<bar> \<le> v / 2 ^ 53" by simp
  from x n d have "\<not> double_overflow (round_ratio n d)" "x = double_val (round_ratio n d)"
    by (simp_all add: py_truediv_def Let_def split: if_splits)
  with pos qd have "round_double v = Fin x"
    by (simp add: round_double_def Let_def)
  with err show ?thesis by blast
qed


lemma wei_round_trip:
  assumes pos: "0 < raw" and small: "raw < 2 ^ 51"
    and err: "\<bar>x * 10 ^ 18 - of_int raw\<bar> \<le> of_int raw / 2 ^ 53"
  shows "\<exists>y. py_mul (JFloat (Fin x)) (JInt (10 ^ 18)) = Inr (JFloat (Fin y))
             \<and> py_round (Fin y) = Inr raw"
proof -
  define R :: rat where "R = of_int raw"
  define v :: rat where "v = 10 ^ 18 * x"
  from pos have "1 \<le> raw" by simp
  then have R1: "1 \<le> R" unfolding R_def by (simp only: of_int_1_le_iff)
  from small have "raw \<le> 2 ^ 51 - 1" by simp
  then have "(of_int raw :: rat) \<le> of_int (2 ^ 51 - 1)" by (simp only: of_int_le_iff)
  then have R2: "R \<le> 2251799813685247" unfolding R_def by simp
  from err have verr: "\<bar>v - R\<bar> \<le> R / 9007199254740992"
    unfolding v_def R_def by (simp add: mult.commute)
  from verr R1 have vpos: "0 < v" and vhalf: "1 / 2 \<le> v" by linarith+
  have "pow2 (- 1022) \<le> pow2 (- 1)" by (simp only: pow2_le_iff)
  also have "pow2 (- 1) = 1 / 2" by (simp add: pow2_def)
  finally have lo: "pow2 (- 1022) \<le> v" using vhalf by simp
  from verr R2 have "v < 9007199254740992" by linarith
  also have "(9007199254740992 :: rat) = 2 ^ 53" by simp
  also have "(2 :: rat) ^ 53 < 2 ^ 1023" by (rule power_strict_increasing) simp_all
  finally have hi: "v < 2 ^ 1023" .
  from round_double_error[OF vpos lo hi] obtain y where y: "round_double v = Fin y"
    and yerr: "\<bar>y - v\<bar> \<le> v / 2 ^ 53" by blast
  from yerr have yerr': "\<bar>y - v\<bar> \<le> v / 9007199254740992" by simp
  from verr yerr' R1 R2 have "\<bar>y - R\<bar> < 1 / 2" by linarith
  then have "round_half_even y = raw" unfolding R_def by (rule round_half_even_near)
  moreover have "py_mul (JFloat (Fin x)) (JInt (10 ^ 18)) = Inr (JFloat (Fin y))"
    using y by (simp add: py_mul_def int_times_def float_of_wei_unit bind_err_def v_def)
  ultimately show ?thesis by simp
qed

lemma nearest_multiple:
  fixes q :: rat
  assumes "\<bar>of_int m * pow2 p - q\<bar> \<le> pow2 p / 2"
  shows "\<bar>of_int m * pow2 p - q\<bar> \<le> \<bar>of_int k * pow2 p - q\<bar>"
proof (cases "k = m")
  case True
  then show ?thesis by simp
next
  case False
  then have "1 \<le> \<bar>k - m\<bar>" by simp
  then have "(1 :: rat) \<le> of_int \<bar>k - m\<bar>" by (simp only: of_int_1_le_iff)
  then have "1 * pow2 p \<le> \<bar>of_int k - of_int m :: rat\<bar> * pow2 p"
    by (intro mult_right_mono) (simp_all add: less_imp_le)
  also have "\<dots> = \<bar>(of_int k - of_int m) * pow2 p\<bar>"
    by (simp add: abs_mult less_imp_le)
  also have "(of_int k - of_int m) * pow2 p = of_int k * pow2 p - of_int m * pow2 p"
    by (simp add: left_diff_distrib)
  finally have "pow2 p \<le> \<bar>of_int k * pow2 p - of_int m * pow2 p\<bar>" by simp
  with assms show ?thesis by linarith
qed

lemma round_ratio_nearest:
  assumes a: "0 < a" and d: "0 < d" and rr: "round_ratio a d = (m, p)"
    and k: "\<bar>k\<bar> < 2 ^ 53" and j: "- 1074 \<le> j"
  shows "\<bar>of_int m * pow2 p - (of_int a / of_int d :: rat)\<bar>
           \<le> \<bar>of_int k * pow2 j - of_int a / of_int d\<bar>"
proof -
  let ?q = "of_int a / of_int d :: rat"
  note p = round_ratio_error(1)[OF a d rr]
  note err = round_ratio_error(2)[OF a d rr]
  show ?thesis
  proof (cases "p \<le> j")
    case True
    then have "pow2 j = pow2 (j - p) * pow2 p"
      using pow2_add[of "j - p" p] by simp
    also from True have "pow2 (j - p) = 2 ^ nat (j - p)"
      by (simp add: pow2_def)
    finally have h: "pow2 j = 2 ^ nat (j - p) * pow2 p" .
    have e: "of_int k * pow2 j = of_int (k * 2 ^ nat (j - p)) * pow2 p"
      unfolding h by (simp only: of_int_mult of_int_power of_int_numeral mult.assoc)
    show ?thesis unfolding e by (rule nearest_multiple[OF err])
  next
    case False
    with p j have pe: "p = floor_log2 a d - 52" and jp: "j + 1 \<le> p" by simp_all
    have "of_int k * pow2 j \<le> \<bar>of_int k :: rat\<bar> * pow2 j"
      by (intro mult_right_mono) (simp_all add: less_imp_le)
    also have "\<dots> < 2 ^ 53 * pow2 j"
    proof (intro mult_strict_right_mono)
      from k have "(of_int \<bar>k\<bar> :: rat) < of_int (2 ^ 53)" by (simp only: of_int_less_iff)
      then show "\<bar>of_int k :: rat\<bar> < 2 ^ 53" by simp
    qed simp
    also have "(2 :: rat) ^ 53 = pow2 53" by (simp add: pow2_def)
    also have "pow2 53 * pow2 j = pow2 (53 + j)" by (simp only: pow2_add)
    also have "\<dots> \<le> pow2 (floor_log2 a d)"
      using jp pe by (simp only: pow2_le_iff)
    finally have z: "of_int k * pow2 j < pow2 (floor_log2 a d)" .
    have fl: "pow2 (floor_log2 a d) \<le> ?q"
      by (rule floor_log2_bounds(1)[OF a d])
    have "pow2 (floor_log2 a d) = pow2 52 * pow2 p"
      unfolding pe by (simp only: pow2_add[symmetric]) simp
    also have "pow2 52 = of_int (2 ^ nat 52)" by (simp add: pow2_def)
    finally have "pow2 (floor_log2 a d) = of_int (2 ^ nat 52) * pow2 p" .
    with nearest_multiple[OF err, of "2 ^ nat 52"]
    have "\<bar>of_int m * pow2 p - ?q\<bar> \<le> \<bar>pow2 (floor_log2 a d) - ?q\<bar>" by simp
    with z fl show ?thesis by linarith
  qed
qed

lemma round_ratio_mantissa:
  assumes a: "0 < a" and d: "0 < d" and rr: "round_ratio a d = (m, p)"
  shows "0 \<le> m" and "m \<le> 2 ^ 53"
proof -
  let ?q = "of_int a / of_int d :: rat"
  note p = round_ratio_error(1)[OF a d rr]
  note err = round_ratio_error(2)[OF a d rr]
  have q0: "0 < ?q" using a d by simp
  have "?q < pow2 (floor_log2 a d + 1)" by (rule floor_log2_bounds(2)[OF a d])
  also have "\<dots> \<le> pow2 (p + 53)" using p by (simp only: pow2_le_iff)
  also have "\<dots> = pow2 p * pow2 53" by (simp only: pow2_add)
  also have "pow2 53 = 2 ^ 53" by (simp add: pow2_def)
  finally have qlt: "?q < pow2 p * 2 ^ 53" .
  have pp: "0 < pow2 p" by simp
  from err have "of_int m * pow2 p \<le> ?q + pow2 p / 2" "?q - pow2 p / 2 \<le> of_int m * pow2 p"
    by linarith+
  with qlt q0 have "of_int m * pow2 p < pow2 p * 2 ^ 53 + pow2 p / 2"
    "- (pow2 p / 2) < of_int m * pow2 p" by linarith+
  then have "of_int m * pow2 p < (2 ^ 53 + 1 / 2) * pow2 p" "(- (1 / 2)) * pow2 p < of_int m * pow2 p"
    by (simp_all add: algebra_simps)
  then have "(of_int m :: rat) < 2 ^ 53 + 1 / 2" "- (1 / 2) < (of_int m :: rat)"
    using pp by (simp_all only: mult_less_cancel_right_pos)
  then have "(of_int m :: rat) < of_int (2 ^ 53 + 1)" "(of_int (- 1) :: rat) < of_int m"
    by simp_all
  then have "m < 2 ^ 53 + 1" "- 1 < m" by (simp_all only: of_int_less_iff)
  then show "0 \<le> m" and "m \<le> 2 ^ 53" by simp_all
qed

lemma py_truediv_parts:
  assumes a: "0 < a" and b: "0 < b" and r: "py_truediv a b = Inr (Fin x)"
  obtains m p where "round_ratio a b = (m, p)" "x = of_int m * pow2 p"
    "\<not> double_overflow (m, p)"
proof -
  obtain m p where mp: "round_ratio a b = (m, p)" by (cases "round_ratio a b")
  from r a b mp have "x = of_int m * pow2 p" "\<not> double_overflow (m, p)"
    by (simp_all add: py_truediv_def Let_def double_val_def split: if_splits)
  with mp show ?thesis by (rule that)
qed

lemma py_truediv_nearest:
  assumes a: "0 < a" and b: "0 < b" and r: "py_truediv a b = Inr (Fin x)"
    and k: "\<bar>k\<bar> < 2 ^ 53" and j: "- 1074 \<le> j"
  shows "\<bar>x - of_int a / of_int b\<bar> \<le> \<bar>of_int k * pow2 j - of_int a / of_int b\<bar>"
proof -
  from a b r obtain m p where mp: "round_ratio a b = (m, p)" and x: "x = of_int m * pow2 p"
    by (rule py_truediv_parts)
  from round_ratio_nearest[OF a b mp k j] show ?thesis unfolding x .
qed

lemma py_truediv_double:
  assumes a: "0 < a" and b: "0 < b" and r: "py_truediv a b = Inr (Fin x)"
  shows "\<exists>k j. \<bar>k\<bar> < 2 ^ 53 \<and> - 1074 \<le> j \<and> j \<le> 971 \<and> x = of_int k * pow2 j"
proof -
  from a b r obtain m p where mp: "round_ratio a b = (m, p)" and x: "x = of_int m * pow2 p"
    and ov: "\<not> double_overflow (m, p)"
    by (rule py_truediv_parts)
  from round_ratio_error(1)[OF a b mp] have p: "- 1074 \<le> p" by simp
  from ov have p2: "p \<le> 971" and top: "p = 971 \<longrightarrow> m < 2 ^ 53"
    by (auto simp: double_overflow_def)
  note m = round_ratio_mantissa[OF a b mp]
  show ?thesis
  proof (cases "m < 2 ^ 53")
    case True
    with m(1) have "\<bar>m\<bar> < 2 ^ 53" by simp
    with p p2 x show ?thesis by blast
  next
    case False
    with m(2) have m53: "m = 2 ^ 53" by simp
    with top p2 have p3: "p + 1 \<le> 971" by simp
    have "pow2 (p + 1) = pow2 p * pow2 1" by (simp only: pow2_add)
    also have "pow2 1 = 2" by (simp add: pow2_def)
    finally have "of_int (2 ^ 52) * pow2 (p + 1) = x"
      unfolding x m53 by simp
    moreover have "\<bar>2 ^ 52 :: int\<bar> < 2 ^ 53" by simp
    moreover from p have "- 1074 \<le> p + 1" by simp
    ultimately show ?thesis using p3 by metis
  qed
qed

text \<open>
  Claim C7, as amended. For every hexadecimal result string whose value \<open>raw\<close> is a
  balance the chain can hold (\<open>0 \<le> raw < 2^256\<close>), \<open>get_eth_balance\<close> returns a
  float \<open>x\<close>. It is a binary64 number (a mantissa below \<open>2^53\<close> times a power of two
  from \<open>2^-1074\<close> to \<open>2^971\<close>), and no number of that form is nearer to
  \<open>raw / 10^18\<close>; so \<open>x * 10^18\<close>, taken exactly, differs from \<open>raw\<close> by at most
  \<open>raw / 2^53\<close>. Whenever \<open>raw < 2^51\<close>, Python's float product
  \<^verbatim>\<open>x * 10**18\<close> passed to \<^verbatim>\<open>round\<close> gives \<open>raw\<close> back.
\<close>

theorem eth_balance_scaling:
  assumes "http e (eth_balance_request cfg address n) = Inr response"
    and "body response = Some (JObj kvs)"
    and "map_of kvs ''result'' = Some (JStr h)"
    and "int_of_str 16 h = Inr raw"
    and "0 \<le> raw" and "raw < 2 ^ 256"
  shows "\<exists>x. get_eth_balance cfg e address (py_str_int n) = (Inr (JFloat (Fin x)), [])
             \<and> (\<exists>k j. \<bar>k\<bar> < 2 ^ 53 \<and> - 1074 \<le> j \<and> j \<le> 971 \<and> x = of_int k * pow2 j)
             \<and> (\<forall>k j. \<bar>k\<bar> < 2 ^ 53 \<and> - 1074 \<le> j \<longrightarrow>
                    \<bar>x - of_int raw / 10 ^ 18\<bar> \<le> \<bar>of_int k * pow2 j - of_int raw / 10 ^ 18\<bar>)
             \<and> \<bar>x * 10 ^ 18 - of_int raw\<bar> \<le> of_int raw / 2 ^ 53
             \<and> (raw < 2 ^ 51 \<longrightarrow>
                  (\<exists>y. py_mul (JFloat (Fin x)) (JInt (10 ^ 18)) = Inr (JFloat (Fin y))
                        \<and> py_round (Fin y) = Inr raw))"
proof -
  have hne: "h \<noteq> []"
    using assms(4) by (auto simp: int_of_str_def strip_sign_def strip_prefix16_def)
  have g: "get_eth_balance cfg e address (py_str_int n) =
      (bind_err (py_truediv raw (10 ^ 18)) (\<lambda>f. Inr (JFloat f)), [])"
    using assms(1-4) hne
    by (simp add: get_eth_balance_def int_of_str_py_str_int bind_err_def response_json_def)
  show ?thesis
  proof (cases "raw = 0")
    case True
    have z: "py_mul (JFloat (Fin 0)) (JInt (10 ^ 18)) = Inr (JFloat (Fin 0))"
      by (simp add: py_mul_def int_times_def float_of_wei_unit bind_err_def round_double_zero)
    have r0: "py_round (Fin 0) = Inr 0"
      by (simp add: round_half_even_def div_half_even_def)
    have d0: "\<bar>0 :: int\<bar> < 2 ^ 53 \<and> - 1074 \<le> (0 :: int) \<and> (0 :: int) \<le> 971
              \<and> (0 :: rat) = of_int 0 * pow2 0"
      by simp
    have "get_eth_balance cfg e address (py_str_int n) = (Inr (JFloat (Fin 0)), [])"
      using g True by (simp add: truediv_zero_wei bind_err_def)
    moreover have "\<exists>k j. \<bar>k\<bar> < 2 ^ 53 \<and> - 1074 \<le> j \<and> j \<le> 971 \<and> (0 :: rat) = of_int k * pow2 j"
      using d0 by blast
    ultimately show ?thesis using True z r0 by simp
  next
    case False
    with assms(5) have pos: "0 < raw" by simp
    have wpos: "(0 :: int) < 10 ^ 18" by simp
    have "(of_int raw :: rat) < 2 ^ 256"
      using assms(6) by (metis of_int_less_iff of_int_numeral of_int_power)
    then have "(of_int raw / of_int (10 ^ 18) :: rat) < 2 ^ 1023"
      by (simp add: pos_divide_less_eq) 
    from py_truediv_returns[OF pos wpos this] obtain x where x: "py_truediv raw (10 ^ 18) = Inr (Fin x)"
      by auto
    from py_truediv_error[OF pos wpos floor_log2_wei[OF pos] x]
    have "\<bar>x - of_int raw / 10 ^ 18\<bar> \<le> (of_int raw / 10 ^ 18) / 2 ^ 53"
      by simp
    then have "\<bar>x - of_int raw / 10 ^ 18\<bar> * 10 ^ 18 \<le> (of_int raw / 10 ^ 18) / 2 ^ 53 * 10 ^ 18"
      by (intro mult_right_mono) simp_all
    moreover have "\<bar>x - of_int raw / 10 ^ 18\<bar> * 10 ^ 18 = \<bar>x * 10 ^ 18 - of_int raw\<bar>"
      by (rule abs_scale) simp
    ultimately have err: "\<bar>x * 10 ^ 18 - of_int raw\<bar> \<le> of_int raw / 2 ^ 53"
      by simp
    have dbl: "\<exists>k j. \<bar>k\<bar> < 2 ^ 53 \<and> - 1074 \<le> j \<and> j \<le> 971 \<and> x = of_int k * pow2 j"
      by (rule py_truediv_double[OF pos wpos x])
    have near: "\<forall>k j. \<bar>k\<bar> < 2 ^ 53 \<and> - 1074 \<le> j \<longrightarrow>
                    \<bar>x - of_int raw / 10 ^ 18\<bar> \<le> \<bar>of_int k * pow2 j - of_int raw / 10 ^ 18\<bar>"
    proof (intro allI impI)
      fix k j :: int assume "\<bar>k\<bar> < 2 ^ 53 \<and> - 1074 \<le> j"
      then have "\<bar>k\<bar> < 2 ^ 53" "- 1074 \<le> j" by simp_all
      from py_truediv_nearest[OF pos wpos x this]
      show "\<bar>x - of_int raw / 10 ^ 18\<bar> \<le> \<bar>of_int k * pow2 j - of_int raw / 10 ^ 18\<bar>"
        by simp
    qed
    have trip: "raw < 2 ^ 51 \<longrightarrow>
                  (\<exists>y. py_mul (JFloat (Fin x)) (JInt (10 ^ 18)) = Inr (JFloat (Fin y))
                        \<and> py_round (Fin y) = Inr raw)"
    proof
      assume "raw < 2 ^ 51"
      from wei_round_trip[OF pos this err]
      show "\<exists>y. py_mul (JFloat (Fin x)) (JInt (10 ^ 18)) = Inr (JFloat (Fin y))
                        \<and> py_round (Fin y) = Inr raw" .
    qed
    have "get_eth_balance cfg e address (py_str_int n) = (Inr (JFloat (Fin x)), [])"
      using g x by (simp add: bind_err_def)
    with dbl near err trip show ?thesis by blast
  qed
qed

theorem eth_balance_scaling_witness:
  "int_of_str 16 ''0x38d7ea4c68000'' = Inr 1000000000000000
   \<and> (\<exists>x y. get_eth_balance example_config (wei_env ''0x38d7ea4c68000'') ''0xAb'' ''100''
             = (Inr (JFloat (Fin x)), [])
          \<and> py_mul (JFloat (Fin x)) (JInt (10 ^ 18)) = Inr (JFloat (Fin y))
          \<and> py_round (Fin y) = Inr 1000000000000000)"
proof -
  let ?kvs = "[(''jsonrpc'', JStr ''2.0''), (''id'', JInt 1), (''result'', JStr ''0x38d7ea4c68000'')]"
  let ?r = "\<lparr>status_code = 200, body = Some (JObj ?kvs)\<rparr>"
  have s: "py_str_int 100 = ''100''"
    by code_simp
  have h1: "http (wei_env ''0x38d7ea4c68000'') (eth_balance_request example_config ''0xAb'' 100) = Inr ?r"
    by (simp add: wei_env_def)
  have h2: "body ?r = Some (JObj ?kvs)"
    by simp
  have h3: "map_of ?kvs ''result'' = Some (JStr ''0x38d7ea4c68000'')"
    by simp
  have h4: "int_of_str 16 ''0x38d7ea4c68000'' = Inr 1000000000000000"
    by code_simp
  have h5: "(0::int) \<le> 1000000000000000" "(1000000000000000::int) < 2 ^ 256"
    "(1000000000000000::int) < 2 ^ 51"
    by simp_all
  from eth_balance_scaling[OF h1 h2 h3 h4 h5(1,2)] h5(3) obtain x y where
    "get_eth_balance example_config (wei_env ''0x38d7ea4c68000'') ''0xAb'' (py_str_int 100)
       = (Inr (JFloat (Fin x)), [])"
    "py_mul (JFloat (Fin x)) (JInt (10 ^ 18)) = Inr (JFloat (Fin y))"
    "py_round (Fin y) = Inr 1000000000000000"
    by blast
  with h4 show ?thesis unfolding s by blast
qed

text \<open>
  Claim C7 as stated fails from \<open>2^53\<close> wei on: one ETH and one wei come back as
  exactly 1.0, which multiplied by \<open>10^18\<close> and rounded is one wei short.
\<close>

theorem one_wei_lost:
  "get_eth_balance example_config (wei_env ''0xde0b6b3a7640001'') ''0xAb'' ''100''
     = (Inr (JFloat (Fin 1)), [])
   \<and> int_of_str 16 ''0xde0b6b3a7640001'' = Inr 1000000000000000001
   \<and> py_mul (JFloat (Fin 1)) (JInt (10 ^ 18)) = Inr (JFloat (Fin (10 ^ 18)))
   \<and> py_round (Fin (10 ^ 18)) = Inr 1000000000000000000"
  by code_simp

text \<open>
  Between \<open>2^51\<close> and \<open>2^52\<close> the float product already loses a wei that the
  exact product would keep.
\<close>

lemma round_trip_lost_below_2_52:
  "int_of_str 16 ''0xf8e517311d8a3'' = Inr 4378605124704419
   \<and> bind_err (fst (get_eth_balance example_config (wei_env ''0xf8e517311d8a3'') ''0xAb'' ''100''))
        (\<lambda>balance. bind_err (py_mul balance (JInt (10 ^ 18)))
        (\<lambda>v. case v of JFloat y \<Rightarrow> py_round y | _ \<Rightarrow> Inl TypeError))
       = Inr 4378605124704420"
  by code_simp



subsection \<open>Calendar dates\<close>

lemma sum_int_head:
  fixes f :: "int \<Rightarrow> int"
  assumes "y < y'"
  shows "(\<Sum>k = y..<y'. f k) = f y + (\<Sum>k = y + 1..<y'. f k)"
proof -
  have "{y..<y'} = insert y {y + 1..<y'}" using assms by auto
  then show ?thesis by simp
qed

lemma sum_int_head_closed:
  fixes f :: "int \<Rightarrow> int"
  assumes "m \<le> n"
  shows "(\<Sum>j = m..n. f j) = f m + (\<Sum>j = m + 1..n. f j)"
proof -
  have "{m..n} = insert m {m + 1..n}" using assms by auto
  then show ?thesis by simp
qed

lemma days_in_year_bounds: "365 \<le> days_in_year y" "days_in_year y \<le> 366"
  by (simp_all add: days_in_year_def)

lemma year_fwd_spec:
  "0 \<le> n \<Longrightarrow> year_fwd y n = (y', r) \<Longrightarrow>
   y \<le> y' \<and> 0 \<le> r \<and> r < days_in_year y' \<and> n = (\<Sum>k = y..<y'. days_in_year k) + r
   \<and> 365 * (y' - y) \<le> n"
proof (induction y n rule: year_fwd.induct)
  case (1 y n)
  show ?case
  proof (cases "n < days_in_year y")
    case True
    with 1(2,3) show ?thesis by (simp add: year_fwd.simps[of y n])
  next
    case False
    with 1(3) have rec: "year_fwd (y + 1) (n - days_in_year y) = (y', r)"
      by (simp add: year_fwd.simps[of y n])
    from False have nn: "0 \<le> n - days_in_year y" by simp
    from 1(1)[OF False nn rec] have ih: "y + 1 \<le> y'" "0 \<le> r" "r < days_in_year y'"
      "n - days_in_year y = (\<Sum>k = y + 1..<y'. days_in_year k) + r"
      "365 * (y' - (y + 1)) \<le> n - days_in_year y"
      by simp_all
    from ih(1) have "y < y'" by simp
    from sum_int_head[OF this, of days_in_year] ih(4)
    have "n = (\<Sum>k = y..<y'. days_in_year k) + r" by simp
    moreover from ih(5) days_in_year_bounds(1)[of y] have "365 * (y' - y) \<le> n" by simp
    ultimately show ?thesis using ih(1-3) by simp
  qed
qed

lemma month_fwd_spec:
  "1 \<le> m \<Longrightarrow> m \<le> 12 \<Longrightarrow> 0 \<le> n \<Longrightarrow> n < (\<Sum>j = m..12. days_in_month y j) \<Longrightarrow>
   month_fwd y m n = (m', d) \<Longrightarrow>
   m \<le> m' \<and> m' \<le> 12 \<and> 1 \<le> d \<and> d \<le> days_in_month y m'
   \<and> n = (\<Sum>j = m..<m'. days_in_month y j) + d - 1"
proof (induction y m n rule: month_fwd.induct)
  case (1 y m n)
  show ?case
  proof (cases "12 \<le> m \<or> n < days_in_month y m")
    case True
    with 1(6) have md: "m' = m" "d = n + 1" by (simp_all add: month_fwd.simps[of y m n])
    have "n < days_in_month y m"
    proof (cases "n < days_in_month y m")
      case True then show ?thesis .
    next
      case False
      with \<open>12 \<le> m \<or> n < days_in_month y m\<close> 1(3) have "m = 12" by simp
      with 1(5) show ?thesis by simp
    qed
    with md 1(2-4) show ?thesis by simp
  next
    case False
    then have m12: "m < 12" and ge: "days_in_month y m \<le> n" by simp_all
    from False 1(6) have rec: "month_fwd y (m + 1) (n - days_in_month y m) = (m', d)"
      by (simp add: month_fwd.simps[of y m n])
    from 1(3) sum_int_head_closed[of m 12 "days_in_month y"] 1(5)
    have lt: "n - days_in_month y m < (\<Sum>j = m + 1..12. days_in_month y j)" by simp
    from 1(1)[OF False _ _ _ lt rec] 1(2) m12 ge
    have ih: "m + 1 \<le> m'" "m' \<le> 12" "1 \<le> d" "d \<le> days_in_month y m'"
      "n - days_in_month y m = (\<Sum>j = m + 1..<m'. days_in_month y j) + d - 1"
      by simp_all
    from ih(1) have "m < m'" by simp
    from sum_int_head[OF this, of "days_in_month y"] ih(5)
    have "n = (\<Sum>j = m..<m'. days_in_month y j) + d - 1" by simp
    with ih(1-4) show ?thesis by simp
  qed
qed

lemma year_as_months: "(\<Sum>j = 1..12. days_in_month y j) = days_in_year y"
  by (simp add: sum_int_head_closed days_in_month_def days_in_year_def)

lemma civil_of_days_spec:
  assumes "0 \<le> n" and "civil_of_days n = (y, m, d)"
  shows "1970 \<le> y" "365 * (y - 1970) \<le> n" "1 \<le> m" "m \<le> 12" "1 \<le> d" "d \<le> days_in_month y m"
    "n = (\<Sum>k = 1970..<y. days_in_year k) + (\<Sum>j = 1..<m. days_in_month y j) + d - 1"
proof -
  obtain y0 r where yr: "year_fwd 1970 n = (y0, r)" by (cases "year_fwd 1970 n")
  obtain m0 d0 where md: "month_fwd y0 1 r = (m0, d0)" by (cases "month_fwd y0 1 r")
  from assms yr md have eq: "y = y0" "m = m0" "d = d0"
    by (simp_all add: civil_of_days_def)
  from year_fwd_spec[OF assms(1) yr] have ys: "1970 \<le> y0" "0 \<le> r" "r < days_in_year y0"
    "n = (\<Sum>k = 1970..<y0. days_in_year k) + r" "365 * (y0 - 1970) \<le> n"
    by simp_all
  from ys(3) have "r < (\<Sum>j = 1..12. days_in_month y0 j)" by (simp only: year_as_months)
  from month_fwd_spec[OF _ _ ys(2) this md]
  have ms: "1 \<le> m0" "m0 \<le> 12" "1 \<le> d0" "d0 \<le> days_in_month y0 m0"
    "r = (\<Sum>j = 1..<m0. days_in_month y0 j) + d0 - 1"
    by simp_all
  show "1970 \<le> y" "365 * (y - 1970) \<le> n" "1 \<le> m" "m \<le> 12" "1 \<le> d" "d \<le> days_in_month y m"
    using ys ms by (simp_all add: eq)
  show "n = (\<Sum>k = 1970..<y. days_in_year k) + (\<Sum>j = 1..<m. days_in_month y j) + d - 1"
    using ys(4) ms(5) by (simp add: eq)
qed


lemma is_digit_digit_char: "0 \<le> k \<Longrightarrow> k < 10 \<Longrightarrow> is_digit (digit_char k)"
  by (auto simp: is_digit_def digit_char_def)

lemma dig_digit_char: "0 \<le> k \<Longrightarrow> k < 10 \<Longrightarrow> dig (digit_char k) = k"
  by (auto simp: dig_def digit_char_def)

lemma digit_char_not_dash: "0 \<le> k \<Longrightarrow> k < 10 \<Longrightarrow> digit_char k \<noteq> CHR ''-''"
proof
  assume k: "0 \<le> k" "k < 10" and "digit_char k = CHR ''-''"
  then have "is_digit CHR ''-''" using is_digit_digit_char[OF k] by simp
  then show False by (simp add: is_digit_def)
qed

lemma show_nat_small: "0 \<le> n \<Longrightarrow> n < 10 \<Longrightarrow> show_nat 10 n = [digit_char n]"
  by (simp add: show_nat.simps[of 10 n])

lemma show_nat_step: "10 \<le> n \<Longrightarrow> show_nat 10 n = show_nat 10 (n div 10) @ [digit_char (n mod 10)]"
  by (simp add: show_nat.simps[of 10 n])

lemma show_year:
  assumes "1000 \<le> y" "y \<le> 9999"
  shows "show_nat 10 y = [digit_char (y div 1000), digit_char (y div 100 mod 10),
                          digit_char (y div 10 mod 10), digit_char (y mod 10)]"
proof -
  have a: "10 \<le> y" "10 \<le> y div 10" "10 \<le> y div 10 div 10"
    "0 \<le> y div 10 div 10 div 10" "y div 10 div 10 div 10 < 10"
    using assms by simp_all
  have d: "y div 10 div 10 = y div 100" "y div 10 div 10 div 10 = y div 1000"
    "y div 100 div 10 = y div 1000"
    by (simp_all add: zdiv_zmult2_eq[symmetric])
  show ?thesis
    using show_nat_step[OF a(1)] show_nat_step[OF a(2)] show_nat_step[OF a(3)]
      show_nat_small[OF a(4,5)]
    by (simp add: d)
qed

lemma split_dash_ne: "split_dash s \<noteq> []"
  by (induction s) (auto split: list.splits)

lemma split_dash_plain: "CHR ''-'' \<notin> set xs \<Longrightarrow> split_dash xs = [xs]"
  by (induction xs) (auto split: list.splits)

lemma split_dash_field:
  "CHR ''-'' \<notin> set xs \<Longrightarrow> split_dash (xs @ CHR ''-'' # rest) = xs # split_dash rest"
  by (induction xs) (auto split: list.splits simp: split_dash_ne)

lemma pad2_table:
  "list_all (\<lambda>n. length (pad2 n) = 2 \<and> CHR ''-'' \<notin> set (pad2 n)
                 \<and> parse_day (pad2 n) = Some n
                 \<and> (n \<le> 12 \<longrightarrow> parse_month (pad2 n) = Some n)) [1..31]"
  by code_simp

lemma pad2_parse:
  assumes "1 \<le> n" "n \<le> 31"
  shows "length (pad2 n) = 2" "CHR ''-'' \<notin> set (pad2 n)" "parse_day (pad2 n) = Some n"
    "n \<le> 12 \<Longrightarrow> parse_month (pad2 n) = Some n"
proof -
  from assms have "n \<in> set [1..31]" by simp
  with pad2_table have "length (pad2 n) = 2 \<and> CHR ''-'' \<notin> set (pad2 n)
                 \<and> parse_day (pad2 n) = Some n
                 \<and> (n \<le> 12 \<longrightarrow> parse_month (pad2 n) = Some n)"
    unfolding list_all_iff by blast
  then show "length (pad2 n) = 2" "CHR ''-'' \<notin> set (pad2 n)" "parse_day (pad2 n) = Some n"
    "n \<le> 12 \<Longrightarrow> parse_month (pad2 n) = Some n"
    by simp_all
qed

lemma days_in_month_le: "days_in_month y m \<le> 31"
  by (simp add: days_in_month_def)

lemma strptime_strftime:
  assumes "1000 \<le> y" "y \<le> 9999" "1 \<le> m" "m \<le> 12" "1 \<le> d" "d \<le> days_in_month y m"
  shows "strptime_ymd (strftime_ymd (y, m, d)) = Inr (y, m, d)"
    and "length (strftime_ymd (y, m, d)) = 10"
proof -
  let ?Y = "[digit_char (y div 1000), digit_char (y div 100 mod 10),
             digit_char (y div 10 mod 10), digit_char (y mod 10)]"
  have dg: "0 \<le> y div 1000" "y div 1000 < 10" "0 \<le> y div 100 mod 10" "y div 100 mod 10 < 10"
    "0 \<le> y div 10 mod 10" "y div 10 mod 10 < 10" "0 \<le> y mod 10" "y mod 10 < 10"
    using assms(1,2) by simp_all
  have sy: "py_str_int y = ?Y"
    using assms(1,2) by (simp add: py_str_int_def show_year)
  have nd: "CHR ''-'' \<notin> set ?Y"
    using digit_char_not_dash[OF dg(1,2)] digit_char_not_dash[OF dg(3,4)]
      digit_char_not_dash[OF dg(5,6)] digit_char_not_dash[OF dg(7,8)]
    by auto
  have py: "parse_year ?Y = Some y"
  proof -
    have "y mod 100 = 10 * (y div 10 mod 10) + y mod 10"
      using zmod_zmult2_eq[of 10 y 10] by simp
    moreover have "y mod 1000 = 100 * (y div 100 mod 10) + y mod 100"
      using zmod_zmult2_eq[of 10 y 100] by simp
    moreover have "y = 1000 * (y div 1000) + y mod 1000"
      by simp
    ultimately
    have "1000 * (y div 1000) + 100 * (y div 100 mod 10) + 10 * (y div 10 mod 10) + y mod 10 = y"
      by linarith
    then show ?thesis
      by (simp add: parse_year_def is_digit_digit_char dig_digit_char dg)
  qed
  have d31: "d \<le> 31" using assms(6) days_in_month_le[of y m] by simp
  have m31: "m \<le> 31" using assms(4) by simp
  note pm = pad2_parse[OF assms(3) m31] and pd = pad2_parse[OF assms(5) d31]
  have sp: "split_dash (strftime_ymd (y, m, d)) = [?Y, pad2 m, pad2 d]"
    using split_dash_field[OF nd, of "pad2 m @ CHR ''-'' # pad2 d"]
      split_dash_field[OF pm(2), of "pad2 d"] split_dash_plain[OF pd(2)]
    by (simp add: strftime_ymd_def sy)
  show "strptime_ymd (strftime_ymd (y, m, d)) = Inr (y, m, d)"
    using assms py pm(4) pd(3) by (simp add: strptime_ymd_def sp)
  show "length (strftime_ymd (y, m, d)) = 10"
    using pm(1) pd(1) by (simp add: strftime_ymd_def sy)
qed

lemma epoch_date: "utcfromtimestamp 0 = Inr (1970, 1, 1)" "strftime_ymd (1970, 1, 1) = ''1970-01-01''"
  by code_simp+

subsection \<open>block_to_date\<close>

lemma block_to_date_epoch:
  assumes "http e (block_request cfg block_number) = Inr response"
    and "body response = Some (JObj kvs)"
    and "map_of kvs ''result'' = None
         \<or> (\<exists>r. map_of kvs ''result'' = Some (JObj r) \<and> map_of r ''timeStamp'' = None)"
  shows "block_to_date cfg e block_number = Inr ''1970-01-01''"
  using assms
  by (auto simp: block_to_date_def bind_err_def response_json_def epoch_date)

lemma block_to_date_stamp:
  assumes "http e (block_request cfg block_number) = Inr response"
    and "body response = Some (JObj kvs)"
    and "map_of kvs ''result'' = Some (JObj r)" and "map_of r ''timeStamp'' = Some ts"
    and "py_int ts = Inr t" and "0 \<le> t" and "t < 253234080000"
  shows "\<exists>y m d. block_to_date cfg e block_number = Inr (strftime_ymd (y, m, d))
           \<and> 1970 \<le> y \<and> y \<le> 9999 \<and> 1 \<le> m \<and> m \<le> 12 \<and> 1 \<le> d \<and> d \<le> days_in_month y m
           \<and> t div 86400 = (\<Sum>k = 1970..<y. days_in_year k)
                            + (\<Sum>j = 1..<m. days_in_month y j) + d - 1
           \<and> length (strftime_ymd (y, m, d)) = 10
           \<and> strptime_ymd (strftime_ymd (y, m, d)) = Inr (y, m, d)"
proof -
  obtain y m d where c: "civil_of_days (t div 86400) = (y, m, d)"
    by (cases "civil_of_days (t div 86400)") auto
  have n0: "0 \<le> t div 86400" using assms(6) by simp
  have n1: "t div 86400 < 2930950" using assms(7) by simp
  note sp = civil_of_days_spec[OF n0 c]
  from sp(2) n1 have y: "y \<le> 9999" by simp
  from sp(1) have y1: "1000 \<le> y" "1 \<le> y" by simp_all
  have u: "utcfromtimestamp t = Inr (y, m, d)"
    using y y1 by (simp add: utcfromtimestamp_def c)
  have b: "block_to_date cfg e block_number = Inr (strftime_ymd (y, m, d))"
    using assms(1-5) u by (simp add: block_to_date_def bind_err_def response_json_def)
  from strptime_strftime[OF y1(1) y sp(3) sp(4) sp(5) sp(6)] b sp y show ?thesis
    by blast
qed

text \<open>
  Claim C5, as amended. When the explorer's answer is a JSON object with no
  \<^verbatim>\<open>result\<close> member, or whose \<^verbatim>\<open>result\<close> is an object with no \<^verbatim>\<open>timeStamp\<close>,
  \<open>block_to_date\<close> returns the epoch date \<^verbatim>\<open>1970-01-01\<close>, as a normal return. When
  the \<^verbatim>\<open>result\<close> object has a \<^verbatim>\<open>timeStamp\<close> that \<^verbatim>\<open>int\<close> reads as \<open>t\<close>, with
  \<open>0 \<le> t < 253234080000\<close> (dates into the year 9994), it returns the UTC calendar date
  of \<open>t\<close>: year, month and day are the ones reached by counting \<open>t div 86400\<close> days
  from 1970-01-01, and the string has ten characters that \<^verbatim>\<open>strptime\<close> with
  \<^verbatim>\<open>%Y-%m-%d\<close> reads back as that date.
\<close>

theorem block_to_date_result:
  assumes "http e (block_request cfg block_number) = Inr response"
    and "body response = Some (JObj kvs)"
  shows "(map_of kvs ''result'' = None
          \<or> (\<exists>r. map_of kvs ''result'' = Some (JObj r) \<and> map_of r ''timeStamp'' = None)
          \<longrightarrow> block_to_date cfg e block_number = Inr ''1970-01-01'')
       \<and> (\<forall>r ts t. map_of kvs ''result'' = Some (JObj r) \<and> map_of r ''timeStamp'' = Some ts
                    \<and> py_int ts = Inr t \<and> 0 \<le> t \<and> t < 253234080000
           \<longrightarrow> (\<exists>y m d. block_to_date cfg e block_number = Inr (strftime_ymd (y, m, d))
                 \<and> 1970 \<le> y \<and> y \<le> 9999 \<and> 1 \<le> m \<and> m \<le> 12 \<and> 1 \<le> d \<and> d \<le> days_in_month y m
                 \<and> t div 86400 = (\<Sum>k = 1970..<y. days_in_year k)
                                  + (\<Sum>j = 1..<m. days_in_month y j) + d - 1
                 \<and> length (strftime_ymd (y, m, d)) = 10
                 \<and> strptime_ymd (strftime_ymd (y, m, d)) = Inr (y, m, d)))"
proof (intro conjI impI allI)
  assume "map_of kvs ''result'' = None
          \<or> (\<exists>r. map_of kvs ''result'' = Some (JObj r) \<and> map_of r ''timeStamp'' = None)"
  from block_to_date_epoch[OF assms this] show "block_to_date cfg e block_number = Inr ''1970-01-01''" .
next
  fix r ts t
  assume "map_of kvs ''result'' = Some (JObj r) \<and> map_of r ''timeStamp'' = Some ts
          \<and> py_int ts = Inr t \<and> 0 \<le> t \<and> t < 253234080000"
  then have h: "map_of kvs ''result'' = Some (JObj r)" "map_of r ''timeStamp'' = Some ts"
    "py_int ts = Inr t" "0 \<le> t" "t < 253234080000"
    by simp_all
  from block_to_date_stamp[OF assms h]
  show "\<exists>y m d. block_to_date cfg e block_number = Inr (strftime_ymd (y, m, d))
           \<and> 1970 \<le> y \<and> y \<le> 9999 \<and> 1 \<le> m \<and> m \<le> 12 \<and> 1 \<le> d \<and> d \<le> days_in_month y m
           \<and> t div 86400 = (\<Sum>k = 1970..<y. days_in_year k)
                            + (\<Sum>j = 1..<m. days_in_month y j) + d - 1
           \<and> length (strftime_ymd (y, m, d)) = 10
           \<and> strptime_ymd (strftime_ymd (y, m, d)) = Inr (y, m, d)" .
qed

theorem block_to_date_result_witness:
  "block_to_date example_config empty_env ''100'' = Inr ''1970-01-01''
   \<and> block_to_date ledger_config ledger_env ''100'' = Inr ''2015-07-30''
   \<and> (\<exists>y m d. block_to_date ledger_config ledger_env ''100'' = Inr (strftime_ymd (y, m, d))
         \<and> 1438270239 div 86400 = (\<Sum>k = 1970..<y. days_in_year k)
                                   + (\<Sum>j = 1..<m. days_in_month y j) + d - 1
         \<and> strptime_ymd (strftime_ymd (y, m, d)) = Inr (y, m, d))"
proof -
  let ?r0 = "\<lparr>status_code = 200, body = Some (JObj [])\<rparr>"
  have a1: "http empty_env (block_request example_config ''100'') = Inr ?r0"
    by (simp add: empty_env_def)
  have a2: "body ?r0 = Some (JObj [])" by simp
  from block_to_date_result[OF a1 a2]
  have e: "block_to_date example_config empty_env ''100'' = Inr ''1970-01-01''"
    by simp
  let ?res = "[(''blockNumber'', JStr ''100''), (''timeStamp'', JStr ''1438270239'')]"
  let ?kvs = "[(''status'', JStr ''1''), (''message'', JStr ''OK''), (''result'', JObj ?res)]"
  let ?r1 = "\<lparr>status_code = 200, body = Some (JObj ?kvs)\<rparr>"
  have b1: "http ledger_env (block_request ledger_config ''100'') = Inr ?r1"
    by code_simp
  have b2: "body ?r1 = Some (JObj ?kvs)" by simp
  have b3: "int_of_str 10 ''1438270239'' = Inr 1438270239"
    by code_simp
  have "map_of ?kvs ''result'' = Some (JObj ?res) \<and> map_of ?res ''timeStamp'' = Some (JStr ''1438270239'')
        \<and> py_int (JStr ''1438270239'') = Inr 1438270239 \<and> (0::int) \<le> 1438270239
        \<and> (1438270239::int) < 253234080000"
    by (simp add: b3)
  with block_to_date_result[OF b1 b2]
  have "\<exists>y m d. block_to_date ledger_config ledger_env ''100'' = Inr (strftime_ymd (y, m, d))
         \<and> 1970 \<le> y \<and> y \<le> 9999 \<and> 1 \<le> m \<and> m \<le> 12 \<and> 1 \<le> d \<and> d \<le> days_in_month y m
         \<and> 1438270239 div 86400 = (\<Sum>k = 1970..<y. days_in_year k)
                                   + (\<Sum>j = 1..<m. days_in_month y j) + d - 1
         \<and> length (strftime_ymd (y, m, d)) = 10
         \<and> strptime_ymd (strftime_ymd (y, m, d)) = Inr (y, m, d)"
    by blast
  then have x: "\<exists>y m d. block_to_date ledger_config ledger_env ''100'' = Inr (strftime_ymd (y, m, d))
         \<and> 1438270239 div 86400 = (\<Sum>k = 1970..<y. days_in_year k)
                                   + (\<Sum>j = 1..<m. days_in_month y j) + d - 1
         \<and> strptime_ymd (strftime_ymd (y, m, d)) = Inr (y, m, d)"
    by blast
  have v: "block_to_date ledger_config ledger_env ''100'' = Inr ''2015-07-30''"
    by code_simp
  from e v x show ?thesis by blast
qed

text \<open>
  Claim C5 as stated fails on the explorer's error answer: it holds no timestamp, its
  \<^verbatim>\<open>result\<close> is a string, and \<^verbatim>\<open>.get('timeStamp', 0)\<close> on a string raises.
\<close>

theorem error_payload_raises:
  "http notok_env (block_request example_config ''100'') = Inr notok_response
   \<and> dict_get (JObj [(''status'', JStr ''0''), (''message'', JStr ''NOTOK''),
                     (''result'', JStr ''Max rate limit reached'')]) ''result'' (JObj [])
       = Inr (JStr ''Max rate limit reached'')
   \<and> block_to_date example_config notok_env ''100'' = Inl AttributeError"
  by code_simp


subsection \<open>Failures that are absorbed\<close>

lemma run_all_None:
  "\<forall>x \<in> set xs. snd (f x) = None \<Longrightarrow> snd (run_all f xs) = None"
proof (induction xs)
  case Nil
  show ?case by simp
next
  case (Cons x xs)
  then have "snd (f x) = None" "snd (run_all f xs) = None" by simp_all
  then show ?case
    by (cases "f x"; cases "run_all f xs") simp
qed

lemma parse_zero: "int_of_str 10 ''0'' = Inr 0"
  by code_simp

lemma parse_epoch: "strptime_ymd ''1970-01-01'' = Inr (1970, 1, 1)"
  by code_simp

lemma fetch_result_missing:
  assumes "http e req = Inr response" "body response = Some (JObj kvs)"
    "map_of kvs ''result'' = None"
  shows "fetch_result e req dflt = Inr dflt"
  using assms by (simp add: fetch_result_def bind_err_def response_json_def)

lemma tokens_missing:
  assumes "http e (tokentx_all_request cfg address) = Inr response"
    and "status_code response \<noteq> 200
         \<or> (\<exists>kvs. body response = Some (JObj kvs) \<and> map_of kvs ''result'' = None)"
  shows "get_erc20_tokens cfg e address = Inr []"
  using assms by (auto simp: get_erc20_tokens_def bind_err_def response_json_def)

lemma price_missing:
  assumes "strptime_ymd date = Inr (y, m, d)"
    and "mktime e y m d = Inr ts"
    and "http e (price_request cfg symbol ts) = Inr response"
    and "status_code response \<noteq> 200
         \<or> (\<exists>kvs. body response = Some (JObj kvs) \<and> map_of kvs ''Data'' = None)"
  shows "get_token_price_on_date_cryptocompare cfg e symbol date
           = (Inr JNull, [ErrorFetchingPrice symbol date])"
  using assms
  by (auto simp: get_token_price_on_date_cryptocompare_def bind_err_def response_json_def)

lemma price_clock_raises:
  assumes "strptime_ymd date = Inr (y, m, d)" and "mktime e y m d = Inl err"
  shows "get_token_price_on_date_cryptocompare cfg e symbol date = (Inl err, [])"
  using assms by (simp add: get_token_price_on_date_cryptocompare_def bind_err_def)

lemma eth_balance_missing:
  assumes "http e (eth_balance_request cfg address n) = Inr response"
    and "body response = Some (JObj kvs)" and "map_of kvs ''result'' = None"
  shows "get_eth_balance cfg e address (py_str_int n) =
           (Inr (JInt 0), [ErrorFetchingEthBalance (py_str_int n) address])"
  using assms
  by (auto simp: get_eth_balance_def int_of_str_py_str_int bind_err_def response_json_def)

lemma missing_world:
  assumes "answers_without_fields e"
  obtains response kvs where "http e req = Inr response" "body response = Some (JObj kvs)"
    "map_of kvs ''result'' = None" "map_of kvs ''Data'' = None"
  using assms unfolding answers_without_fields_def by blast

lemma missing_block_to_date:
  assumes "answers_without_fields e"
  shows "block_to_date cfg e b = Inr ''1970-01-01''"
proof -
  from assms obtain response kvs where h: "http e (block_request cfg b) = Inr response"
    "body response = Some (JObj kvs)" "map_of kvs ''result'' = None"
    by (rule missing_world)
  from block_to_date_epoch[OF h(1,2) disjI1[OF h(3)]] show ?thesis .
qed

lemma missing_eth_balance:
  assumes "answers_without_fields e"
  shows "get_eth_balance cfg e a (py_str_int n) =
           (Inr (JInt 0), [ErrorFetchingEthBalance (py_str_int n) a])"
proof -
  from assms obtain response kvs where h: "http e (eth_balance_request cfg a n) = Inr response"
    "body response = Some (JObj kvs)" "map_of kvs ''result'' = None"
    by (rule missing_world)
  from eth_balance_missing[OF h] show ?thesis .
qed

lemma missing_tokens:
  assumes "answers_without_fields e"
  shows "get_erc20_tokens cfg e a = Inr []"
proof -
  from assms obtain response kvs where h: "http e (tokentx_all_request cfg a) = Inr response"
    "body response = Some (JObj kvs)" "map_of kvs ''result'' = None"
    by (rule missing_world)
  then show ?thesis by (intro tokens_missing[OF h(1)]) blast
qed

lemma missing_price:
  assumes "answers_without_fields e" and "strptime_ymd date = Inr (y, m, d)"
    and "mktime e y m d = Inr ts"
  shows "get_token_price_on_date_cryptocompare cfg e symbol date
           = (Inr JNull, [ErrorFetchingPrice symbol date])"
proof -
  from assms(1) obtain response kvs where
    h: "http e (price_request cfg symbol ts) = Inr response"
    "body response = Some (JObj kvs)" "map_of kvs ''Data'' = None"
    by (rule missing_world)
  from price_missing[OF assms(2,3) h(1)] h(2,3) show ?thesis by blast
qed

lemma missing_reconstruct:
  assumes "answers_without_fields e"
  shows "reconstruct_erc20_balance cfg e a contract symbol b = Inr (Fin 0)"
proof -
  have f: "fetch_result e req dflt = Inr dflt" for req dflt
  proof -
    from assms obtain response kvs where "http e req = Inr response"
      "body response = Some (JObj kvs)" "map_of kvs ''result'' = None"
      by (rule missing_world)
    then show ?thesis by (rule fetch_result_missing)
  qed
  show ?thesis
    by (simp add: reconstruct_erc20_balance_def f bind_err_def parse_zero truediv_zero_wei)
qed

lemma missing_block_rows:
  assumes "answers_without_fields e" and "mktime e 1970 1 1 = Inr t0"
  shows "snd (block_rows cfg e a (py_str_int n)) = None"
proof -
  have "py_mul (JInt 0) (price_or_zero JNull) = Inr (JInt 0)"
    by (simp add: py_mul_def price_or_zero_def)
  then have "\<exists>evs. eth_row cfg e a (py_str_int n) = (evs, Inr ''1970-01-01'')"
    by (simp add: eth_row_def missing_block_to_date[OF assms(1)] missing_eth_balance[OF assms(1)]
        missing_price[OF assms(1) parse_epoch assms(2)] bind_err_def)
  then show ?thesis
    by (auto simp: block_rows_def missing_tokens[OF assms(1)])
qed

lemma missing_main:
  assumes "answers_without_fields e"
    and "\<forall>b \<in> set (BLOCK_NUMBERS cfg). \<exists>n. b = py_str_int n"
    and "mktime e 1970 1 1 = Inr t0"
  shows "snd (main cfg e) = None"
proof -
  have b: "\<forall>b \<in> set (BLOCK_NUMBERS cfg). snd (block_rows cfg e a b) = None" for a
  proof
    fix b assume "b \<in> set (BLOCK_NUMBERS cfg)"
    with assms(2) obtain n where "b = py_str_int n" by blast
    then show "snd (block_rows cfg e a b) = None"
      by (simp add: missing_block_rows[OF assms(1,3)])
  qed
  have "snd (address_rows cfg e a) = None" for a
    using run_all_None[OF b[of a]]
    by (cases "run_all (block_rows cfg e a) (BLOCK_NUMBERS cfg)") (simp add: address_rows_def)
  then have "snd (run_all (address_rows cfg e) (WALLET_ADDRESSES cfg)) = None"
    by (intro run_all_None) simp
  then show ?thesis
    by (cases "run_all (address_rows cfg e) (WALLET_ADDRESSES cfg)") (simp add: main_def)
qed

text \<open>
  Claim C4, as amended. When the answer to a request is a JSON object that lacks the
  expected member (\<^verbatim>\<open>result\<close>, \<^verbatim>\<open>Data\<close>), whatever its status code, each fetch
  returns its neutral value instead of raising: the epoch date, the balance 0 with a
  diagnostic, the empty token mapping, the reconstructed balance 0.0, and, for a date
  that parses and that the local clock converts to a timestamp, the unavailable price
  with a diagnostic; a run over such answers whose clock converts the epoch date is not
  aborted. Token discovery and the price lookup also return these values for every
  answer whose status is not 200, without reading its body. A date that the clock
  cannot convert makes the price lookup raise before any request is sent.
\<close>

theorem missing_fields_absorbed:
  "(answers_without_fields e \<longrightarrow>
      block_to_date cfg e block_number = Inr ''1970-01-01''
      \<and> get_eth_balance cfg e address (py_str_int n)
          = (Inr (JInt 0), [ErrorFetchingEthBalance (py_str_int n) address])
      \<and> get_erc20_tokens cfg e address = Inr []
      \<and> reconstruct_erc20_balance cfg e address contract symbol block_number = Inr (Fin 0)
      \<and> (strptime_ymd date = Inr (y, m, d) \<and> mktime e y m d = Inr ts \<longrightarrow>
           get_token_price_on_date_cryptocompare cfg e symbol date
             = (Inr JNull, [ErrorFetchingPrice symbol date]))
      \<and> ((\<forall>b \<in> set (BLOCK_NUMBERS cfg). \<exists>k. b = py_str_int k) \<and> mktime e 1970 1 1 = Inr t0
           \<longrightarrow> snd (main cfg e) = None))
   \<and> (http e (tokentx_all_request cfg address) = Inr response \<and> status_code response \<noteq> 200
        \<longrightarrow> get_erc20_tokens cfg e address = Inr [])
   \<and> (strptime_ymd date = Inr (y, m, d) \<and> mktime e y m d = Inr ts
        \<and> http e (price_request cfg symbol ts) = Inr response
        \<and> status_code response \<noteq> 200
        \<longrightarrow> get_token_price_on_date_cryptocompare cfg e symbol date
              = (Inr JNull, [ErrorFetchingPrice symbol date]))
   \<and> (strptime_ymd date = Inr (y, m, d) \<and> mktime e y m d = Inl err
        \<longrightarrow> get_token_price_on_date_cryptocompare cfg e symbol date = (Inl err, []))"
proof -
  have a: "answers_without_fields e \<longrightarrow>
      block_to_date cfg e block_number = Inr ''1970-01-01''
      \<and> get_eth_balance cfg e address (py_str_int n)
          = (Inr (JInt 0), [ErrorFetchingEthBalance (py_str_int n) address])
      \<and> get_erc20_tokens cfg e address = Inr []
      \<and> reconstruct_erc20_balance cfg e address contract symbol block_number = Inr (Fin 0)
      \<and> (strptime_ymd date = Inr (y, m, d) \<and> mktime e y m d = Inr ts \<longrightarrow>
           get_token_price_on_date_cryptocompare cfg e symbol date
             = (Inr JNull, [ErrorFetchingPrice symbol date]))
      \<and> ((\<forall>b \<in> set (BLOCK_NUMBERS cfg). \<exists>k. b = py_str_int k) \<and> mktime e 1970 1 1 = Inr t0
           \<longrightarrow> snd (main cfg e) = None)"
  proof (intro impI conjI)
    assume w: "answers_without_fields e"
    show "block_to_date cfg e block_number = Inr ''1970-01-01''"
      by (rule missing_block_to_date[OF w])
    show "get_eth_balance cfg e address (py_str_int n)
          = (Inr (JInt 0), [ErrorFetchingEthBalance (py_str_int n) address])"
      by (rule missing_eth_balance[OF w])
    show "get_erc20_tokens cfg e address = Inr []"
      by (rule missing_tokens[OF w])
    show "reconstruct_erc20_balance cfg e address contract symbol block_number = Inr (Fin 0)"
      by (rule missing_reconstruct[OF w])
    show "get_token_price_on_date_cryptocompare cfg e symbol date
             = (Inr JNull, [ErrorFetchingPrice symbol date])"
      if "strptime_ymd date = Inr (y, m, d) \<and> mktime e y m d = Inr ts"
      using that by (intro missing_price[OF w, of date y m d ts]) simp_all
    show "snd (main cfg e) = None"
      if "(\<forall>b \<in> set (BLOCK_NUMBERS cfg). \<exists>k. b = py_str_int k) \<and> mktime e 1970 1 1 = Inr t0"
      using that by (intro missing_main[OF w, of cfg t0]) simp_all
  qed
  have b: "http e (tokentx_all_request cfg address) = Inr response \<and> status_code response \<noteq> 200
        \<longrightarrow> get_erc20_tokens cfg e address = Inr []"
  proof
    assume h: "http e (tokentx_all_request cfg address) = Inr response \<and> status_code response \<noteq> 200"
    then have "http e (tokentx_all_request cfg address) = Inr response" by simp
    then show "get_erc20_tokens cfg e address = Inr []"
      by (rule tokens_missing) (use h in simp)
  qed
  have c: "strptime_ymd date = Inr (y, m, d) \<and> mktime e y m d = Inr ts
        \<and> http e (price_request cfg symbol ts) = Inr response
        \<and> status_code response \<noteq> 200
        \<longrightarrow> get_token_price_on_date_cryptocompare cfg e symbol date
              = (Inr JNull, [ErrorFetchingPrice symbol date])"
  proof
    assume h: "strptime_ymd date = Inr (y, m, d) \<and> mktime e y m d = Inr ts
        \<and> http e (price_request cfg symbol ts) = Inr response
        \<and> status_code response \<noteq> 200"
    then have h1: "strptime_ymd date = Inr (y, m, d)"
      and h2: "mktime e y m d = Inr ts"
      and h3: "http e (price_request cfg symbol ts) = Inr response"
      by simp_all
    show "get_token_price_on_date_cryptocompare cfg e symbol date
              = (Inr JNull, [ErrorFetchingPrice symbol date])"
      by (rule price_missing[OF h1 h2 h3]) (use h in simp)
  qed
  have d: "strptime_ymd date = Inr (y, m, d) \<and> mktime e y m d = Inl err
        \<longrightarrow> get_token_price_on_date_cryptocompare cfg e symbol date = (Inl err, [])"
    using price_clock_raises[of date y m d e err cfg symbol] by blast
  from a b c d show ?thesis by (intro conjI)
qed

text \<open>
  Three worlds show it. In the first every request is answered by an empty JSON object
  and the clock puts the epoch date at timestamp 0; in the second every service
  answers 503 with no body; in the third the clock rejects the first day of year 1.
\<close>

theorem missing_fields_absorbed_witness:
  "answers_without_fields empty_env
   \<and> block_to_date example_config empty_env ''100'' = Inr ''1970-01-01''
   \<and> get_erc20_tokens example_config empty_env ''0xAb'' = Inr []
   \<and> reconstruct_erc20_balance example_config empty_env ''0xAb'' (JStr ''0xc0'') (JStr ''TKN'') ''100''
       = Inr (Fin 0)
   \<and> strptime_ymd ''1970-01-01'' = Inr (1970, 1, 1)
   \<and> mktime empty_env 1970 1 1 = Inr 0
   \<and> get_token_price_on_date_cryptocompare example_config empty_env (JStr ''TKN'') ''1970-01-01''
       = (Inr JNull, [ErrorFetchingPrice (JStr ''TKN'') ''1970-01-01''])
   \<and> snd (main example_config empty_env) = None
   \<and> status_code \<lparr>status_code = 503, body = None\<rparr> \<noteq> 200
   \<and> get_erc20_tokens example_config down_env ''0xAb'' = Inr []
   \<and> get_token_price_on_date_cryptocompare example_config down_env (JStr ''TKN'') ''1970-01-01''
       = (Inr JNull, [ErrorFetchingPrice (JStr ''TKN'') ''1970-01-01''])
   \<and> strptime_ymd ''0001-01-01'' = Inr (1, 1, 1)
   \<and> mktime year_one_env 1 1 1 = Inl ValueError
   \<and> get_token_price_on_date_cryptocompare example_config year_one_env (JStr ''TKN'') ''0001-01-01''
       = (Inl ValueError, [])"
proof -
  have w: "answers_without_fields empty_env"
    by (simp add: answers_without_fields_def empty_env_def)
  have s: "py_str_int 100 = ''100''"
    by code_simp
  have bn: "\<forall>b \<in> set (BLOCK_NUMBERS example_config). \<exists>k. b = py_str_int k"
    using s by (auto simp: example_config_def intro!: exI[of _ 100])
  have k: "mktime empty_env 1970 1 1 = Inr 0" "mktime down_env 1970 1 1 = Inr 0"
    by (simp_all add: empty_env_def down_env_def)
  have y1: "strptime_ymd ''0001-01-01'' = Inr (1, 1, 1)"
    by code_simp
  have k1: "mktime year_one_env 1 1 1 = Inl ValueError"
    by (simp add: year_one_env_def)
  have d: "http down_env (tokentx_all_request example_config ''0xAb'')
             = Inr \<lparr>status_code = 503, body = None\<rparr>"
    "http down_env (price_request example_config (JStr ''TKN'') 0)
             = Inr \<lparr>status_code = 503, body = None\<rparr>"
    "status_code \<lparr>status_code = 503, body = None\<rparr> \<noteq> 200"
    by (simp_all add: down_env_def)
  note th = missing_fields_absorbed[where e = empty_env and cfg = example_config
      and block_number = "''100''" and address = "''0xAb''" and n = 100
      and contract = "JStr ''0xc0''" and symbol = "JStr ''TKN''" and date = "''1970-01-01''"
      and y = 1970 and m = 1 and d = 1 and ts = 0 and ?t0.0 = 0]
  from th w bn k(1) parse_epoch have
    "block_to_date example_config empty_env ''100'' = Inr ''1970-01-01''"
    "get_erc20_tokens example_config empty_env ''0xAb'' = Inr []"
    "reconstruct_erc20_balance example_config empty_env ''0xAb'' (JStr ''0xc0'') (JStr ''TKN'') ''100''
       = Inr (Fin 0)"
    "get_token_price_on_date_cryptocompare example_config empty_env (JStr ''TKN'') ''1970-01-01''
       = (Inr JNull, [ErrorFetchingPrice (JStr ''TKN'') ''1970-01-01''])"
    "snd (main example_config empty_env) = None"
    by blast+
  moreover from missing_fields_absorbed[where e = down_env and cfg = example_config
      and address = "''0xAb''" and symbol = "JStr ''TKN''" and date = "''1970-01-01''"
      and y = 1970 and m = 1 and d = 1 and ts = 0
      and response = "\<lparr>status_code = 503, body = None\<rparr>"]
    d k(2) parse_epoch
  have "get_erc20_tokens example_config down_env ''0xAb'' = Inr []"
    "get_token_price_on_date_cryptocompare example_config down_env (JStr ''TKN'') ''1970-01-01''
       = (Inr JNull, [ErrorFetchingPrice (JStr ''TKN'') ''1970-01-01''])"
    by blast+
  moreover from missing_fields_absorbed[where e = year_one_env and cfg = example_config
      and symbol = "JStr ''TKN''" and date = "''0001-01-01''" and y = 1 and m = 1 and d = 1
      and err = ValueError] y1 k1
  have "get_token_price_on_date_cryptocompare example_config year_one_env (JStr ''TKN'') ''0001-01-01''
       = (Inl ValueError, [])"
    by blast
  ultimately show ?thesis using w k(1) parse_epoch y1 k1 by simp
qed

text \<open>
  Claim C4 as stated fails: nothing in the program catches an exception. The
  explorer's error answer, a well-formed JSON object whose \<^verbatim>\<open>result\<close> is a message,
  makes token discovery and the reconstruction raise, and ends the run at its first
  request.
\<close>

theorem error_payload_aborts_run:
  "http notok_env (tokentx_all_request example_config ''0xAb'') = Inr notok_response
   \<and> get_erc20_tokens example_config notok_env ''0xAb'' = Inl TypeError
   \<and> reconstruct_erc20_balance example_config notok_env ''0xAb'' (JStr ''0xc0'') (JStr ''TKN'') ''100''
       = Inl ValueError
   \<and> snd (main example_config notok_env) = Some AttributeError"
  by code_simp


end
